theory Spec2Isabelle
  imports Main "HOL-Library.Word"
begin

unbundle bit_operations_syntax

section \<open>Machine types and the word macros\<close>

type_synonym u8 = "8 word"
type_synonym u16 = "16 word"
type_synonym u32 = "32 word"
type_synonym u64 = "64 word"

text \<open>
  The byte and word macros \<open>LOBYTE\<close>, \<open>HIBYTE\<close>, \<open>LOWORD\<close>, \<open>HIWORD\<close>, \<open>MKWORD\<close>,
  \<open>MKLONG\<close> and \<open>ISSET\<close> come from \<open>UPELIB.hpp\<close>, which belongs to the UPE library and
  not to this repository.  Modelled from the spec: the spec speaks of the count byte (the
  left byte) of a 16 bit register and of 16 significant bits right aligned in a 32 bit
  slot, which is the usual meaning of these macros: the low or high half of the
  argument, and the concatenation of a high and a low half.
\<close>

definition LOBYTE :: "'a::len word \<Rightarrow> u8" where
  "LOBYTE x = ucast (x AND 0xFF)"

definition HIBYTE :: "'a::len word \<Rightarrow> u8" where
  "HIBYTE x = ucast (drop_bit 8 x AND 0xFF)"

definition LOWORD :: "'a::len word \<Rightarrow> u16" where
  "LOWORD x = ucast (x AND 0xFFFF)"

definition HIWORD :: "'a::len word \<Rightarrow> u16" where
  "HIWORD x = ucast (drop_bit 16 x AND 0xFFFF)"

definition MKWORD :: "u8 \<Rightarrow> u8 \<Rightarrow> u16" where
  "MKWORD h l = push_bit 8 (ucast h) OR ucast l"

definition MKLONG :: "u16 \<Rightarrow> u16 \<Rightarrow> u32" where
  "MKLONG h l = push_bit 16 (ucast h) OR ucast l"

definition ISSET :: "u32 \<Rightarrow> u32 \<Rightarrow> bool" where
  "ISSET x m = (x AND m \<noteq> 0)"

text \<open>
  \<open>MBS.hpp\<close>: 36 bit words live in a \<open>uint64_t\<close>, half words in a \<open>uint32_t\<close>.
  The source writes the masks in octal: \<open>0777777\<close> is \<open>0x3FFFF\<close> and
  \<open>0777777000000\<close> is \<open>0xFFFFC0000\<close>.
\<close>

definition MASK18 :: "u32 \<Rightarrow> u32" where
  "MASK18 x = x AND 0x3FFFF"

definition RH36 :: "u64 \<Rightarrow> u32" where
  "RH36 x = ucast (x AND 0x3FFFF)"

definition LH36 :: "u64 \<Rightarrow> u32" where
  "LH36 x = ucast (drop_bit 18 (x AND 0xFFFFC0000))"

definition MK36 :: "u32 \<Rightarrow> u32 \<Rightarrow> u64" where
  "MK36 h l = push_bit 18 (ucast h AND 0x3FFFF) OR (ucast l AND 0x3FFFF)"


section \<open>The drive type registry (\<open>DriveType.hpp\<close>, \<open>DriveType.cpp\<close>)\<close>

datatype CTRLTYPE = NOCTRL | RPCTRL | RMCTRL | TM78CTRL | TM03CTRL | NICTRL

record CDriveType =
  m_pszName :: string
  m_nMDT :: u16
  m_CtrlType :: CTRLTYPE

record CDiskType = CDriveType +
  m_nSectors16 :: u8
  m_nSectors18 :: u8
  m_nHeads :: u8
  m_nCylinders :: u16

definition IsRMType :: "'a CDriveType_scheme \<Rightarrow> bool" where
  "IsRMType t = (m_CtrlType t = RMCTRL)"

definition IsRPType :: "'a CDriveType_scheme \<Rightarrow> bool" where
  "IsRPType t = (m_CtrlType t = RPCTRL)"

definition IsTMType :: "'a CDriveType_scheme \<Rightarrow> bool" where
  "IsTMType t = (m_CtrlType t = TM78CTRL \<or> m_CtrlType t = TM03CTRL)"

definition IsDisk :: "'a CDriveType_scheme \<Rightarrow> bool" where
  "IsDisk t = (IsRMType t \<or> IsRPType t)"

definition IsTape :: "'a CDriveType_scheme \<Rightarrow> bool" where
  "IsTape t = IsTMType t"

definition mk_disk :: "string \<Rightarrow> u16 \<Rightarrow> u8 \<Rightarrow> u8 \<Rightarrow> u8 \<Rightarrow> u16 \<Rightarrow> CTRLTYPE \<Rightarrow> CDiskType" where
  "mk_disk pszName nMDT nSectors16 nSectors18 nHeads nCylinders nCtrlType =
     \<lparr>m_pszName = pszName, m_nMDT = nMDT, m_CtrlType = nCtrlType,
      m_nSectors16 = nSectors16, m_nSectors18 = nSectors18,
      m_nHeads = nHeads, m_nCylinders = nCylinders\<rparr>"

definition mk_type :: "string \<Rightarrow> u16 \<Rightarrow> CTRLTYPE \<Rightarrow> CDriveType" where
  "mk_type pszName nMDT nCtrlType =
     \<lparr>m_pszName = pszName, m_nMDT = nMDT, m_CtrlType = nCtrlType\<rparr>"

text \<open>The table of \<open>DriveType.cpp\<close>; the MASSBUS type codes are octal in the source
  (\<open>020\<close>, \<open>022\<close>, \<open>042\<close>, \<open>024\<close>, \<open>027\<close>, \<open>026\<close>) and decimal here.\<close>

definition m_NullType :: CDriveType where "m_NullType = mk_type '''' 0 NOCTRL"
definition m_RP04type :: CDiskType where "m_RP04type = mk_disk ''RP04'' 16 22 20 19 411 RPCTRL"
definition m_RP06type :: CDiskType where "m_RP06type = mk_disk ''RP06'' 18 22 20 19 815 RPCTRL"
definition m_RP07type :: CDiskType where "m_RP07type = mk_disk ''RP07'' 34 50 43 32 632 RMCTRL"
definition m_RM03type :: CDiskType where "m_RM03type = mk_disk ''RM03'' 20 32 30 5 823 RMCTRL"
definition m_RM05type :: CDiskType where "m_RM05type = mk_disk ''RM05'' 23 32 30 19 823 RMCTRL"
definition m_RM80type :: CDiskType where "m_RM80type = mk_disk ''RM80'' 22 31 30 14 559 RMCTRL"
definition m_TU78type :: CDriveType where "m_TU78type = mk_type ''TU78'' 0 TM78CTRL"
definition m_TU77type :: CDriveType where "m_TU77type = mk_type ''TU77'' 0 TM03CTRL"
definition m_TU45type :: CDriveType where "m_TU45type = mk_type ''TU45'' 0 TM03CTRL"

text \<open>
  \<open>m_apDriveTypes\<close> holds pointers to the base class; an entry is either a plain
  \<open>CDriveType\<close> (the null type and the tapes) or a \<open>CDiskType\<close>.
\<close>

datatype type_entry = PlainType CDriveType | DiskType CDiskType

definition m_apDriveTypes :: "type_entry list" where
  "m_apDriveTypes =
     [PlainType m_NullType,
      DiskType m_RP04type, DiskType m_RP06type, DiskType m_RP07type,
      DiskType m_RM03type, DiskType m_RM05type, DiskType m_RM80type,
      PlainType m_TU78type, PlainType m_TU77type, PlainType m_TU45type]"

definition NUMIDTS :: nat where "NUMIDTS = 10"

text \<open>
  \<open>GetDiskType\<close> asserts that the index is in range and that the entry is a disk;
  a failed assertion is \<open>None\<close>.
\<close>

definition GetDiskType :: "nat \<Rightarrow> CDiskType option" where
  "GetDiskType nIDT =
     (if nIDT < NUMIDTS then
        (case m_apDriveTypes ! nIDT of
           DiskType t \<Rightarrow> if IsDisk t then Some t else None
         | PlainType t \<Rightarrow> None)
      else None)"

definition GetHeads :: "CDiskType \<Rightarrow> u8" where
  "GetHeads t = m_nHeads t"

definition GetCylinders :: "CDiskType \<Rightarrow> u16" where
  "GetCylinders t = m_nCylinders t"

definition GetSectors :: "CDiskType \<Rightarrow> bool \<Rightarrow> u8" where
  "GetSectors t f18Bit = (if f18Bit then m_nSectors18 t else m_nSectors16 t)"

definition IsValidCylinder :: "CDiskType \<Rightarrow> u16 \<Rightarrow> bool" where
  "IsValidCylinder t nCylinder = (nCylinder < GetCylinders t)"

definition IsValidHead :: "CDiskType \<Rightarrow> u8 \<Rightarrow> bool" where
  "IsValidHead t nHead = (nHead < GetHeads t)"

definition IsValidSector :: "CDiskType \<Rightarrow> u8 \<Rightarrow> bool \<Rightarrow> bool" where
  "IsValidSector t nSector f18Bit = (nSector < GetSectors t f18Bit)"

definition IsValidCHS :: "CDiskType \<Rightarrow> u16 \<Rightarrow> u8 \<Rightarrow> u8 \<Rightarrow> bool \<Rightarrow> bool" where
  "IsValidCHS t nCylinder nHead nSector f18Bit =
     (IsValidCylinder t nCylinder \<and> IsValidHead t nHead \<and> IsValidSector t nSector f18Bit)"

definition INVALID_SECTOR :: u32 where
  "INVALID_SECTOR = 0xFFFFFFFF"

text \<open>
  \<open>CHStoLBA\<close>: the operands are \<open>uint16_t\<close> and \<open>uint8_t\<close>, so C++ promotes them to
  \<open>int\<close> and computes the expression there; the \<open>return\<close> converts the result to
  \<open>uint32_t\<close>.  With a 16 bit cylinder and 8 bit heads, sectors the value is below
  \<open>2 ^ 32\<close>; for the registered geometries it is below \<open>2 ^ 20\<close>.
\<close>

definition CHStoLBA :: "CDiskType \<Rightarrow> u16 \<Rightarrow> u8 \<Rightarrow> u8 \<Rightarrow> bool \<Rightarrow> u32" where
  "CHStoLBA t nCylinder nHead nSector f18Bit =
     (if IsValidCHS t nCylinder nHead nSector f18Bit then
        word_of_int ((uint nCylinder * uint (GetHeads t) + uint nHead)
                       * uint (GetSectors t f18Bit) + uint nSector)
      else INVALID_SECTOR)"

text \<open>
  \<open>LBAtoCHS\<close>: \<open>lLBA\<close> is a \<open>uint32_t\<close>, so the remainders and quotients are unsigned
  32 bit operations, and the assignments to the \<open>uint8_t\<close> and \<open>uint16_t\<close> references
  truncate.  The validity test is written \<open>IsValidCHS(nCylinder, nHead, nSector)\<close>:
  it leaves out the flag, whose default is \<open>false\<close>.  The result is the triple
  (cylinder, head, sector) stored through the references.
\<close>

definition LBAtoCHS :: "CDiskType \<Rightarrow> u32 \<Rightarrow> bool \<Rightarrow> u16 \<times> u8 \<times> u8" where
  "LBAtoCHS t lLBA f18Bit =
     (let nSector = (ucast (lLBA mod ucast (GetSectors t f18Bit)) :: u8);
          lLBA1 = lLBA div ucast (GetSectors t f18Bit);
          nHead = (ucast (lLBA1 mod ucast (GetHeads t)) :: u8);
          nCylinder = (ucast (lLBA1 div ucast (GetHeads t)) :: u16)
      in if \<not> IsValidCHS t nCylinder nHead nSector False
         then (LOWORD INVALID_SECTOR, LOBYTE INVALID_SECTOR, LOBYTE INVALID_SECTOR)
         else (nCylinder, nHead, nSector))"

text \<open>The number of sectors of a pack in the chosen encoding.\<close>

definition capacity :: "CDiskType \<Rightarrow> bool \<Rightarrow> nat" where
  "capacity t f18Bit = unat (GetCylinders t) * unat (GetHeads t) * unat (GetSectors t f18Bit)"


section \<open>The bit fiddler (\<open>TapeDrive.cpp\<close>)\<close>

text \<open>
  Two things can go wrong in the routines below without any return code: an \<open>assert\<close>
  fails (the Makefile builds with \<open>_DEBUG\<close> and without \<open>NDEBUG\<close>, so assertions are
  live), or an array is read outside its bounds, which C++ leaves undefined.  Both are
  values of the model.  \<open>NotReturning\<close> is what a caller gets from a loop that does not
  come back.
\<close>

datatype fault = AssertionFailed | OutOfBounds | NotReturning

text \<open>
  \<open>rd a i\<close> is the array read \<open>a[i]\<close> with a \<open>uint32_t\<close> index: the list is the whole
  array the pointer refers to, and a read past its end is \<open>None\<close>.
\<close>

definition rd :: "'a list \<Rightarrow> u32 \<Rightarrow> 'a option" where
  "rd a i = (if unat i < length a then Some (a ! unat i) else None)"

text \<open>Assembly modes of the \<open>TMTCR\<close> format field (\<open>MASSBUS.h\<close>).\<close>

definition TMAM_11_NORMAL :: u8 where "TMAM_11_NORMAL = 0"
definition TMAM_15_NORMAL :: u8 where "TMAM_15_NORMAL = 1"
definition TMAM_10_COMPATIBLE :: u8 where "TMAM_10_COMPATIBLE = 2"
definition TMAM_10_CORE_DUMP :: u8 where "TMAM_10_CORE_DUMP = 3"

text \<open>
  The body of the core dump loop up to the assembled word: five bytes at \<open>n\<close>, the last
  one masked with \<open>017\<close>, shifted into a \<open>uint64_t\<close>.
\<close>

definition core_dump_w36 :: "u8 list \<Rightarrow> u32 \<Rightarrow> u64 option" where
  "core_dump_w36 abIn n =
     (case rd abIn (n + 0) of None \<Rightarrow> None | Some a0 \<Rightarrow>
      case rd abIn (n + 1) of None \<Rightarrow> None | Some a1 \<Rightarrow>
      case rd abIn (n + 2) of None \<Rightarrow> None | Some a2 \<Rightarrow>
      case rd abIn (n + 3) of None \<Rightarrow> None | Some a3 \<Rightarrow>
      case rd abIn (n + 4) of None \<Rightarrow> None | Some a4 \<Rightarrow>
        (let b0 = (ucast a0 :: u64); b1 = (ucast a1 :: u64); b2 = (ucast a2 :: u64);
             b3 = (ucast a3 :: u64); b4 = (ucast (a4 AND 15) :: u64)
         in Some (push_bit 28 b0 OR push_bit 20 b1 OR push_bit 12 b2 OR push_bit 4 b3 OR b4)))"

text \<open>The same for the industry compatible loop: four bytes, the low four bits zero.\<close>

definition compatible_w36 :: "u8 list \<Rightarrow> u32 \<Rightarrow> u64 option" where
  "compatible_w36 abIn n =
     (case rd abIn (n + 0) of None \<Rightarrow> None | Some a0 \<Rightarrow>
      case rd abIn (n + 1) of None \<Rightarrow> None | Some a1 \<Rightarrow>
      case rd abIn (n + 2) of None \<Rightarrow> None | Some a2 \<Rightarrow>
      case rd abIn (n + 3) of None \<Rightarrow> None | Some a3 \<Rightarrow>
        (let b0 = (ucast a0 :: u64); b1 = (ucast a1 :: u64); b2 = (ucast a2 :: u64);
             b3 = (ucast a3 :: u64)
         in Some (push_bit 28 b0 OR push_bit 20 b1 OR push_bit 12 b2 OR push_bit 4 b3)))"

text \<open>
  The loops \<open>for (; cbIn > 0; cbIn -= 5)\<close> and \<open>for (; cbIn > 0; cbIn -= 4)\<close>.  The counter
  is a \<open>uint32_t\<close>: a count that is not a multiple of the step wraps around instead of
  reaching zero, so nothing bounds the number of rounds but the end of the input array.
  Not returning is \<open>None\<close>; \<open>Some (Inl OutOfBounds)\<close> is a read past the array;
  \<open>Some (Inr alOut)\<close> is the normal return, \<open>alOut\<close> being the half words stored so far
  (\<open>clOut\<close> is their number; the source does not check the size of the output array).
\<close>

partial_function (option) Fiddle8to18_core_dump ::
  "bool \<Rightarrow> u8 list \<Rightarrow> u32 \<Rightarrow> u32 \<Rightarrow> u32 list \<Rightarrow> (fault + u32 list) option" where
  "Fiddle8to18_core_dump fReverse abIn cbIn n alOut =
     (if cbIn > 0 then
        (case core_dump_w36 abIn n of
           None \<Rightarrow> Some (Inl OutOfBounds)
         | Some w36 \<Rightarrow>
             if fReverse
             then Fiddle8to18_core_dump fReverse abIn (cbIn - 5) (n - 5) (alOut @ [RH36 w36, LH36 w36])
             else Fiddle8to18_core_dump fReverse abIn (cbIn - 5) (n + 5) (alOut @ [LH36 w36, RH36 w36]))
      else Some (Inr alOut))"

declare Fiddle8to18_core_dump.simps [code]

partial_function (option) Fiddle8to18_compatible ::
  "bool \<Rightarrow> u8 list \<Rightarrow> u32 \<Rightarrow> u32 \<Rightarrow> u32 list \<Rightarrow> (fault + u32 list) option" where
  "Fiddle8to18_compatible fReverse abIn cbIn n alOut =
     (if cbIn > 0 then
        (case compatible_w36 abIn n of
           None \<Rightarrow> Some (Inl OutOfBounds)
         | Some w36 \<Rightarrow>
             if fReverse
             then Fiddle8to18_compatible fReverse abIn (cbIn - 4) (n - 4) (alOut @ [RH36 w36, LH36 w36])
             else Fiddle8to18_compatible fReverse abIn (cbIn - 4) (n + 4) (alOut @ [LH36 w36, RH36 w36]))
      else Some (Inr alOut))"

declare Fiddle8to18_compatible.simps [code]

text \<open>
  \<open>Fiddle8to18(bFormat, abIn, alOut, cbIn, fReverse)\<close>.  The start index and the rounded
  count are computed in \<open>uint32_t\<close>, as written: \<open>((cbIn+4) / 5) * 5\<close> and
  \<open>((cbIn * 5) + 4) / 5\<close> for core dump, \<open>(cbIn+3) & ~3\<close> twice for industry compatible.
  An unsupported format logs an error and returns no half words.
\<close>

definition Fiddle8to18 :: "u8 \<Rightarrow> u8 list \<Rightarrow> u32 \<Rightarrow> bool \<Rightarrow> (fault + u32 list) option" where
  "Fiddle8to18 bFormat abIn cbIn fReverse =
     (if bFormat = TMAM_10_CORE_DUMP then
        (let n = (if fReverse then ((cbIn + 4) div 5) * 5 else 0);
             cbIn1 = ((cbIn * 5) + 4) div 5
         in Fiddle8to18_core_dump fReverse abIn cbIn1 n [])
      else if bFormat = TMAM_10_COMPATIBLE then
        (let n = (if fReverse then (cbIn + 3) AND NOT 3 else 0);
             cbIn1 = (cbIn + 3) AND NOT 3
         in Fiddle8to18_compatible fReverse abIn cbIn1 n [])
      else Some (Inr []))"

text \<open>The bytes one 36 bit word becomes on the way to the tape.\<close>

definition core_dump_bytes :: "u64 \<Rightarrow> u8 list" where
  "core_dump_bytes w36 =
     [ucast (drop_bit 28 w36 AND 0xFF), ucast (drop_bit 20 w36 AND 0xFF),
      ucast (drop_bit 12 w36 AND 0xFF), ucast (drop_bit 4 w36 AND 0xFF),
      ucast (w36 AND 0x0F)]"

definition compatible_bytes :: "u64 \<Rightarrow> u8 list" where
  "compatible_bytes w36 =
     [ucast (drop_bit 28 w36 AND 0xFF), ucast (drop_bit 20 w36 AND 0xFF),
      ucast (drop_bit 12 w36 AND 0xFF), ucast (drop_bit 4 w36 AND 0xFF)]"

definition halfword_pair :: "u32 list \<Rightarrow> u32 \<Rightarrow> u64 option" where
  "halfword_pair alIn n =
     (case rd alIn (n + 0) of None \<Rightarrow> None | Some h \<Rightarrow>
      case rd alIn (n + 1) of None \<Rightarrow> None | Some l \<Rightarrow> Some (MK36 h l))"

text \<open>The loops \<open>for (; clIn > 0; clIn -= 2)\<close> of \<open>Fiddle18to8\<close>.\<close>

partial_function (option) Fiddle18to8_core_dump ::
  "u32 list \<Rightarrow> u32 \<Rightarrow> u32 \<Rightarrow> u8 list \<Rightarrow> (fault + u8 list) option" where
  "Fiddle18to8_core_dump alIn clIn n abOut =
     (if clIn > 0 then
        (case halfword_pair alIn n of
           None \<Rightarrow> Some (Inl OutOfBounds)
         | Some w36 \<Rightarrow> Fiddle18to8_core_dump alIn (clIn - 2) (n + 2) (abOut @ core_dump_bytes w36))
      else Some (Inr abOut))"

declare Fiddle18to8_core_dump.simps [code]

partial_function (option) Fiddle18to8_compatible ::
  "u32 list \<Rightarrow> u32 \<Rightarrow> u32 \<Rightarrow> u8 list \<Rightarrow> (fault + u8 list) option" where
  "Fiddle18to8_compatible alIn clIn n abOut =
     (if clIn > 0 then
        (case halfword_pair alIn n of
           None \<Rightarrow> Some (Inl OutOfBounds)
         | Some w36 \<Rightarrow> Fiddle18to8_compatible alIn (clIn - 2) (n + 2) (abOut @ compatible_bytes w36))
      else Some (Inr abOut))"

declare Fiddle18to8_compatible.simps [code]

text \<open>
  \<open>Fiddle18to8(bFormat, alIn, abOut, clIn)\<close>: it asserts that the half word count is
  even; the result is the bytes stored to \<open>abOut\<close> (\<open>cbOut\<close> is their number).
\<close>

definition Fiddle18to8 :: "u8 \<Rightarrow> u32 list \<Rightarrow> u32 \<Rightarrow> (fault + u8 list) option" where
  "Fiddle18to8 bFormat alIn clIn =
     (if clIn AND 1 \<noteq> 0 then Some (Inl AssertionFailed)
      else if bFormat = TMAM_10_CORE_DUMP then Fiddle18to8_core_dump alIn clIn 0 []
      else if bFormat = TMAM_10_COMPATIBLE then Fiddle18to8_compatible alIn clIn 0 []
      else Some (Inr []))"

text \<open>
  What the round trip and the symmetry are stated against: the 36 bit words of a byte
  buffer, group by group, and the two ways of sending a word as half words.
\<close>

fun words_compatible :: "u8 list \<Rightarrow> u64 list" where
  "words_compatible (a0 # a1 # a2 # a3 # rest) =
     (push_bit 28 (ucast a0) OR push_bit 20 (ucast a1) OR push_bit 12 (ucast a2)
        OR push_bit 4 (ucast a3)) # words_compatible rest"
| "words_compatible _ = []"

fun words_core_dump :: "u8 list \<Rightarrow> u64 list" where
  "words_core_dump (a0 # a1 # a2 # a3 # a4 # rest) =
     (push_bit 28 (ucast a0) OR push_bit 20 (ucast a1) OR push_bit 12 (ucast a2)
        OR push_bit 4 (ucast a3) OR ucast (a4 AND 15)) # words_core_dump rest"
| "words_core_dump _ = []"

definition left_right :: "u64 list \<Rightarrow> u32 list" where
  "left_right ws = concat (map (\<lambda>w. [LH36 w, RH36 w]) ws)"

definition right_left :: "u64 list \<Rightarrow> u32 list" where
  "right_left ws = concat (map (\<lambda>w. [RH36 w, LH36 w]) ws)"

text \<open>A byte buffer with the high nibble of every fifth byte cleared.\<close>

fun low_nibble_5th :: "u8 list \<Rightarrow> u8 list" where
  "low_nibble_5th (a0 # a1 # a2 # a3 # a4 # rest) =
     a0 # a1 # a2 # a3 # (a4 AND 15) # low_nibble_5th rest"
| "low_nibble_5th rest = rest"


section \<open>The bridge (\<open>DECUPE.hpp\<close>, \<open>DECUPE.cpp\<close>)\<close>

text \<open>
  Operations that can fail an assertion return \<open>fault + result\<close>; \<open>andthen\<close> runs the
  next step on the result of the last one and passes a fault on.
\<close>

definition andthen :: "fault + 'a \<Rightarrow> ('a \<Rightarrow> fault + 'b) \<Rightarrow> fault + 'b" where
  "andthen r f = (case r of Inl e \<Rightarrow> Inl e | Inr x \<Rightarrow> f x)"

text \<open>
  \<open>PLX_STATUS\<close> is the return code of the PLX SDK; the source compares it with three of
  its values, every other value is \<open>ApiOther\<close> with its number.
\<close>

datatype PLX_STATUS = ApiSuccess | ApiWaitTimeout | ApiWaitCanceled | ApiOther nat

text \<open>
  What the server does to the outside world, in program order: stores to the shared
  memory window (a register slot, the send count, the data FIFO) and calls that block.
\<close>

datatype effect =
    RegisterStore u8 u8 u32
  | SendCountStore u32
  | DataFIFOStore u32
  | SleepMs u32
  | EnableInterruptCall
  | WaitInterruptCall u32

text \<open>
  The state of one bridge.  \<open>alRegisters\<close> and \<open>lVHDL\<close> are the fields of
  \<open>SHARED_MEMORY\<close> of these names.  The command FIFO, the data FIFO and the FIFO status
  word are read-only inputs whose value changes from read to read: the model holds, for
  each, the sequence of values the reads return and the number of reads done so far.
  \<open>is_open\<close> and \<open>is_offline\<close> are \<open>CUPE::IsOpen()\<close> and \<open>CUPE::IsOffline()\<close>,
  \<open>enable_result\<close> and \<open>wait_result\<close> what the next \<open>EnableInterrupt()\<close> and
  \<open>WaitInterrupt()\<close> return; these four belong to the UPE library's base class, which is
  not part of this repository, and are inputs here.  \<open>GetWindow() != NULL\<close> is read from
  \<open>is_open\<close> as well.  Log messages are not modelled.
\<close>

record upe =
  is_open :: bool
  is_offline :: bool
  alRegisters :: "u8 \<Rightarrow> u8 \<Rightarrow> u32"
  lVHDL :: u32
  command_fifo :: "nat \<Rightarrow> u32"
  command_reads :: nat
  data_fifo :: "nat \<Rightarrow> u32"
  data_reads :: nat
  fifo_status :: "nat \<Rightarrow> u32"
  status_reads :: nat
  enable_result :: PLX_STATUS
  wait_result :: PLX_STATUS
  effects :: "effect list"

definition COMMAND_TIMEOUT :: u32 where "COMMAND_TIMEOUT = 1000"
definition DATA_TIMEOUT :: nat where "DATA_TIMEOUT = 77777"

definition VALID :: u32 where "VALID = 0x80000000"
definition END_OF_BLOCK :: u32 where "END_OF_BLOCK = 0x01000000"
definition FROMPC_ALMOST_EMPTY :: u32 where "FROMPC_ALMOST_EMPTY = 0x00000200"
definition FROMPC_ALMOST_FULL :: u32 where "FROMPC_ALMOST_FULL = 0x00000400"
definition FORCE_EXCEPTION :: u32 where "FORCE_EXCEPTION = 0x01000000"
definition TYPE_DISK :: u8 where "TYPE_DISK = 0"
definition TYPE_TAPE :: u8 where "TYPE_TAPE = 1"
definition TYPE_MEIS :: u8 where "TYPE_MEIS = 2"

definition TIMEOUT :: u32 where "TIMEOUT = 0x00000000"
definition ERROR :: u32 where "ERROR = 0x0FFFFFFF"

definition IsCommandValid :: "u32 \<Rightarrow> bool" where
  "IsCommandValid l = ISSET l VALID"

definition IsDataValid :: "u32 \<Rightarrow> bool" where
  "IsDataValid l = ISSET l VALID"

definition IsEndofBlock :: "u32 \<Rightarrow> bool" where
  "IsEndofBlock l = ISSET l END_OF_BLOCK"

text \<open>\<open>ExtractCommand\<close> masks with octal \<open>0777777\<close>, \<open>ExtractRegister\<close> with octal \<open>037\<close>.\<close>

definition ExtractCommand :: "u32 \<Rightarrow> u32" where
  "ExtractCommand cmd = cmd AND 0x3FFFF"

definition ExtractUnit :: "u32 \<Rightarrow> u32" where
  "ExtractUnit cmd = drop_bit 16 cmd AND 7"

definition ExtractRegister :: "u32 \<Rightarrow> u32" where
  "ExtractRegister cmd = drop_bit 19 cmd AND 31"

definition GetVHDLtype :: "upe \<Rightarrow> u8" where
  "GetVHDLtype b = (if is_open b then ucast (HIWORD (lVHDL b) AND 7) else 0)"

definition upe_IsDisk :: "upe \<Rightarrow> bool" where
  "upe_IsDisk b = (GetVHDLtype b = TYPE_DISK)"

definition upe_IsTape :: "upe \<Rightarrow> bool" where
  "upe_IsTape b = (GetVHDLtype b = TYPE_TAPE)"

text \<open>
  The register methods assert \<open>(GetWindow() != NULL) && (nUnit < 8) && (nRegister < 32)\<close>.
\<close>

definition mbr_assert :: "u8 \<Rightarrow> u8 \<Rightarrow> upe \<Rightarrow> bool" where
  "mbr_assert nUnit nRegister b = (is_open b \<and> nUnit < 8 \<and> nRegister < 32)"

definition ReadMBR :: "u8 \<Rightarrow> u8 \<Rightarrow> upe \<Rightarrow> fault + u16" where
  "ReadMBR nUnit nRegister b =
     (if mbr_assert nUnit nRegister b then Inr (LOWORD (alRegisters b nUnit nRegister))
      else Inl AssertionFailed)"

text \<open>A store to a register slot: the new value, and the store in the list of effects.\<close>

definition store_register :: "u8 \<Rightarrow> u8 \<Rightarrow> u32 \<Rightarrow> upe \<Rightarrow> upe" where
  "store_register nUnit nRegister v b =
     b\<lparr>alRegisters := (alRegisters b)(nUnit := (alRegisters b nUnit)(nRegister := v)),
       effects := effects b @ [RegisterStore nUnit nRegister v]\<rparr>"

text \<open>
  \<open>WriteMBR\<close> stores the 16 bit value zero extended.  The read back of the debug build
  only logs.
\<close>

definition WriteMBR :: "u8 \<Rightarrow> u8 \<Rightarrow> u16 \<Rightarrow> upe \<Rightarrow> fault + upe" where
  "WriteMBR nUnit nRegister wValue b =
     (if mbr_assert nUnit nRegister b then Inr (store_register nUnit nRegister (ucast wValue) b)
      else Inl AssertionFailed)"

text \<open>
  \<open>ClearBitMBR\<close>: \<open>alRegisters[nUnit][nRegister] &= MKLONG(0, ~wMask)\<close>, and the low word
  of the slot is returned.  \<open>SetBitMBR\<close> is the same with \<open>|= MKLONG(0, wMask)\<close>.
\<close>

definition ClearBitMBR :: "u8 \<Rightarrow> u8 \<Rightarrow> u16 \<Rightarrow> upe \<Rightarrow> fault + (u16 \<times> upe)" where
  "ClearBitMBR nUnit nRegister wMask b =
     (if mbr_assert nUnit nRegister b then
        (let v = alRegisters b nUnit nRegister AND MKLONG 0 (NOT wMask)
         in Inr (LOWORD v, store_register nUnit nRegister v b))
      else Inl AssertionFailed)"


text \<open>One read of \<open>lCommandFIFO\<close>: the next value of the sequence.\<close>

definition read_command_fifo :: "upe \<Rightarrow> u32 \<times> upe" where
  "read_command_fifo b = (command_fifo b (command_reads b), b\<lparr>command_reads := Suc (command_reads b)\<rparr>)"

definition read_data_fifo :: "upe \<Rightarrow> u32 \<times> upe" where
  "read_data_fifo b = (data_fifo b (data_reads b), b\<lparr>data_reads := Suc (data_reads b)\<rparr>)"

definition read_fifo_status :: "upe \<Rightarrow> u32 \<times> upe" where
  "read_fifo_status b = (fifo_status b (status_reads b), b\<lparr>status_reads := Suc (status_reads b)\<rparr>)"

definition effect :: "effect \<Rightarrow> upe \<Rightarrow> upe" where
  "effect e b = b\<lparr>effects := effects b @ [e]\<rparr>"

text \<open>
  \<open>WaitCommand(lTimeout)\<close>.  The result is the returned long word and the bridge
  afterwards.
\<close>

definition WaitCommand :: "u32 \<Rightarrow> upe \<Rightarrow> fault + (u32 \<times> upe)" where
  "WaitCommand lTimeout b =
     (if \<not> is_open b then Inl AssertionFailed
      else if is_offline b then Inr (TIMEOUT, effect (SleepMs lTimeout) b)
      else
        (let (cmd, b1) = read_command_fifo b in
         if IsCommandValid cmd then Inr (cmd, b1)
         else
           (let b2 = effect EnableInterruptCall b1 in
            if enable_result b2 \<noteq> ApiSuccess then Inr (ERROR, b2)
            else
              (let ret = wait_result b2; b3 = effect (WaitInterruptCall lTimeout) b2 in
               if ret = ApiWaitTimeout \<or> ret = ApiWaitCanceled then Inr (TIMEOUT, b3)
               else if ret \<noteq> ApiSuccess then Inr (ERROR, b3)
               else
                 (let (cmd2, b4) = read_command_fifo b3 in
                  if \<not> IsCommandValid cmd2 then Inr (TIMEOUT, b4)
                  else Inr (cmd2, b4))))))"

text \<open>
  \<open>ReadData(plData, clData)\<close>.  The inner loop polls the data FIFO until a word with
  the validity bit arrives or \<open>tmo\<close> reaches \<open>DATA_TIMEOUT\<close>; the outer loop stores
  \<open>clData\<close> words.  The counters are \<open>uint32_t\<close>; \<open>tmo\<close> stays below 77778 and \<open>i\<close> below
  \<open>clData\<close>, so neither wraps and both are natural numbers here.  The result is the
  returned flag, the words stored to \<open>plData\<close> and the bridge afterwards.
\<close>

function poll_data :: "nat \<Rightarrow> upe \<Rightarrow> u32 option \<times> upe" where
  "poll_data tmo b =
     (let (data, b1) = read_data_fifo b in
      if IsDataValid data then (Some data, b1)
      else if tmo \<ge> DATA_TIMEOUT then (None, b1)
      else poll_data (Suc tmo) b1)"
  by pat_completeness auto
termination
  by (relation "measure (\<lambda>(tmo, b). Suc DATA_TIMEOUT - tmo)") auto

function ReadData_loop :: "u32 \<Rightarrow> nat \<Rightarrow> u32 list \<Rightarrow> upe \<Rightarrow> bool \<times> u32 list \<times> upe" where
  "ReadData_loop clData i plData b =
     (if i < unat clData then
        (case poll_data 0 b of
           (None, b1) \<Rightarrow> (False, plData, b1)
         | (Some data, b1) \<Rightarrow> ReadData_loop clData (Suc i) (plData @ [MASK18 data]) b1)
      else (True, plData, b))"
  by pat_completeness auto
termination
  by (relation "measure (\<lambda>(clData, i, plData, b). unat clData - i)") auto

definition ReadData :: "u32 \<Rightarrow> upe \<Rightarrow> fault + (bool \<times> u32 list \<times> upe)" where
  "ReadData clData b =
     (if is_offline b then Inr (False, [], b)
      else if \<not> (is_open b \<and> clData > 0) then Inl AssertionFailed
      else
        (let b1 = (if upe_IsTape b then effect (SendCountStore clData) b else b)
         in Inr (ReadData_loop clData 0 [] b1)))"

text \<open>
  \<open>WriteData(plData, clData, fException)\<close>.  For a tape bridge the send count is stored
  first, with \<open>FORCE_EXCEPTION\<close> when asked, and every word waits while the FIFO is
  almost full.  \<open>plData\<close> is the array the pointer refers to; the result is the returned
  flag and the bridge afterwards.
\<close>

function poll_almost_empty :: "nat \<Rightarrow> upe \<Rightarrow> bool \<times> upe" where
  "poll_almost_empty tmo b =
     (let (status, b1) = read_fifo_status b in
      if ISSET status FROMPC_ALMOST_EMPTY then (True, b1)
      else if tmo \<ge> DATA_TIMEOUT then (False, b1)
      else poll_almost_empty (Suc tmo) b1)"
  by pat_completeness auto
termination
  by (relation "measure (\<lambda>(tmo, b). Suc DATA_TIMEOUT - tmo)") auto

function WriteData_tape_loop :: "u32 list \<Rightarrow> u32 \<Rightarrow> nat \<Rightarrow> upe \<Rightarrow> fault + (bool \<times> upe)" where
  "WriteData_tape_loop plData clData i b =
     (if i < unat clData then
        (let (status, b1) = read_fifo_status b;
             (ok, b2) = (if ISSET status FROMPC_ALMOST_FULL then poll_almost_empty 0 b1
                         else (True, b1))
         in if \<not> ok then Inr (False, b2)
            else if i < length plData
            then WriteData_tape_loop plData clData (Suc i) (effect (DataFIFOStore (MASK18 (plData ! i))) b2)
            else Inl OutOfBounds)
      else Inr (True, b))"
  by pat_completeness auto
termination
  by (relation "measure (\<lambda>(plData, clData, i, b). unat clData - i)") auto

function WriteData_disk_loop :: "u32 list \<Rightarrow> u32 \<Rightarrow> nat \<Rightarrow> upe \<Rightarrow> fault + (bool \<times> upe)" where
  "WriteData_disk_loop plData clData i b =
     (if i < unat clData then
        (if i < length plData
         then WriteData_disk_loop plData clData (Suc i) (effect (DataFIFOStore (MASK18 (plData ! i))) b)
         else Inl OutOfBounds)
      else Inr (True, b))"
  by pat_completeness auto
termination
  by (relation "measure (\<lambda>(plData, clData, i, b). unat clData - i)") auto

definition WriteData :: "u32 list \<Rightarrow> u32 \<Rightarrow> bool \<Rightarrow> upe \<Rightarrow> fault + (bool \<times> upe)" where
  "WriteData plData clData fException b =
     (if \<not> (is_open b \<and> clData > 0) then Inl AssertionFailed
      else if upe_IsTape b then
        WriteData_tape_loop plData clData 0
          (effect (SendCountStore (clData OR (if fException then FORCE_EXCEPTION else 0))) b)
      else WriteData_disk_loop plData clData 0 b)"

text \<open>\<open>EmptyTransfer(fException)\<close>: the send count, then one zero word.\<close>

definition EmptyTransfer :: "bool \<Rightarrow> upe \<Rightarrow> fault + upe" where
  "EmptyTransfer fException b =
     (if \<not> is_open b then Inl AssertionFailed
      else Inr (effect (DataFIFOStore 0)
                 (effect (SendCountStore (if fException then FORCE_EXCEPTION else 0)) b)))"


section \<open>MASSBUS registers and codes (\<open>MASSBUS.h\<close>)\<close>

text \<open>
  The header writes these constants in octal; they are decimal or hexadecimal here, with
  the octal spelling of the header in the comment.
\<close>

definition RPCR :: u8 where "RPCR = 0"     \<comment> \<open>000\<close>
definition RPDS :: u8 where "RPDS = 1"     \<comment> \<open>001\<close>
definition RPDA :: u8 where "RPDA = 5"     \<comment> \<open>005\<close>
definition RPDT :: u8 where "RPDT = 6"     \<comment> \<open>006\<close>
definition RPSN :: u8 where "RPSN = 8"     \<comment> \<open>010\<close>
definition RPOF :: u8 where "RPOF = 9"     \<comment> \<open>011\<close>
definition RPDC :: u8 where "RPDC = 10"    \<comment> \<open>012\<close>

definition RPDS_MOL :: u16 where "RPDS_MOL = 0x1000"   \<comment> \<open>0010000\<close>
definition RPDS_DRY :: u16 where "RPDS_DRY = 0x0080"   \<comment> \<open>0000200\<close>
definition RPDS_VV :: u16 where "RPDS_VV = 0x0040"     \<comment> \<open>0000100\<close>

definition TMDCR :: u8 where "TMDCR = 0"    \<comment> \<open>000\<close>
definition TMDIR :: u8 where "TMDIR = 1"    \<comment> \<open>001\<close>
definition TMTCR :: u8 where "TMTCR = 2"    \<comment> \<open>002\<close>
definition TMBCR :: u8 where "TMBCR = 5"    \<comment> \<open>005\<close>
definition TMDT :: u8 where "TMDT = 6"      \<comment> \<open>006\<close>
definition TMUS :: u8 where "TMUS = 7"      \<comment> \<open>007\<close>
definition TMSN :: u8 where "TMSN = 8"      \<comment> \<open>010\<close>
definition TMMIR :: u8 where "TMMIR = 11"   \<comment> \<open>013\<close>
definition TMMCR0 :: u8 where "TMMCR0 = 12" \<comment> \<open>014\<close>
definition TMHCR :: u8 where "TMHCR = 17"   \<comment> \<open>021\<close>

definition TMCMD_M_MASK :: u16 where "TMCMD_M_MASK = 63"          \<comment> \<open>077\<close>
definition TMCMD_UNLOAD :: u8 where "TMCMD_UNLOAD = 5"             \<comment> \<open>005\<close>
definition TMCMD_REWIND :: u8 where "TMCMD_REWIND = 7"             \<comment> \<open>007\<close>
definition TMCMD_SENSE :: u8 where "TMCMD_SENSE = 9"               \<comment> \<open>011\<close>
definition TMCMD_DSE :: u8 where "TMCMD_DSE = 11"                  \<comment> \<open>013\<close>
definition TMCMD_WTM_PE :: u8 where "TMCMD_WTM_PE = 13"            \<comment> \<open>015\<close>
definition TMCMD_WTM_GCR :: u8 where "TMCMD_WTM_GCR = 15"          \<comment> \<open>017\<close>
definition TMCMD_SP_FWD_REC :: u8 where "TMCMD_SP_FWD_REC = 17"    \<comment> \<open>021\<close>
definition TMCMD_SP_REV_REC :: u8 where "TMCMD_SP_REV_REC = 19"    \<comment> \<open>023\<close>
definition TMCMD_SP_FWD_FILE :: u8 where "TMCMD_SP_FWD_FILE = 21"  \<comment> \<open>025\<close>
definition TMCMD_SP_REV_FILE :: u8 where "TMCMD_SP_REV_FILE = 23"  \<comment> \<open>027\<close>
definition TMCMD_ERG_PE :: u8 where "TMCMD_ERG_PE = 29"            \<comment> \<open>035\<close>
definition TMCMD_ERG_GCR :: u8 where "TMCMD_ERG_GCR = 31"          \<comment> \<open>037\<close>
definition TMCMD_WRT_PE :: u8 where "TMCMD_WRT_PE = 49"            \<comment> \<open>061\<close>
definition TMCMD_WRT_GCR :: u8 where "TMCMD_WRT_GCR = 51"          \<comment> \<open>063\<close>
definition TMCMD_RD_FWD :: u8 where "TMCMD_RD_FWD = 57"            \<comment> \<open>071\<close>
definition TMCMD_RD_EXSNS :: u8 where "TMCMD_RD_EXSNS = 59"        \<comment> \<open>073\<close>
definition TMCMD_RD_REV :: u8 where "TMCMD_RD_REV = 63"            \<comment> \<open>077\<close>

definition TMDIR_M_FC :: u32 where "TMDIR_M_FC = 0xFC00"      \<comment> \<open>0176000\<close>
definition TMDIR_V_FC :: nat where "TMDIR_V_FC = 10"
definition TMDIR_DPR :: u16 where "TMDIR_DPR = 0x0100"        \<comment> \<open>0000400\<close>
definition TMDIR_M_IC :: u32 where "TMDIR_M_IC = 0x003F"      \<comment> \<open>0000077\<close>
definition TMDIR_V_IC :: nat where "TMDIR_V_IC = 0"
definition TMMIR_M_FC :: u32 where "TMMIR_M_FC = 0xFC00"      \<comment> \<open>0176000\<close>
definition TMMIR_V_FC :: nat where "TMMIR_V_FC = 10"
definition TMMIR_M_UNIT :: u32 where "TMMIR_M_UNIT = 0x0300"  \<comment> \<open>0001400\<close>
definition TMMIR_V_UNIT :: nat where "TMMIR_V_UNIT = 8"
definition TMMIR_M_IC :: u32 where "TMMIR_M_IC = 0x003F"      \<comment> \<open>0000077\<close>
definition TMMIR_V_IC :: nat where "TMMIR_V_IC = 0"

text \<open>
  \<open>MK_TMDIR(ic,fc)\<close> and \<open>MK_TMMIR(ic,u,fc)\<close>: the arguments are \<open>uint16_t\<close> and
  \<open>uint8_t\<close>, the shifts and masks are done in \<open>int\<close> (32 bits here, the values stay
  below \<open>2 ^ 26\<close>) and the result is cast to \<open>uint16_t\<close>.
\<close>

definition MK_TMDIR :: "u16 \<Rightarrow> u16 \<Rightarrow> u16" where
  "MK_TMDIR ic fc =
     ucast ((push_bit TMDIR_V_FC (ucast fc :: u32) AND TMDIR_M_FC)
            OR (push_bit TMDIR_V_IC (ucast ic :: u32) AND TMDIR_M_IC))"

definition MK_TMMIR :: "u16 \<Rightarrow> u8 \<Rightarrow> u16 \<Rightarrow> u16" where
  "MK_TMMIR ic u fc =
     ucast ((push_bit TMMIR_V_FC (ucast fc :: u32) AND TMMIR_M_FC)
            OR (push_bit TMMIR_V_IC (ucast ic :: u32) AND TMMIR_M_IC)
            OR (push_bit TMMIR_V_UNIT (ucast u :: u32) AND TMMIR_M_UNIT))"

definition TMIC_DONE :: u16 where "TMIC_DONE = 1"                  \<comment> \<open>001\<close>
definition TMIC_TAPE_MARK :: u16 where "TMIC_TAPE_MARK = 2"        \<comment> \<open>002\<close>
definition TMIC_BOT :: u16 where "TMIC_BOT = 3"                    \<comment> \<open>003\<close>
definition TMIC_EOT :: u16 where "TMIC_EOT = 4"                    \<comment> \<open>004\<close>
definition TMIC_FILE_PROTECT :: u16 where "TMIC_FILE_PROTECT = 8"  \<comment> \<open>010\<close>
definition TMIC_NOT_AVAIL :: u16 where "TMIC_NOT_AVAIL = 10"       \<comment> \<open>012\<close>
definition TMIC_OFFLINE :: u16 where "TMIC_OFFLINE = 11"           \<comment> \<open>013\<close>
definition TMIC_ONLINE :: u16 where "TMIC_ONLINE = 15"             \<comment> \<open>017\<close>
definition TMIC_LONG_RECORD :: u16 where "TMIC_LONG_RECORD = 16"   \<comment> \<open>020\<close>
definition TMIC_SHORT_RECORD :: u16 where "TMIC_SHORT_RECORD = 17" \<comment> \<open>021\<close>
definition TMIC_UNREADABLE :: u16 where "TMIC_UNREADABLE = 20"     \<comment> \<open>024\<close>
definition TMIC_BAD_TAPE :: u16 where "TMIC_BAD_TAPE = 23"         \<comment> \<open>027\<close>
definition TMIC_TM_FAULT_A :: u16 where "TMIC_TM_FAULT_A = 24"     \<comment> \<open>030\<close>
definition TMFC_NONE :: u16 where "TMFC_NONE = 0"

definition TMDT_TM78 :: u16 where "TMDT_TM78 = 0xC400"   \<comment> \<open>0142000\<close>
definition TMDT_TU78 :: u16 where "TMDT_TU78 = 0x0041"   \<comment> \<open>0101\<close>

definition TMUS_RDY :: u16 where "TMUS_RDY = 0x8000"     \<comment> \<open>0100000\<close>
definition TMUS_PRES :: u16 where "TMUS_PRES = 0x4000"   \<comment> \<open>0040000\<close>
definition TMUS_ONL :: u16 where "TMUS_ONL = 0x2000"     \<comment> \<open>0020000\<close>
definition TMUS_PE :: u16 where "TMUS_PE = 0x0800"       \<comment> \<open>0004000\<close>
definition TMUS_BOT :: u16 where "TMUS_BOT = 0x0400"     \<comment> \<open>0002000\<close>
definition TMUS_EOT :: u16 where "TMUS_EOT = 0x0200"     \<comment> \<open>0001000\<close>
definition TMUS_FPT :: u16 where "TMUS_FPT = 0x0100"     \<comment> \<open>0000400\<close>
definition TMUS_AVAIL :: u16 where "TMUS_AVAIL = 0x0080" \<comment> \<open>0000200\<close>

definition TMTCR_M_FORMAT :: u16 where "TMTCR_M_FORMAT = 0x7000"          \<comment> \<open>0070000\<close>
definition TMTCR_V_FORMAT :: nat where "TMTCR_V_FORMAT = 12"
definition TMTCR_M_SKIP_COUNT :: u16 where "TMTCR_M_SKIP_COUNT = 0x0F00"  \<comment> \<open>0007400\<close>
definition TMTCR_V_SKIP_COUNT :: nat where "TMTCR_V_SKIP_COUNT = 8"
definition TMTCR_M_REC_COUNT :: u16 where "TMTCR_M_REC_COUNT = 0x00FC"    \<comment> \<open>0000374\<close>
definition TMTCR_V_REC_COUNT :: nat where "TMTCR_V_REC_COUNT = 2"
definition TMTCR_M_CMD_ADDR :: u16 where "TMTCR_M_CMD_ADDR = 0x0003"      \<comment> \<open>0000003\<close>
definition TMTCR_V_CMD_ADDR :: nat where "TMTCR_V_CMD_ADDR = 0"

definition TMHCR_CLEAR :: u16 where "TMHCR_CLEAR = 0x4000"   \<comment> \<open>040000\<close>
definition TMES_LENGTH :: nat where "TMES_LENGTH = 30"


section \<open>The base drive (\<open>BaseDrive.hpp\<close>, \<open>BaseDrive.cpp\<close>)\<close>

text \<open>
  The image file classes (\<open>CImageFile\<close>, \<open>CTapeImageFile\<close>, \<open>CDiskImageFile\<close>) belong to
  the UPE library and are not part of this repository.  An image is a value of an
  arbitrary type \<open>'img\<close>, and the methods the drives call are taken as parameters: a
  record of functions from the image to the result and the image afterwards.
\<close>

record 'img image_ops =
  img_IsOpen :: "'img \<Rightarrow> bool"
  img_IsReadOnly :: "'img \<Rightarrow> bool"
  img_Open :: "string \<Rightarrow> bool \<Rightarrow> int \<Rightarrow> 'img \<Rightarrow> bool \<times> 'img"
  img_Close :: "'img \<Rightarrow> 'img"

text \<open>
  The members of \<open>CBaseDrive\<close>, with the bridge and the image held by value: the model
  follows one drive.  (\<open>m_MBA\<close> is not used by the functions below; \<open>m_pType\<close> is a
  member of the disk drive here, which is where its geometry is used.)
\<close>

record 'img CBaseDrive =
  m_nUnit :: u8
  m_strAlias :: string
  m_nSerial :: u16
  m_fOnline :: bool
  m_fReadOnly :: bool
  m_UPE :: upe
  m_pImage :: 'img

definition IsAttached :: "('img, 'o) image_ops_scheme \<Rightarrow> ('img, 'a) CBaseDrive_scheme \<Rightarrow> bool" where
  "IsAttached ops d = img_IsOpen ops (m_pImage d)"

definition IsOnline :: "('img, 'o) image_ops_scheme \<Rightarrow> ('img, 'a) CBaseDrive_scheme \<Rightarrow> bool" where
  "IsOnline ops d = (IsAttached ops d \<and> m_fOnline d)"

definition IsReadOnly :: "('img, 'a) CBaseDrive_scheme \<Rightarrow> bool" where
  "IsReadOnly d = m_fReadOnly d"

definition CBaseDrive_GoOnline :: "('img, 'a) CBaseDrive_scheme \<Rightarrow> ('img, 'a) CBaseDrive_scheme" where
  "CBaseDrive_GoOnline d = d\<lparr>m_fOnline := True\<rparr>"

definition CBaseDrive_GoOffline :: "('img, 'a) CBaseDrive_scheme \<Rightarrow> ('img, 'a) CBaseDrive_scheme" where
  "CBaseDrive_GoOffline d = d\<lparr>m_fOnline := False\<rparr>"


text \<open>
  \<open>CBaseDrive::Detach\<close> and \<open>CBaseDrive::Attach\<close> call the virtual \<open>GoOffline\<close>, \<open>Detach\<close>
  and \<open>Clear\<close>; the overriding functions are parameters.  \<open>Attach\<close> returns its flag and
  the drive.
\<close>

definition CBaseDrive_Detach ::
  "('img, 'o) image_ops_scheme
   \<Rightarrow> (('img, 'a) CBaseDrive_scheme \<Rightarrow> fault + ('img, 'a) CBaseDrive_scheme)
   \<Rightarrow> ('img, 'a) CBaseDrive_scheme \<Rightarrow> fault + ('img, 'a) CBaseDrive_scheme" where
  "CBaseDrive_Detach ops GoOffline d =
     (if IsAttached ops d then
        andthen (if IsOnline ops d then GoOffline d else Inr d)
          (\<lambda>d. Inr (d\<lparr>m_pImage := img_Close ops (m_pImage d)\<rparr>))
      else Inr d)"


text \<open>Running a bridge method on the drive's bridge; \<open>upe_drop\<close> ignores the returned word.\<close>

definition upe_do ::
  "(upe \<Rightarrow> fault + upe) \<Rightarrow> ('img, 'a) CBaseDrive_scheme \<Rightarrow> fault + ('img, 'a) CBaseDrive_scheme" where
  "upe_do f d = andthen (f (m_UPE d)) (\<lambda>b. Inr (d\<lparr>m_UPE := b\<rparr>))"

definition upe_drop ::
  "(upe \<Rightarrow> fault + ('v \<times> upe)) \<Rightarrow> ('img, 'a) CBaseDrive_scheme
   \<Rightarrow> fault + ('img, 'a) CBaseDrive_scheme" where
  "upe_drop f d = andthen (f (m_UPE d)) (\<lambda>(v, b). Inr (d\<lparr>m_UPE := b\<rparr>))"

text \<open>\<open>ToBCD\<close>: four decimal digits, one per nibble.\<close>

definition ToBCD :: "u16 \<Rightarrow> u16" where
  "ToBCD n =
     (let d3 = (of_nat ((unat n div 1000) mod 10) :: u16);
          d2 = (of_nat ((unat n div 100) mod 10) :: u16);
          d1 = (of_nat ((unat n div 10) mod 10) :: u16);
          d0 = (of_nat (unat n mod 10) :: u16)
      in push_bit 4 (push_bit 4 (push_bit 4 d3 OR d2) OR d1) OR d0)"


section \<open>The tape drive (\<open>TapeDrive.hpp\<close>, \<open>TapeDrive.cpp\<close>)\<close>

text \<open>
  The methods of \<open>CTapeImageFile\<close> the tape drive calls, and the constants it compares
  their results with.  The space and read methods return an \<open>int32_t\<close>: a positive record
  length, or one of \<open>TAPEMARK\<close>, \<open>EOTBOT\<close>, \<open>BADTAPE\<close> or another error code.
  \<open>ReadForwardRecord\<close> gets the byte buffer and its capacity and leaves the buffer
  changed; \<open>WriteRecord\<close> gets the buffer and the byte count.
\<close>

record 'img tape_ops = "'img image_ops" +
  TAPEMARK :: int
  EOTBOT :: int
  BADTAPE :: int
  MAXRECLEN :: nat
  img_IsBOT :: "'img \<Rightarrow> bool"
  img_IsEOT :: "'img \<Rightarrow> bool"
  img_Rewind :: "'img \<Rightarrow> 'img"
  img_SpaceForwardRecord :: "'img \<Rightarrow> int \<times> 'img"
  img_SpaceReverseRecord :: "'img \<Rightarrow> int \<times> 'img"
  img_SpaceForwardFile :: "'img \<Rightarrow> int \<times> 'img"
  img_SpaceReverseFile :: "'img \<Rightarrow> int \<times> 'img"
  img_ReadForwardRecord :: "u8 list \<Rightarrow> nat \<Rightarrow> 'img \<Rightarrow> int \<times> u8 list \<times> 'img"
  img_WriteRecord :: "u8 list \<Rightarrow> u32 \<Rightarrow> 'img \<Rightarrow> 'img"
  img_WriteMark :: "'img \<Rightarrow> bool \<times> 'img"
  img_Truncate :: "'img \<Rightarrow> 'img"

text \<open>
  \<open>m_abBuffer\<close> is the byte buffer of \<open>MAXRECLEN + MAXSKIP\<close> bytes.  The half word buffer
  \<open>m_alBuffer\<close> is filled and consumed within one call each time it is used, so the
  half words are passed as values.
\<close>

record 'img CTapeDrive = "'img CBaseDrive" +
  m_abBuffer :: "u8 list"

definition MAXSKIP :: nat where "MAXSKIP = 10"

definition seq :: "('s \<Rightarrow> fault + 's) \<Rightarrow> ('s \<Rightarrow> fault + 's) \<Rightarrow> 's \<Rightarrow> fault + 's" where
  "seq f g s = andthen (f s) g"

definition ClearMotionGO :: "u8 \<Rightarrow> ('img, 'a) CBaseDrive_scheme \<Rightarrow> fault + ('img, 'a) CBaseDrive_scheme" where
  "ClearMotionGO nSlave d =
     (if nSlave \<le> 3 then upe_drop (ClearBitMBR (m_nUnit d) (TMMCR0 + nSlave) 1) d
      else Inl AssertionFailed)"

definition SetMotionInt ::
  "u16 \<Rightarrow> u8 \<Rightarrow> u16 \<Rightarrow> ('img, 'a) CBaseDrive_scheme \<Rightarrow> fault + ('img, 'a) CBaseDrive_scheme" where
  "SetMotionInt nCode nSlave nFailure d =
     upe_do (WriteMBR (m_nUnit d) TMMIR (MK_TMMIR nCode nSlave nFailure)) d"

definition SetDataInt ::
  "u16 \<Rightarrow> u8 \<Rightarrow> u16 \<Rightarrow> ('img, 'a) CBaseDrive_scheme \<Rightarrow> fault + ('img, 'a) CBaseDrive_scheme" where
  "SetDataInt nCode nSlave nFailure d =
     upe_do (WriteMBR (m_nUnit d) TMDIR
               (MK_TMDIR nCode nFailure OR (if nSlave = 0 then TMDIR_DPR else 0))) d"

definition SetMotionCount ::
  "u8 \<Rightarrow> u8 \<Rightarrow> ('img, 'a) CBaseDrive_scheme \<Rightarrow> fault + ('img, 'a) CBaseDrive_scheme" where
  "SetMotionCount nCount nSlave d =
     andthen (ReadMBR (m_nUnit d) (TMMCR0 + nSlave) (m_UPE d))
       (\<lambda>r. upe_do (WriteMBR (m_nUnit d) (TMMCR0 + nSlave) (MKWORD nCount (LOBYTE r))) d)"

definition SetStatus ::
  "('img, 'o) tape_ops_scheme \<Rightarrow> u8 \<Rightarrow> ('img, 'a) CBaseDrive_scheme
   \<Rightarrow> fault + ('img, 'a) CBaseDrive_scheme" where
  "SetStatus ops nSlave d =
     (if \<not> nSlave \<le> 3 then Inl AssertionFailed
      else
        andthen (upe_do (WriteMBR (m_nUnit d) TMDT (TMDT_TM78 OR TMDT_TU78)) d)
          (\<lambda>d. if nSlave = 0 then
                  (let usr = TMUS_AVAIL OR TMUS_PRES OR TMUS_PE;
                       usr = (if IsOnline ops d then
                                (let usr = usr OR TMUS_ONL OR TMUS_RDY;
                                     usr = (if img_IsBOT ops (m_pImage d) then usr OR TMUS_BOT else usr);
                                     usr = (if img_IsEOT ops (m_pImage d) then usr OR TMUS_EOT else usr);
                                     usr = (if img_IsReadOnly ops (m_pImage d) then usr OR TMUS_FPT else usr)
                                 in usr)
                              else usr)
                   in seq (upe_do (WriteMBR (m_nUnit d) TMUS usr))
                          (upe_do (WriteMBR (m_nUnit d) TMSN (ToBCD (m_nSerial d)))) d)
                else
                  seq (upe_do (WriteMBR (m_nUnit d) TMUS 0))
                      (upe_do (WriteMBR (m_nUnit d) TMSN 0)) d))"


definition CTapeDrive_GoOnline ::
  "('img, 'o) image_ops_scheme \<Rightarrow> ('img, 'a) CBaseDrive_scheme \<Rightarrow> fault + ('img, 'a) CBaseDrive_scheme" where
  "CTapeDrive_GoOnline ops d =
     (if \<not> IsAttached ops d then Inl AssertionFailed
      else if IsOnline ops d then Inr d
      else SetMotionInt TMIC_ONLINE 0 TMFC_NONE (CBaseDrive_GoOnline d))"

definition CTapeDrive_GoOffline ::
  "('img, 'o) image_ops_scheme \<Rightarrow> ('img, 'a) CBaseDrive_scheme \<Rightarrow> fault + ('img, 'a) CBaseDrive_scheme" where
  "CTapeDrive_GoOffline ops d =
     (if \<not> IsAttached ops d then Inl AssertionFailed
      else if \<not> IsOnline ops d then Inr d
      else Inr (CBaseDrive_GoOffline d))"

text \<open>\<open>CTapeDrive\<close> overrides neither \<open>Attach\<close>, \<open>Detach\<close> nor \<open>SetReadOnly\<close>.\<close>

definition CTapeDrive_Detach ::
  "('img, 'o) image_ops_scheme \<Rightarrow> ('img, 'a) CBaseDrive_scheme \<Rightarrow> fault + ('img, 'a) CBaseDrive_scheme" where
  "CTapeDrive_Detach ops d = CBaseDrive_Detach ops (CTapeDrive_GoOffline ops) d"



text \<open>
  \<open>CheckOnline(fMotion)\<close> and \<open>CheckWritable(fMotion)\<close> return their flag and the drive.
\<close>

definition CheckOnline ::
  "('img, 'o) image_ops_scheme \<Rightarrow> bool \<Rightarrow> ('img, 'a) CBaseDrive_scheme
   \<Rightarrow> fault + (bool \<times> ('img, 'a) CBaseDrive_scheme)" where
  "CheckOnline ops fMotion d =
     (if IsOnline ops d then Inr (True, d)
      else
        andthen (if fMotion then seq (ClearMotionGO 0) (SetMotionInt TMIC_OFFLINE 0 TMFC_NONE) d
                 else seq (SetDataInt TMIC_OFFLINE 0 TMFC_NONE) (upe_do (EmptyTransfer True)) d)
          (\<lambda>d. Inr (False, d)))"

definition CheckWritable ::
  "('img, 'o) image_ops_scheme \<Rightarrow> bool \<Rightarrow> ('img, 'a) CBaseDrive_scheme
   \<Rightarrow> fault + (bool \<times> ('img, 'a) CBaseDrive_scheme)" where
  "CheckWritable ops fMotion d =
     andthen (CheckOnline ops fMotion d)
       (\<lambda>(ok, d).
          if \<not> ok then Inr (False, d)
          else if \<not> IsReadOnly d then Inr (True, d)
          else
            andthen (if fMotion then seq (ClearMotionGO 0) (SetMotionInt TMIC_FILE_PROTECT 0 TMFC_NONE) d
                     else seq (SetDataInt TMIC_FILE_PROTECT 0 TMFC_NONE) (upe_do (EmptyTransfer True)) d)
              (\<lambda>d. Inr (False, d)))"

definition DoReadSense ::
  "('img, 'o) tape_ops_scheme \<Rightarrow> u8 \<Rightarrow> ('img, 'a) CBaseDrive_scheme
   \<Rightarrow> fault + ('img, 'a) CBaseDrive_scheme" where
  "DoReadSense ops nSlave d =
     seq (SetStatus ops nSlave) (seq (ClearMotionGO nSlave) (SetMotionInt TMIC_DONE nSlave 0)) d"

definition motion_done :: "('img, 'a) CBaseDrive_scheme \<Rightarrow> fault + ('img, 'a) CBaseDrive_scheme" where
  "motion_done d = seq (SetMotionCount 0 0) (seq (ClearMotionGO 0) (SetMotionInt TMIC_DONE 0 TMFC_NONE)) d"

definition DoRewind ::
  "('img, 'o) tape_ops_scheme \<Rightarrow> ('img, 'a) CBaseDrive_scheme \<Rightarrow> fault + ('img, 'a) CBaseDrive_scheme" where
  "DoRewind ops d =
     andthen (CheckOnline ops True d)
       (\<lambda>(ok, d). if \<not> ok then Inr d
                   else motion_done (d\<lparr>m_pImage := img_Rewind ops (m_pImage d)\<rparr>))"

definition DoUnload ::
  "('img, 'o) tape_ops_scheme \<Rightarrow> ('img, 'a) CBaseDrive_scheme \<Rightarrow> fault + ('img, 'a) CBaseDrive_scheme" where
  "DoUnload ops d =
     andthen (CheckOnline ops True d)
       (\<lambda>(ok, d). if \<not> ok then Inr d
                   else seq motion_done (seq (CTapeDrive_GoOffline ops) (CTapeDrive_Detach ops)) d)"

text \<open>
  The \<open>do ... while\<close> loop of \<open>DoSpace\<close>: \<open>space\<close> is the method chosen by the two flags,
  \<open>nCount\<close> the \<open>uint8_t\<close> counter; the result is the last return code, the counter and the
  image afterwards.  The loop goes on only after it decremented a positive counter.
\<close>

function DoSpace_loop :: "('img \<Rightarrow> int \<times> 'img) \<Rightarrow> u8 \<Rightarrow> 'img \<Rightarrow> int \<times> u8 \<times> 'img" where
  "DoSpace_loop space nCount img =
     (let (nRet, img1) = space img;
          nCount1 = (if nRet > 0 \<and> nCount > 0 then nCount - 1 else nCount)
      in if nRet > 0 \<and> nCount1 > 0 then DoSpace_loop space nCount1 img1
         else (nRet, nCount1, img1))"
  by pat_completeness auto
termination
proof (relation "measure (\<lambda>(space, nCount, img). unat nCount)")
  show "wf (measure (\<lambda>(space, nCount, img). unat nCount))" by simp
next
  fix space :: "'img \<Rightarrow> int \<times> 'img" and nCount :: u8 and img x nRet img1 nCount1
  assume "nCount1 = (if 0 < nRet \<and> 0 < nCount then nCount - 1 else nCount)"
    and "0 < nRet \<and> 0 < nCount1"
  then have "0 < nCount" and "nCount1 = nCount - 1" by (auto split: if_splits)
  then have "unat nCount1 < unat nCount"
    by (simp add: unat_minus_one word_neq_0_conv[symmetric] unat_gt_0)
  then show "((space, nCount1, img1), space, nCount, img) \<in> measure (\<lambda>(space, nCount, img). unat nCount)"
    by simp
qed

definition DoSpace ::
  "('img, 'o) tape_ops_scheme \<Rightarrow> u8 \<Rightarrow> bool \<Rightarrow> bool \<Rightarrow> ('img, 'a) CBaseDrive_scheme
   \<Rightarrow> fault + ('img, 'a) CBaseDrive_scheme" where
  "DoSpace ops nCount fReverse fFiles d =
     andthen (CheckOnline ops True d)
       (\<lambda>(ok, d).
          if \<not> ok then Inr d
          else
            (let space = (if fFiles then (if fReverse then img_SpaceReverseFile ops
                                          else img_SpaceForwardFile ops)
                          else (if fReverse then img_SpaceReverseRecord ops
                                else img_SpaceForwardRecord ops));
                 (nRet, nCount1, img) = DoSpace_loop space nCount (m_pImage d)
             in seq (SetMotionCount nCount1 0)
               (seq (ClearMotionGO 0)
                  (if nRet = BADTAPE ops then SetMotionInt TMIC_BAD_TAPE 0 TMFC_NONE
                   else if nRet = TAPEMARK ops then SetMotionInt TMIC_TAPE_MARK 0 TMFC_NONE
                   else if nRet = EOTBOT ops
                     then SetMotionInt (if fReverse then TMIC_BOT else TMIC_EOT) 0 TMFC_NONE
                   else SetMotionInt TMIC_DONE 0 TMFC_NONE))
               (d\<lparr>m_pImage := img\<rparr>)))"


text \<open>The \<open>do ... while\<close> loop of \<open>DoWriteMark\<close>, with \<open>mark\<close> the image's \<open>WriteMark\<close>.\<close>

function DoWriteMark_loop :: "('img \<Rightarrow> bool \<times> 'img) \<Rightarrow> u8 \<Rightarrow> 'img \<Rightarrow> bool \<times> u8 \<times> 'img" where
  "DoWriteMark_loop mark nCount img =
     (let (fError, img1) = mark img;
          nCount1 = (if \<not> fError \<and> nCount > 0 then nCount - 1 else nCount)
      in if nCount1 > 0 \<and> \<not> fError then DoWriteMark_loop mark nCount1 img1
         else (fError, nCount1, img1))"
  by pat_completeness auto
termination
proof (relation "measure (\<lambda>(mark, nCount, img). unat nCount)")
  show "wf (measure (\<lambda>(mark, nCount, img). unat nCount))" by simp
next
  fix mark :: "'img \<Rightarrow> bool \<times> 'img" and nCount :: u8 and img x fError img1 nCount1
  assume "nCount1 = (if \<not> fError \<and> 0 < nCount then nCount - 1 else nCount)"
    and "0 < nCount1 \<and> \<not> fError"
  then have "0 < nCount" and "nCount1 = nCount - 1" by (auto split: if_splits)
  then have "unat nCount1 < unat nCount"
    by (simp add: unat_minus_one word_neq_0_conv[symmetric] unat_gt_0)
  then show "((mark, nCount1, img1), mark, nCount, img) \<in> measure (\<lambda>(mark, nCount, img). unat nCount)"
    by simp
qed

definition DoWriteMark ::
  "('img, 'o) tape_ops_scheme \<Rightarrow> u8 \<Rightarrow> ('img, 'a) CBaseDrive_scheme
   \<Rightarrow> fault + ('img, 'a) CBaseDrive_scheme" where
  "DoWriteMark ops nCount d =
     andthen (CheckWritable ops True d)
       (\<lambda>(ok, d).
          if \<not> ok then Inr d
          else
            (let (fError, nCount1, img) = DoWriteMark_loop (img_WriteMark ops) nCount (m_pImage d)
             in seq (SetMotionCount nCount1 0)
               (seq (ClearMotionGO 0)
                  (SetMotionInt (if fError then TMIC_BAD_TAPE else TMIC_DONE) 0 TMFC_NONE))
               (d\<lparr>m_pImage := img\<rparr>)))"

definition DoWriteGap ::
  "('img, 'o) tape_ops_scheme \<Rightarrow> u8 \<Rightarrow> ('img, 'a) CBaseDrive_scheme
   \<Rightarrow> fault + ('img, 'a) CBaseDrive_scheme" where
  "DoWriteGap ops nCount d =
     andthen (CheckWritable ops True d)
       (\<lambda>(ok, d). if \<not> ok then Inr d
                   else motion_done (d\<lparr>m_pImage := img_Truncate ops (m_pImage d)\<rparr>))"

definition DoEraseTape ::
  "('img, 'o) tape_ops_scheme \<Rightarrow> ('img, 'a) CBaseDrive_scheme \<Rightarrow> fault + ('img, 'a) CBaseDrive_scheme" where
  "DoEraseTape ops d = DoWriteGap ops 1 d"

definition DoReadExtendedSense ::
  "('img, 'a) CBaseDrive_scheme \<Rightarrow> fault + ('img, 'a) CBaseDrive_scheme" where
  "DoReadExtendedSense d =
     seq (SetDataInt TMIC_DONE 0 TMFC_NONE)
         (upe_drop (WriteData (replicate TMES_LENGTH 0) (of_nat TMES_LENGTH) False)) d"

text \<open>What a caller of a fiddler gets: its result, or \<open>NotReturning\<close>.\<close>

definition returning :: "(fault + 'a) option \<Rightarrow> fault + 'a" where
  "returning r = (case r of None \<Rightarrow> Inl NotReturning | Some x \<Rightarrow> x)"

definition empty_exception ::
  "u16 \<Rightarrow> u16 \<Rightarrow> ('img, 'a) CBaseDrive_scheme \<Rightarrow> fault + ('img, 'a) CBaseDrive_scheme" where
  "empty_exception nCode nFailure d =
     seq (SetDataInt nCode 0 nFailure) (upe_do (EmptyTransfer True)) d"

text \<open>
  \<open>DoRead(fReverse, bFormat, lByteCount)\<close>.  \<open>cbRecord\<close> is the \<open>int32_t\<close> the image
  returns; \<open>(uint32_t) cbRecord\<close> is \<open>word_of_int cbRecord\<close>.  The three error paths are
  written out in the source and share \<open>read_failed\<close> here; the values \<open>WriteData\<close> and
  \<open>ClearBitMBR\<close> return are not used.
\<close>

definition read_failed ::
  "u16 \<Rightarrow> u16 \<Rightarrow> ('img, 'a) CBaseDrive_scheme \<Rightarrow> fault + ('img, 'a) CBaseDrive_scheme" where
  "read_failed nCode nFailure d =
     seq (upe_do (WriteMBR (m_nUnit d) TMBCR 0)) (empty_exception nCode nFailure) d"

definition DoRead ::
  "('img, 'o) tape_ops_scheme \<Rightarrow> bool \<Rightarrow> u8 \<Rightarrow> u32 \<Rightarrow> 'img CTapeDrive \<Rightarrow> fault + 'img CTapeDrive" where
  "DoRead ops fReverse bFormat lByteCount d =
     andthen (CheckOnline ops False d)
       (\<lambda>(ok, d).
          if \<not> ok then Inr d
          else if fReverse \<and> img_IsBOT ops (m_pImage d) then empty_exception TMIC_BOT TMFC_NONE d
          else
            (let (cbRecord, buf, img) =
                   img_ReadForwardRecord ops (m_abBuffer d) (MAXRECLEN ops) (m_pImage d);
                 d = d\<lparr>m_pImage := img, m_abBuffer := buf\<rparr>
             in if cbRecord \<le> 0 then
                  (if cbRecord = TAPEMARK ops then read_failed TMIC_TAPE_MARK TMFC_NONE d
                   else if cbRecord = EOTBOT ops then read_failed TMIC_EOT TMFC_NONE d
                   else read_failed TMIC_UNREADABLE 1 d)
                else
                  andthen
                    (seq (upe_drop (ClearBitMBR (m_nUnit d) TMTCR TMTCR_M_REC_COUNT))
                      (seq (upe_do (WriteMBR (m_nUnit d) TMBCR (LOWORD (word_of_int cbRecord :: u32))))
                         (if (word_of_int cbRecord :: u32) < lByteCount
                            then SetDataInt TMIC_SHORT_RECORD 0 TMFC_NONE
                          else if (word_of_int cbRecord :: u32) > lByteCount
                            then SetDataInt TMIC_LONG_RECORD 0 TMFC_NONE
                          else SetDataInt TMIC_DONE 0 TMFC_NONE)) d)
                    (\<lambda>d. andthen
                            (returning (Fiddle8to18 bFormat (m_abBuffer d) (word_of_int cbRecord) fReverse))
                            (\<lambda>alBuffer.
                               upe_drop (WriteData alBuffer (of_nat (length alBuffer))
                                           ((word_of_int cbRecord :: u32) \<noteq> lByteCount)) d))))"

text \<open>
  \<open>DoWrite(bFormat, lByteCount)\<close>.  The half word count is computed in \<open>uint32_t\<close>.  The
  bytes the fiddler returns replace the start of \<open>m_abBuffer\<close>, and \<open>WriteRecord\<close> gets the
  buffer and their number.
\<close>

definition DoWrite_clRecord :: "u8 \<Rightarrow> u32 \<Rightarrow> u32" where
  "DoWrite_clRecord bFormat lByteCount =
     (if bFormat = TMAM_10_COMPATIBLE then lByteCount * 2 div 4 else lByteCount * 2 div 5)"

definition DoWrite ::
  "('img, 'o) tape_ops_scheme \<Rightarrow> u8 \<Rightarrow> u32 \<Rightarrow> 'img CTapeDrive \<Rightarrow> fault + 'img CTapeDrive" where
  "DoWrite ops bFormat lByteCount d =
     andthen (CheckWritable ops False d)
       (\<lambda>(ok, d).
          if \<not> ok then Inr d
          else
            (let clRecord = DoWrite_clRecord bFormat lByteCount in
             andthen
               (seq (upe_drop (ClearBitMBR (m_nUnit d) TMTCR TMTCR_M_REC_COUNT))
                    (SetDataInt TMIC_DONE 0 TMFC_NONE) d)
               (\<lambda>d. andthen (ReadData clRecord (m_UPE d))
                  (\<lambda>(ok, alBuffer, b).
                     let d = d\<lparr>m_UPE := b\<rparr> in
                     if ok then
                       andthen (returning (Fiddle18to8 bFormat alBuffer clRecord))
                         (\<lambda>abOut.
                            let buf = abOut @ drop (length abOut) (m_abBuffer d) in
                            Inr (d\<lparr>m_abBuffer := buf,
                                   m_pImage := img_WriteRecord ops buf (of_nat (length abOut))
                                                 (m_pImage d)\<rparr>))
                     else Inr d))))"

definition DoMotionCommand ::
  "('img, 'o) tape_ops_scheme \<Rightarrow> u8 \<Rightarrow> u8 \<Rightarrow> u8 \<Rightarrow> 'img CTapeDrive \<Rightarrow> fault + 'img CTapeDrive" where
  "DoMotionCommand ops nSlave bFunction bCount d =
     (if nSlave \<noteq> 0 then
        (if bFunction = TMCMD_SENSE then DoReadSense ops nSlave d
         else seq (ClearMotionGO nSlave) (SetMotionInt TMIC_NOT_AVAIL nSlave 0) d)
      else
        (let bCount = (if bCount = 0 then 1 else bCount) in
         if bFunction = TMCMD_SENSE then DoReadSense ops 0 d
         else if bFunction = TMCMD_WTM_PE then DoWriteMark ops bCount d
         else if bFunction = TMCMD_WTM_GCR then DoWriteMark ops bCount d
         else if bFunction = TMCMD_SP_FWD_REC then DoSpace ops bCount False False d
         else if bFunction = TMCMD_SP_REV_REC then DoSpace ops bCount True False d
         else if bFunction = TMCMD_SP_FWD_FILE then DoSpace ops bCount False True d
         else if bFunction = TMCMD_SP_REV_FILE then DoSpace ops bCount True True d
         else if bFunction = TMCMD_REWIND then DoRewind ops d
         else if bFunction = TMCMD_UNLOAD then DoUnload ops d
         else if bFunction = TMCMD_ERG_PE then DoWriteGap ops bCount d
         else if bFunction = TMCMD_ERG_GCR then DoWriteGap ops bCount d
         else if bFunction = TMCMD_DSE then DoEraseTape ops d
         else seq (ClearMotionGO 0) (SetMotionInt TMIC_TM_FAULT_A 0 TMFC_NONE) d))"

text \<open>
  \<open>DoTransferCommand(bFunction)\<close>.  The four fields of \<open>TMTCR\<close> are masked, shifted and
  stored in \<open>uint8_t\<close> variables; \<open>errret\<close> is the label of that name.
\<close>

definition errret :: "('img, 'a) CBaseDrive_scheme \<Rightarrow> fault + ('img, 'a) CBaseDrive_scheme" where
  "errret d = empty_exception TMIC_TM_FAULT_A TMFC_NONE d"

definition TCR_format :: "u16 \<Rightarrow> u8" where
  "TCR_format nTCR = ucast (drop_bit TMTCR_V_FORMAT (nTCR AND TMTCR_M_FORMAT))"

definition TCR_skip_count :: "u16 \<Rightarrow> u8" where
  "TCR_skip_count nTCR = ucast (drop_bit TMTCR_V_SKIP_COUNT (nTCR AND TMTCR_M_SKIP_COUNT))"

definition TCR_record_count :: "u16 \<Rightarrow> u8" where
  "TCR_record_count nTCR = ucast (drop_bit TMTCR_V_REC_COUNT (nTCR AND TMTCR_M_REC_COUNT))"

definition TCR_slave :: "u16 \<Rightarrow> u8" where
  "TCR_slave nTCR = ucast (drop_bit TMTCR_V_CMD_ADDR (nTCR AND TMTCR_M_CMD_ADDR))"

definition byte_count :: "u16 \<Rightarrow> u32" where
  "byte_count bcr = (let lByteCount = MKLONG 0 bcr in if lByteCount = 0 then 65536 else lByteCount)"

definition DoTransferCommand ::
  "('img, 'o) tape_ops_scheme \<Rightarrow> u8 \<Rightarrow> 'img CTapeDrive \<Rightarrow> fault + 'img CTapeDrive" where
  "DoTransferCommand ops bFunction d =
     andthen (ReadMBR (m_nUnit d) TMTCR (m_UPE d))
       (\<lambda>nTCR.
          let bFormat = TCR_format nTCR;
              bSkipCount = TCR_skip_count nTCR;
              bRecordCount = TCR_record_count nTCR;
              bSlave = TCR_slave nTCR
          in andthen (ReadMBR (m_nUnit d) TMBCR (m_UPE d))
               (\<lambda>bcr.
                  let lByteCount = byte_count bcr in
                  if bSlave \<noteq> 0 then errret d
                  else if bFormat \<noteq> TMAM_10_COMPATIBLE \<and> bFormat \<noteq> TMAM_10_CORE_DUMP then errret d
                  else if bSkipCount \<noteq> 0 then errret d
                  else if bRecordCount > 1 then errret d
                  else if bFunction = TMCMD_RD_FWD then DoRead ops False bFormat lByteCount d
                  else if bFunction = TMCMD_RD_REV then DoRead ops True bFormat lByteCount d
                  else if bFunction = TMCMD_WRT_PE then DoWrite ops bFormat lByteCount d
                  else if bFunction = TMCMD_WRT_GCR then DoWrite ops bFormat lByteCount d
                  else if bFunction = TMCMD_RD_EXSNS then DoReadExtendedSense d
                  else errret d))"

definition CTapeDrive_DoCommand ::
  "('img, 'o) tape_ops_scheme \<Rightarrow> u32 \<Rightarrow> 'img CTapeDrive \<Rightarrow> fault + 'img CTapeDrive" where
  "CTapeDrive_DoCommand ops lCommand d =
     (let wCommand = (ucast (ExtractCommand lCommand) :: u16);
          bRegister = (ucast (ExtractRegister lCommand) :: u8);
          bFunction = (ucast (wCommand AND TMCMD_M_MASK) :: u8)
      in if IsEndofBlock lCommand then Inr d
         else if bRegister = TMHCR then Inr d
         else if bRegister AND TMMCR0 = TMMCR0
           then DoMotionCommand ops (bRegister AND 3) bFunction (HIBYTE wCommand) d
         else if bRegister = TMDCR then DoTransferCommand ops bFunction d
         else Inr d)"


section \<open>The disk drive (\<open>DiskDrive.hpp\<close>, \<open>DiskDrive.cpp\<close>)\<close>

definition SECTOR_SIZE :: nat where "SECTOR_SIZE = 256"

text \<open>
  \<open>CDiskImageFile::WriteSector(lLBA, data)\<close> gets a pointer to 256 16 bit words or to
  128 64 bit words; it returns whether the write worked.
\<close>

datatype sector_data = Words16 "u16 list" | Words36 "u64 list"

record 'img disk_ops = "'img image_ops" +
  img_WriteSector :: "u32 \<Rightarrow> sector_data \<Rightarrow> 'img \<Rightarrow> bool \<times> 'img"

record 'img CDiskDrive = "'img CBaseDrive" +
  m_pType :: CDiskType
  m_f18Bit :: bool
  m_nSectorSize :: u32

definition Is18Bit :: "'img CDiskDrive \<Rightarrow> bool" where
  "Is18Bit d = m_f18Bit d"

text \<open>
  \<open>GetDesiredLBA\<close>: the cylinder is \<open>RPDC\<close>, the head and the sector are the high and
  the low byte of \<open>RPDA\<close>.
\<close>

definition GetDesiredLBA :: "'img CDiskDrive \<Rightarrow> fault + u32" where
  "GetDesiredLBA d =
     andthen (ReadMBR (m_nUnit d) RPDC (m_UPE d))
       (\<lambda>c. andthen (ReadMBR (m_nUnit d) RPDA (m_UPE d))
          (\<lambda>da. Inr (CHStoLBA (m_pType d) c (HIBYTE da) (LOBYTE da) (m_f18Bit d))))"

definition SpinDown :: "('img, 'o) image_ops_scheme \<Rightarrow> 'img CDiskDrive \<Rightarrow> fault + 'img CDiskDrive" where
  "SpinDown ops d =
     (if \<not> IsAttached ops d then Inl AssertionFailed
      else if \<not> IsOnline ops d then Inr d
      else andthen (upe_drop (ClearBitMBR (m_nUnit d) RPDS (RPDS_MOL OR RPDS_VV)) d)
             (\<lambda>d. Inr (CBaseDrive_GoOffline d)))"

text \<open>
  \<open>WriteSector18\<close> packs the 256 half words of the sector buffer into 128 words,
  \<open>WriteSector16\<close> keeps the low 16 bits of each of the 256; the buffer is the local
  array \<open>alSector\<close>, here the words \<open>ReadData\<close> stored.
\<close>

definition WriteSector18 ::
  "('img, 'o) disk_ops_scheme \<Rightarrow> u32 \<Rightarrow> u32 list \<Rightarrow> 'img \<Rightarrow> fault + (bool \<times> 'img)" where
  "WriteSector18 ops lLBA alData18 img =
     (if length alData18 < SECTOR_SIZE then Inl OutOfBounds
      else Inr (img_WriteSector ops lLBA
                  (Words36 (map (\<lambda>i. MK36 (alData18 ! (2 * i)) (alData18 ! (2 * i + 1)))
                              [0 ..< SECTOR_SIZE div 2])) img))"

definition WriteSector16 ::
  "('img, 'o) disk_ops_scheme \<Rightarrow> u32 \<Rightarrow> u32 list \<Rightarrow> 'img \<Rightarrow> fault + (bool \<times> 'img)" where
  "WriteSector16 ops lLBA alData16 img =
     (if length alData16 < SECTOR_SIZE then Inl OutOfBounds
      else Inr (img_WriteSector ops lLBA
                  (Words16 (map (\<lambda>i. LOWORD (alData16 ! i)) [0 ..< SECTOR_SIZE])) img))"

text \<open>\<open>CDiskDrive::DoWrite\<close>; \<open>SpinDown\<close> is what follows the label \<open>offline\<close>.\<close>

definition CDiskDrive_DoWrite ::
  "('img, 'o) disk_ops_scheme \<Rightarrow> u16 \<Rightarrow> 'img CDiskDrive \<Rightarrow> fault + 'img CDiskDrive" where
  "CDiskDrive_DoWrite ops wCommand d =
     (if \<not> IsOnline ops d then Inl AssertionFailed
      else
        andthen (GetDesiredLBA d)
          (\<lambda>lLBA.
             if lLBA = INVALID_SECTOR then SpinDown ops d
             else
               andthen (ReadData (of_nat SECTOR_SIZE) (m_UPE d))
                 (\<lambda>(ok, alSector, b).
                    let d = d\<lparr>m_UPE := b\<rparr> in
                    if \<not> ok then SpinDown ops d
                    else if IsReadOnly d then SpinDown ops d
                    else
                      andthen (if Is18Bit d then WriteSector18 ops lLBA alSector (m_pImage d)
                               else WriteSector16 ops lLBA alSector (m_pImage d))
                        (\<lambda>(ok, img).
                           let d = d\<lparr>m_pImage := img\<rparr> in
                           if \<not> ok then SpinDown ops d else Inr d))))"



section \<open>Image files for running the model\<close>

text \<open>
  Modelled from the spec: the tape image class \<open>CTapeImageFile\<close> and the disk image
  class \<open>CDiskImageFile\<close> are missing from the repository (they belong to the UPE
  library).  The spec describes a tape image as a sequence of records and tape marks
  that is traversed forward and in reverse, a tape mark being a zero length, the end of
  the file being the end of the tape and (in reverse) position zero the beginning; any
  write truncates the image at the position.  \<open>tape_image\<close> is this: the items, the
  position (the number of items before the head), the open flag and the read only flag.
  The result codes are the simh convention the spec names, zero for a tape mark; the
  negative numbers for the two other codes are this model's choice, and so are the
  results of file spacing (the number of items passed when a tape mark was passed,
  \<open>EOTBOT\<close> when the tape ended first) and of \<open>WriteMark\<close> (no error), which the spec leaves
  open.  These definitions only provide concrete inputs; every theorem that is
  not about a concrete input holds for all image operations.
\<close>

datatype tape_item = Record "u8 list" | TapeMark

record tape_image =
  items :: "tape_item list"
  pos :: nat
  opened :: bool
  read_only :: bool

definition tape_space_forward :: "tape_image \<Rightarrow> int \<times> tape_image" where
  "tape_space_forward t =
     (if pos t \<ge> length (items t) then (-1, t)
      else case items t ! pos t of
             TapeMark \<Rightarrow> (0, t\<lparr>pos := Suc (pos t)\<rparr>)
           | Record r \<Rightarrow> (int (length r), t\<lparr>pos := Suc (pos t)\<rparr>))"

definition tape_space_reverse :: "tape_image \<Rightarrow> int \<times> tape_image" where
  "tape_space_reverse t =
     (if pos t = 0 then (-1, t)
      else case items t ! (pos t - 1) of
             TapeMark \<Rightarrow> (0, t\<lparr>pos := pos t - 1\<rparr>)
           | Record r \<Rightarrow> (int (length r), t\<lparr>pos := pos t - 1\<rparr>))"

fun items_to_mark :: "tape_item list \<Rightarrow> nat option" where
  "items_to_mark [] = None"
| "items_to_mark (TapeMark # xs) = Some 1"
| "items_to_mark (Record r # xs) = map_option Suc (items_to_mark xs)"

definition tape_space_forward_file :: "tape_image \<Rightarrow> int \<times> tape_image" where
  "tape_space_forward_file t =
     (case items_to_mark (drop (pos t) (items t)) of
        None \<Rightarrow> (-1, t\<lparr>pos := length (items t)\<rparr>)
      | Some k \<Rightarrow> (int k, t\<lparr>pos := pos t + k\<rparr>))"

definition tape_space_reverse_file :: "tape_image \<Rightarrow> int \<times> tape_image" where
  "tape_space_reverse_file t =
     (case items_to_mark (rev (take (pos t) (items t))) of
        None \<Rightarrow> (-1, t\<lparr>pos := 0\<rparr>)
      | Some k \<Rightarrow> (int k, t\<lparr>pos := pos t - k\<rparr>))"

definition tape_read_forward :: "u8 list \<Rightarrow> nat \<Rightarrow> tape_image \<Rightarrow> int \<times> u8 list \<times> tape_image" where
  "tape_read_forward buf cbMax t =
     (if pos t \<ge> length (items t) then (-1, buf, t)
      else case items t ! pos t of
             TapeMark \<Rightarrow> (0, buf, t\<lparr>pos := Suc (pos t)\<rparr>)
           | Record r \<Rightarrow>
               if length r > cbMax \<or> length r > length buf then (-2, buf, t)
               else (int (length r), r @ drop (length r) buf, t\<lparr>pos := Suc (pos t)\<rparr>))"

definition tape_write :: "tape_item \<Rightarrow> tape_image \<Rightarrow> tape_image" where
  "tape_write x t = t\<lparr>items := take (pos t) (items t) @ [x], pos := Suc (pos t)\<rparr>"

definition simple_tape :: "tape_image tape_ops" where
  "simple_tape =
     \<lparr>img_IsOpen = opened,
      img_IsReadOnly = read_only,
      img_Open = (\<lambda>name ro share t. (True, t\<lparr>opened := True, read_only := ro, pos := 0\<rparr>)),
      img_Close = (\<lambda>t. t\<lparr>opened := False\<rparr>),
      TAPEMARK = 0, EOTBOT = -1, BADTAPE = -2, MAXRECLEN = 65535,
      img_IsBOT = (\<lambda>t. pos t = 0),
      img_IsEOT = (\<lambda>t. pos t \<ge> length (items t)),
      img_Rewind = (\<lambda>t. t\<lparr>pos := 0\<rparr>),
      img_SpaceForwardRecord = tape_space_forward,
      img_SpaceReverseRecord = tape_space_reverse,
      img_SpaceForwardFile = tape_space_forward_file,
      img_SpaceReverseFile = tape_space_reverse_file,
      img_ReadForwardRecord = tape_read_forward,
      img_WriteRecord = (\<lambda>buf cb t. tape_write (Record (take (unat cb) buf)) t),
      img_WriteMark = (\<lambda>t. (False, tape_write TapeMark t)),
      img_Truncate = (\<lambda>t. t\<lparr>items := take (pos t) (items t)\<rparr>)\<rparr>"

text \<open>
  Modelled from the spec: a disk image is a flat array of sectors; writing a sector
  replaces it.  It is a map from sector numbers to sectors, with the two flags.
\<close>

record disk_image =
  sectors :: "u32 \<Rightarrow> sector_data option"
  disk_opened :: bool
  disk_read_only :: bool

definition simple_disk :: "disk_image disk_ops" where
  "simple_disk =
     \<lparr>img_IsOpen = disk_opened,
      img_IsReadOnly = disk_read_only,
      img_Open = (\<lambda>name ro share t. (True, t\<lparr>disk_opened := True, disk_read_only := ro\<rparr>)),
      img_Close = (\<lambda>t. t\<lparr>disk_opened := False\<rparr>),
      img_WriteSector = (\<lambda>lLBA data t. (True, t\<lparr>sectors := (sectors t)(lLBA \<mapsto> data)\<rparr>))\<rparr>"

text \<open>
  A bridge and drives to run the model on: an open tape (or disk) bridge whose registers
  are zero, whose FIFOs deliver the words given and whose outgoing FIFO is never almost
  full.
\<close>

definition test_upe :: "u8 \<Rightarrow> (nat \<Rightarrow> u32) \<Rightarrow> upe" where
  "test_upe vhdl_type fifo =
     \<lparr>is_open = True, is_offline = False, alRegisters = (\<lambda>u r. 0),
      lVHDL = MKLONG (ucast vhdl_type) 0,
      command_fifo = (\<lambda>k. 0), command_reads = 0,
      data_fifo = fifo, data_reads = 0,
      fifo_status = (\<lambda>k. 0), status_reads = 0,
      enable_result = ApiSuccess, wait_result = ApiSuccess, effects = []\<rparr>"

definition test_tape :: "tape_item list \<Rightarrow> bool \<Rightarrow> bool \<Rightarrow> tape_image CTapeDrive" where
  "test_tape xs fOnline fReadOnly =
     \<lparr>m_nUnit = 0, m_strAlias = [], m_nSerial = 1234, m_fOnline = fOnline,
      m_fReadOnly = fReadOnly, m_UPE = test_upe TYPE_TAPE (\<lambda>k. VALID OR of_nat k),
      m_pImage = \<lparr>items = xs, pos = 0, opened = True, read_only = fReadOnly\<rparr>,
      m_abBuffer = replicate 32 0xEE\<rparr>"

definition test_disk :: "bool \<Rightarrow> bool \<Rightarrow> disk_image CDiskDrive" where
  "test_disk fOnline fReadOnly =
     \<lparr>m_nUnit = 0, m_strAlias = [], m_nSerial = 1234, m_fOnline = fOnline,
      m_fReadOnly = fReadOnly, m_UPE = test_upe TYPE_DISK (\<lambda>k. VALID OR of_nat k),
      m_pImage = \<lparr>sectors = Map.empty, disk_opened = True, disk_read_only = fReadOnly\<rparr>,
      m_pType = m_RP06type, m_f18Bit = False, m_nSectorSize = 512\<rparr>"

text \<open>The drive with the value \<open>v\<close> in its register \<open>r\<close>, as the host would have written it.\<close>

definition with_register ::
  "u8 \<Rightarrow> u16 \<Rightarrow> ('img, 'a) CBaseDrive_scheme \<Rightarrow> ('img, 'a) CBaseDrive_scheme" where
  "with_register r v d =
     d\<lparr>m_UPE := (m_UPE d)\<lparr>alRegisters :=
          (alRegisters (m_UPE d))(m_nUnit d := (alRegisters (m_UPE d) (m_nUnit d))(r := ucast v))\<rparr>\<rparr>"

text \<open>What a register holds, for stating results: the low word of the slot.\<close>

definition reg :: "('img, 'a) CBaseDrive_scheme \<Rightarrow> u8 \<Rightarrow> u16" where
  "reg d nRegister = LOWORD (alRegisters (m_UPE d) (m_nUnit d) nRegister)"

text \<open>The interrupt code field of \<open>TMDIR\<close> or \<open>TMMIR\<close> (octal mask \<open>077\<close>).\<close>

definition interrupt_code :: "u16 \<Rightarrow> u16" where
  "interrupt_code r = r AND 0x3F"

text \<open>The image after \<open>i\<close> calls of a space method.\<close>

definition image_after :: "('img \<Rightarrow> int \<times> 'img) \<Rightarrow> nat \<Rightarrow> 'img \<Rightarrow> 'img" where
  "image_after space i img = ((\<lambda>x. snd (space x)) ^^ i) img"


section \<open>Verified properties\<close>

subsection \<open>Disk geometry: C/H/S and LBA\<close>

lemma lba_nat_bound:
  fixes c h s H S :: nat
  assumes "c < 2^16" "H \<le> 2^8" "h < H" "S \<le> 2^8" "s < S"
  shows "(c * H + h) * S + s < 2^32"
proof -
  have 1: "c * H + h < (c + 1) * H" using assms by simp
  have "(c + 1) * H \<le> 2^16 * 2^8" using assms by (intro mult_le_mono) simp_all
  with 1 have 2: "c * H + h + 1 \<le> 2^16 * 2^8" by simp
  have "(c * H + h) * S + s < (c * H + h + 1) * S" using assms by simp
  also have "\<dots> \<le> (2^16 * 2^8) * 2^8" using 2 assms by (intro mult_le_mono) simp_all
  finally show ?thesis by simp
qed

lemma unat_u8_lt: "unat (x :: u8) < 2^8"
  using unsigned_less[of x, where 'a=nat] by simp

lemma unat_u8_le: "unat (x :: u8) \<le> 2^8"
  using unat_u8_lt[of x] by simp

lemma unat_u16_lt: "unat (x :: u16) < 2^16"
  using unsigned_less[of x, where 'a=nat] by simp

lemma unat_ucast_u8_u32: "unat (ucast (x :: u8) :: u32) = unat x"
proof -
  have "unat x < 2 ^ LENGTH(32)" using unat_u8_lt[of x] by simp
  then show ?thesis unfolding unsigned_ucast_eq by (rule take_bit_nat_eq_self)
qed

lemma ucast_u32_eqI:
  fixes w :: u32 and x :: "'a::len word"
  assumes "unat w = unat x"
  shows "ucast w = x"
proof -
  have "ucast w = (of_nat (unat w) :: 'a word)" by (simp only: of_nat_unat)
  also have "\<dots> = x" unfolding assms by (simp only: of_nat_unat ucast_id)
  finally show ?thesis .
qed

lemma unat_CHStoLBA:
  assumes "IsValidCHS t c h s f"
  shows "unat (CHStoLBA t c h s f) = (unat c * unat (GetHeads t) + unat h) * unat (GetSectors t f) + unat s"
proof -
  define L where "L = (unat c * unat (GetHeads t) + unat h) * unat (GetSectors t f) + unat s"
  have hH: "unat h < unat (GetHeads t)" and sS: "unat s < unat (GetSectors t f)"
    using assms by (simp_all add: IsValidCHS_def IsValidHead_def IsValidSector_def word_less_nat_alt)
  have "L < 2^32"
    unfolding L_def by (rule lba_nat_bound[OF unat_u16_lt unat_u8_le hH unat_u8_le sS])
  then have b: "L < 2 ^ LENGTH(32)" by simp
  have i: "(uint c * uint (GetHeads t) + uint h) * uint (GetSectors t f) + uint s = int L"
    unfolding L_def by (simp only: uint_nat of_nat_add of_nat_mult)
  have "CHStoLBA t c h s f = word_of_int (int L)"
    using assms unfolding CHStoLBA_def i by simp
  also have "\<dots> = of_nat L" by (rule of_int_of_nat_eq)
  finally have "unat (CHStoLBA t c h s f) = L" using b by (simp only: of_nat_inverse[OF refl])
  then show ?thesis unfolding L_def .
qed

lemma LBAtoCHS_CHStoLBA:
  assumes v: "IsValidCHS t c h s f" and le: "m_nSectors18 t \<le> m_nSectors16 t"
  shows "LBAtoCHS t (CHStoLBA t c h s f) f = (c, h, s)"
proof -
  define H where "H = unat (GetHeads t)"
  define S where "S = unat (GetSectors t f)"
  define lba where "lba = CHStoLBA t c h s f"
  have hH: "unat h < H" and sS: "unat s < S"
    using v by (simp_all add: H_def S_def IsValidCHS_def IsValidHead_def IsValidSector_def word_less_nat_alt)
  have L: "unat lba = (unat c * H + unat h) * S + unat s"
    unfolding lba_def H_def S_def by (rule unat_CHStoLBA[OF v])
  have uS: "unat (ucast (GetSectors t f) :: u32) = S" unfolding S_def by (rule unat_ucast_u8_u32)
  have uH: "unat (ucast (GetHeads t) :: u32) = H" unfolding H_def by (rule unat_ucast_u8_u32)
  define q where "q = lba div ucast (GetSectors t f)"
  have s1: "unat (lba mod ucast (GetSectors t f)) = unat s"
    unfolding unat_mod L uS using sS by simp
  have d1: "unat q = unat c * H + unat h"
    unfolding q_def unat_div L uS using sS by simp
  have h1: "unat (q mod ucast (GetHeads t)) = unat h"
    unfolding unat_mod d1 uH using hH by simp
  have c1: "unat (q div ucast (GetHeads t)) = unat c"
    unfolding unat_div d1 uH using hH by simp
  have v16: "IsValidCHS t c h s False"
    using v le by (cases f) (auto simp: IsValidCHS_def IsValidSector_def GetSectors_def)
  show ?thesis
    unfolding LBAtoCHS_def Let_def lba_def[symmetric] q_def[symmetric]
      ucast_u32_eqI[OF s1] ucast_u32_eqI[OF h1] ucast_u32_eqI[OF c1]
    using v16 by (simp only: not_True_eq_False if_False)
qed

lemma CHStoLBA_lt_capacity:
  assumes v: "IsValidCHS t c h s f"
  shows "unat (CHStoLBA t c h s f) < capacity t f"
proof -
  define H where "H = unat (GetHeads t)"
  define S where "S = unat (GetSectors t f)"
  define C where "C = unat (GetCylinders t)"
  have cC: "unat c < C" and hH: "unat h < H" and sS: "unat s < S"
    using v by (simp_all add: C_def H_def S_def IsValidCHS_def IsValidCylinder_def IsValidHead_def
        IsValidSector_def word_less_nat_alt)
  have 1: "unat c * H + unat h < (unat c + 1) * H" using hH by simp
  have "(unat c + 1) * H \<le> C * H" using cC by (intro mult_le_mono) simp_all
  with 1 have 2: "unat c * H + unat h + 1 \<le> C * H" by simp
  have "(unat c * H + unat h) * S + unat s < (unat c * H + unat h + 1) * S" using sS by simp
  also have "\<dots> \<le> (C * H) * S" using 2 by (intro mult_le_mono) simp_all
  finally show ?thesis
    unfolding unat_CHStoLBA[OF v] capacity_def C_def H_def S_def .
qed

lemma CHStoLBA_LBAtoCHS:
  assumes lt: "unat lba < capacity t f" and le: "m_nSectors18 t \<le> m_nSectors16 t"
  shows "\<exists>c h s. LBAtoCHS t lba f = (c, h, s) \<and> IsValidCHS t c h s f \<and> CHStoLBA t c h s f = lba"
proof -
  define H where "H = unat (GetHeads t)"
  define S where "S = unat (GetSectors t f)"
  define C where "C = unat (GetCylinders t)"
  define q where "q = lba div ucast (GetSectors t f)"
  define s where "s = (ucast (lba mod ucast (GetSectors t f)) :: u8)"
  define h where "h = (ucast (q mod ucast (GetHeads t)) :: u8)"
  define c where "c = (ucast (q div ucast (GetHeads t)) :: u16)"
  have cap: "unat lba < C * H * S" using lt by (simp add: capacity_def C_def H_def S_def)
  have Spos: "0 < S" using cap by (cases "S = 0") simp_all
  have Hpos: "0 < H" using cap by (cases "H = 0") simp_all
  have uS: "unat (ucast (GetSectors t f) :: u32) = S" unfolding S_def by (rule unat_ucast_u8_u32)
  have uH: "unat (ucast (GetHeads t) :: u32) = H" unfolding H_def by (rule unat_ucast_u8_u32)
  have s0: "unat (lba mod ucast (GetSectors t f)) = unat lba mod S" unfolding unat_mod uS ..
  have q0: "unat q = unat lba div S" unfolding q_def unat_div uS ..
  have h0: "unat (q mod ucast (GetHeads t)) = unat q mod H" unfolding unat_mod uH ..
  have c0: "unat (q div ucast (GetHeads t)) = unat q div H" unfolding unat_div uH ..
  have sS: "unat lba mod S < S" using Spos by simp
  have hH: "unat q mod H < H" using Hpos by simp
  have qCH: "unat q < C * H" unfolding q0 using cap Spos by (simp add: less_mult_imp_div_less)
  then have cC: "unat q div H < C" using Hpos by (simp add: less_mult_imp_div_less)
  have S8: "S < 2^8" unfolding S_def by (rule unat_u8_lt)
  have H8: "H < 2^8" unfolding H_def by (rule unat_u8_lt)
  have C16: "C < 2^16" unfolding C_def by (rule unat_u16_lt)
  have us: "unat s = unat lba mod S"
    unfolding s_def unsigned_ucast_eq s0 using sS S8 by (intro take_bit_nat_eq_self) simp
  have uh: "unat h = unat q mod H"
    unfolding h_def unsigned_ucast_eq h0 using hH H8 by (intro take_bit_nat_eq_self) simp
  have uc: "unat c = unat q div H"
    unfolding c_def unsigned_ucast_eq c0 using cC C16 by (intro take_bit_nat_eq_self) simp
  have v: "IsValidCHS t c h s f"
    using sS hH cC
    by (simp add: IsValidCHS_def IsValidCylinder_def IsValidHead_def IsValidSector_def
        word_less_nat_alt us uh uc C_def H_def S_def)
  have v16: "IsValidCHS t c h s False"
    using v le by (cases f) (auto simp: IsValidCHS_def IsValidSector_def GetSectors_def)
  have r: "LBAtoCHS t lba f = (c, h, s)"
    unfolding LBAtoCHS_def Let_def q_def[symmetric] s_def[symmetric] h_def[symmetric] c_def[symmetric]
    using v16 by (simp only: not_True_eq_False if_False)
  have "unat (CHStoLBA t c h s f) = (unat q div H * H + unat q mod H) * S + unat lba mod S"
    unfolding unat_CHStoLBA[OF v] us uh uc H_def S_def ..
  also have "\<dots> = unat lba" unfolding q0 by simp
  finally have "CHStoLBA t c h s f = lba" by (simp only: word_unat_eq_iff)
  with r v show ?thesis by blast
qed

lemma registry_sectors:
  assumes "GetDiskType nIDT = Some t"
  shows "m_nSectors18 t \<le> m_nSectors16 t"
proof -
  have n: "nIDT < length m_apDriveTypes" and e: "m_apDriveTypes ! nIDT = DiskType t"
    using assms
    by (simp_all add: GetDiskType_def NUMIDTS_def m_apDriveTypes_def
        split: if_splits type_entry.splits)
  have "DiskType t \<in> set m_apDriveTypes" using nth_mem[OF n] e by simp
  then have "t \<in> {m_RP04type, m_RP06type, m_RP07type, m_RM03type, m_RM05type, m_RM80type}"
    by (simp add: m_apDriveTypes_def)
  then show ?thesis
    by (auto simp: m_RP04type_def m_RP06type_def m_RP07type_def m_RM03type_def m_RM05type_def
        m_RM80type_def mk_disk_def)
qed

lemma capacity_lt_sentinel: "capacity t f \<le> unat INVALID_SECTOR"
proof -
  have c: "unat (GetCylinders t) \<le> 2^16" using unat_u16_lt[of "GetCylinders t"] by simp
  have h: "unat (GetHeads t) \<le> 2^8" by (rule unat_u8_le)
  have s: "unat (GetSectors t f) \<le> 2^8" by (rule unat_u8_le)
  have "unat (GetCylinders t) * unat (GetHeads t) * unat (GetSectors t f) \<le> (2^16 * 2^8) * 2^8"
    by (intro mult_le_mono c h s)
  moreover have "unat (GetCylinders t) * unat (GetHeads t) * unat (GetSectors t f) \<noteq> 2^32"
  proof
    assume a: "unat (GetCylinders t) * unat (GetHeads t) * unat (GetSectors t f) = 2^32"
    have "unat (GetCylinders t) * unat (GetHeads t) * unat (GetSectors t f)
            \<le> (2^16 - 1) * 2^8 * 2^8"
      using unat_u16_lt[of "GetCylinders t"] by (intro mult_le_mono h s) simp
    with a show False by simp
  qed
  ultimately show ?thesis by (simp add: capacity_def INVALID_SECTOR_def)
qed

text \<open>
  Claim C3.  For every disk type of the registry and both encodings: \<open>CHStoLBA\<close> returns
  \<open>(c * heads + h) * sectors + s\<close> on a valid address (cylinder, head and sector below
  the geometry) and the sentinel \<open>INVALID_SECTOR\<close> otherwise; \<open>LBAtoCHS\<close> recovers the
  address from it; the sentinel is not the number of any sector; and the conversion is a
  bijection between the valid addresses and the sector numbers below the capacity.
\<close>

theorem CHS_LBA_bijection:
  assumes reg: "GetDiskType nIDT = Some t"
  shows "(IsValidCHS t c h s f \<longrightarrow>
            unat (CHStoLBA t c h s f)
              = (unat c * unat (GetHeads t) + unat h) * unat (GetSectors t f) + unat s
          \<and> unat (CHStoLBA t c h s f) < capacity t f
          \<and> LBAtoCHS t (CHStoLBA t c h s f) f = (c, h, s))
       \<and> (\<not> IsValidCHS t c h s f \<longrightarrow> CHStoLBA t c h s f = INVALID_SECTOR)
       \<and> IsValidCHS t c h s f
            = (c < GetCylinders t \<and> h < GetHeads t \<and> s < GetSectors t f)
       \<and> capacity t f \<le> unat INVALID_SECTOR
       \<and> bij_betw (\<lambda>(c, h, s). CHStoLBA t c h s f)
            {(c, h, s). IsValidCHS t c h s f} {lba. unat lba < capacity t f}"
proof -
  note le = registry_sectors[OF reg]
  have inj: "inj_on (\<lambda>(c, h, s). CHStoLBA t c h s f) {(c, h, s). IsValidCHS t c h s f}"
  proof (rule inj_on_inverseI[where g = "\<lambda>lba. LBAtoCHS t lba f"])
    fix x assume "x \<in> {(c, h, s). IsValidCHS t c h s f}"
    then show "LBAtoCHS t (case x of (c, h, s) \<Rightarrow> CHStoLBA t c h s f) f = x"
      by (cases x) (simp add: LBAtoCHS_CHStoLBA[OF _ le])
  qed
  have img: "(\<lambda>(c, h, s). CHStoLBA t c h s f) ` {(c, h, s). IsValidCHS t c h s f}
               = {lba. unat lba < capacity t f}"
  proof (intro equalityI subsetI)
    fix y assume "y \<in> (\<lambda>(c, h, s). CHStoLBA t c h s f) ` {(c, h, s). IsValidCHS t c h s f}"
    then show "y \<in> {lba. unat lba < capacity t f}"
      by (auto simp: CHStoLBA_lt_capacity)
  next
    fix y :: u32 assume "y \<in> {lba. unat lba < capacity t f}"
    then have "unat y < capacity t f" by simp
    from CHStoLBA_LBAtoCHS[OF this le] obtain c h s
      where "IsValidCHS t c h s f" "CHStoLBA t c h s f = y" by blast
    then show "y \<in> (\<lambda>(c, h, s). CHStoLBA t c h s f) ` {(c, h, s). IsValidCHS t c h s f}"
      by (intro image_eqI[where x = "(c, h, s)"]) simp_all
  qed
  have bij: "bij_betw (\<lambda>(c, h, s). CHStoLBA t c h s f)
            {(c, h, s). IsValidCHS t c h s f} {lba. unat lba < capacity t f}"
    unfolding bij_betw_def using inj img by simp
  have inv: "\<not> IsValidCHS t c h s f \<longrightarrow> CHStoLBA t c h s f = INVALID_SECTOR"
    by (simp add: CHStoLBA_def)
  have val: "IsValidCHS t c h s f
            = (c < GetCylinders t \<and> h < GetHeads t \<and> s < GetSectors t f)"
    by (simp add: IsValidCHS_def IsValidCylinder_def IsValidHead_def IsValidSector_def)
  show ?thesis
    using bij capacity_lt_sentinel[of t f] inv val unat_CHStoLBA[of t c h s f]
      CHStoLBA_lt_capacity[of t c h s f] LBAtoCHS_CHStoLBA[OF _ le, of c h s f]
    by blast
qed

theorem CHS_LBA_bijection_witness:
  "GetDiskType 2 = Some m_RP06type
   \<and> IsValidCHS m_RP06type 0 2 2 False
   \<and> CHStoLBA m_RP06type 0 2 2 False = 46
   \<and> LBAtoCHS m_RP06type 46 False = (0, 2, 2)
   \<and> CHStoLBA m_RP06type 0 2 2 True = 42
   \<and> CHStoLBA m_RP06type 0 2 22 False = INVALID_SECTOR
   \<and> capacity m_RP06type False = 340670"
proof -
  have reg: "GetDiskType 2 = Some m_RP06type"
    by (simp add: GetDiskType_def NUMIDTS_def m_apDriveTypes_def IsDisk_def IsRPType_def
        IsRMType_def m_RP06type_def mk_disk_def)
  have v: "IsValidCHS m_RP06type 0 2 2 False"
    by (simp add: IsValidCHS_def IsValidCylinder_def IsValidHead_def IsValidSector_def
        GetCylinders_def GetHeads_def GetSectors_def m_RP06type_def mk_disk_def)
  have nv: "\<not> IsValidCHS m_RP06type 0 2 22 False"
    by (simp add: IsValidCHS_def IsValidCylinder_def IsValidHead_def IsValidSector_def
        GetCylinders_def GetHeads_def GetSectors_def m_RP06type_def mk_disk_def)
  have e: "CHStoLBA m_RP06type 0 2 2 False = 46" "CHStoLBA m_RP06type 0 2 2 True = 42"
    by (simp_all add: CHStoLBA_def IsValidCHS_def IsValidCylinder_def IsValidHead_def IsValidSector_def
        GetCylinders_def GetHeads_def GetSectors_def m_RP06type_def mk_disk_def)
  have c: "capacity m_RP06type False = 340670"
    by (simp add: capacity_def GetCylinders_def GetHeads_def GetSectors_def m_RP06type_def mk_disk_def)
  show ?thesis
    using CHS_LBA_bijection[OF reg, of 0 2 2 False] CHS_LBA_bijection[OF reg, of 0 2 22 False]
      reg v nv e c
    by simp
qed

subsection \<open>The bit fiddler\<close>

lemma unat_of_nat_u32: "k < 2^32 \<Longrightarrow> unat (of_nat k :: u32) = k"
  by (simp add: unat_of_nat)

lemma rd_append:
  assumes "length pre + k < 2^32" "k < length xs"
  shows "rd (pre @ xs) (of_nat (length pre) + of_nat k) = Some (xs ! k)"
proof -
  have "(of_nat (length pre) + of_nat k :: u32) = of_nat (length pre + k)" by simp
  then have "unat (of_nat (length pre) + of_nat k :: u32) = length pre + k"
    using assms(1) by (simp only: unat_of_nat_u32)
  then show ?thesis using assms(2) by (simp add: rd_def nth_append)
qed

lemma of_nat_pos_u32: "0 < k \<Longrightarrow> k < 2^32 \<Longrightarrow> (0 :: u32) < of_nat k"
  by (simp add: word_less_nat_alt unat_of_nat)

lemma len4: "length (a0 # a1 # a2 # a3 # rest) mod 4 = length rest mod 4"
proof -
  have "length (a0 # a1 # a2 # a3 # rest) = length rest + 4" by simp
  then show ?thesis by (simp only: mod_add_self2)
qed

lemma len5: "length (a0 # a1 # a2 # a3 # a4 # rest) mod 5 = length rest mod 5"
proof -
  have "length (a0 # a1 # a2 # a3 # a4 # rest) = length rest + 5" by simp
  then show ?thesis by (simp only: mod_add_self2)
qed

lemma compatible_w36_append:
  assumes "length pre + 4 \<le> 2^32"
  shows "compatible_w36 (pre @ a0 # a1 # a2 # a3 # rest) (of_nat (length pre))
         = Some (push_bit 28 (ucast a0) OR push_bit 20 (ucast a1) OR push_bit 12 (ucast a2)
                  OR push_bit 4 (ucast a3))"
proof -
  have r: "\<And>k. k < 4 \<Longrightarrow> rd (pre @ a0 # a1 # a2 # a3 # rest) (of_nat (length pre) + of_nat k)
            = Some ((a0 # a1 # a2 # a3 # rest) ! k)"
    using assms by (intro rd_append) simp_all
  show ?thesis
    using r[of 0] r[of 1] r[of 2] r[of 3]
    by (simp add: compatible_w36_def)
qed

lemma core_dump_w36_append:
  assumes "length pre + 5 \<le> 2^32"
  shows "core_dump_w36 (pre @ a0 # a1 # a2 # a3 # a4 # rest) (of_nat (length pre))
         = Some (push_bit 28 (ucast a0) OR push_bit 20 (ucast a1) OR push_bit 12 (ucast a2)
                  OR push_bit 4 (ucast a3) OR ucast (a4 AND 15))"
proof -
  have r: "\<And>k. k < 5 \<Longrightarrow> rd (pre @ a0 # a1 # a2 # a3 # a4 # rest) (of_nat (length pre) + of_nat k)
            = Some ((a0 # a1 # a2 # a3 # a4 # rest) ! k)"
    using assms by (intro rd_append) simp_all
  show ?thesis
    using r[of 0] r[of 1] r[of 2] r[of 3] r[of 4]
    by (simp add: core_dump_w36_def)
qed

lemma Fiddle8to18_compatible_forward:
  assumes "length B mod 4 = 0" "length pre + length B < 2^32"
  shows "Fiddle8to18_compatible False (pre @ B @ pad) (of_nat (length B)) (of_nat (length pre)) out
         = Some (Inr (out @ left_right (words_compatible B)))"
  using assms
proof (induction B arbitrary: pre out rule: words_compatible.induct)
  case (1 a0 a1 a2 a3 rest)
  let ?w = "push_bit 28 (ucast a0) OR push_bit 20 (ucast a1) OR push_bit 12 (ucast a2)
                  OR push_bit 4 (ucast a3) :: u64"
  have pos: "(0 :: u32) < of_nat (length (a0 # a1 # a2 # a3 # rest))"
    using 1(3) by (intro of_nat_pos_u32) simp_all
  have w: "compatible_w36 (pre @ (a0 # a1 # a2 # a3 # rest) @ pad) (of_nat (length pre)) = Some ?w"
    using 1(3) compatible_w36_append[of pre a0 a1 a2 a3 "rest @ pad"] by simp
  have c: "(of_nat (length (a0 # a1 # a2 # a3 # rest)) - 4 :: u32) = of_nat (length rest)" by simp
  have n: "(of_nat (length pre) + 4 :: u32) = of_nat (length (pre @ [a0, a1, a2, a3]))" by simp
  have ih: "Fiddle8to18_compatible False ((pre @ [a0, a1, a2, a3]) @ rest @ pad) (of_nat (length rest))
              (of_nat (length (pre @ [a0, a1, a2, a3]))) (out @ [LH36 ?w, RH36 ?w])
            = Some (Inr ((out @ [LH36 ?w, RH36 ?w]) @ left_right (words_compatible rest)))"
  proof (rule 1(1))
    show "length rest mod 4 = 0" using 1(2) by (simp only: len4)
    show "length (pre @ [a0, a1, a2, a3]) + length rest < 2 ^ 32" using 1(3) by simp
  qed
  show ?case
    apply (subst Fiddle8to18_compatible.simps)
    apply (simp only: pos w c n if_True if_False option.case)
    using ih by (simp add: left_right_def)
next
  case "2_1"
  show ?case by (subst Fiddle8to18_compatible.simps) (simp add: left_right_def)
qed simp_all

lemma Fiddle8to18_core_dump_forward:
  assumes "length B mod 5 = 0" "length pre + length B < 2^32"
  shows "Fiddle8to18_core_dump False (pre @ B @ pad) (of_nat (length B)) (of_nat (length pre)) out
         = Some (Inr (out @ left_right (words_core_dump B)))"
  using assms
proof (induction B arbitrary: pre out rule: words_core_dump.induct)
  case (1 a0 a1 a2 a3 a4 rest)
  let ?w = "push_bit 28 (ucast a0) OR push_bit 20 (ucast a1) OR push_bit 12 (ucast a2)
                  OR push_bit 4 (ucast a3) OR ucast (a4 AND 15) :: u64"
  have pos: "(0 :: u32) < of_nat (length (a0 # a1 # a2 # a3 # a4 # rest))"
    using 1(3) by (intro of_nat_pos_u32) simp_all
  have w: "core_dump_w36 (pre @ (a0 # a1 # a2 # a3 # a4 # rest) @ pad) (of_nat (length pre)) = Some ?w"
    using 1(3) core_dump_w36_append[of pre a0 a1 a2 a3 a4 "rest @ pad"] by simp
  have c: "(of_nat (length (a0 # a1 # a2 # a3 # a4 # rest)) - 5 :: u32) = of_nat (length rest)" by simp
  have n: "(of_nat (length pre) + 5 :: u32) = of_nat (length (pre @ [a0, a1, a2, a3, a4]))" by simp
  have ih: "Fiddle8to18_core_dump False ((pre @ [a0, a1, a2, a3, a4]) @ rest @ pad) (of_nat (length rest))
              (of_nat (length (pre @ [a0, a1, a2, a3, a4]))) (out @ [LH36 ?w, RH36 ?w])
            = Some (Inr ((out @ [LH36 ?w, RH36 ?w]) @ left_right (words_core_dump rest)))"
  proof (rule 1(1))
    show "length rest mod 5 = 0" using 1(2) by (simp only: len5)
    show "length (pre @ [a0, a1, a2, a3, a4]) + length rest < 2 ^ 32" using 1(3) by simp
  qed
  show ?case
    apply (subst Fiddle8to18_core_dump.simps)
    apply (simp only: pos w c n if_True if_False option.case)
    using ih by (simp add: left_right_def)
next
  case "2_1"
  show ?case by (subst Fiddle8to18_core_dump.simps) (simp add: left_right_def)
qed simp_all

lemma halfword_pair_append:
  assumes "length pre + 2 \<le> 2^32"
  shows "halfword_pair (pre @ h # l # rest) (of_nat (length pre)) = Some (MK36 h l)"
proof -
  have r: "\<And>k. k < 2 \<Longrightarrow> rd (pre @ h # l # rest) (of_nat (length pre) + of_nat k)
            = Some ((h # l # rest) ! k)"
    using assms by (intro rd_append) simp_all
  show ?thesis
    using r[of 0] r[of 1] by (simp add: halfword_pair_def)
qed

lemma Fiddle18to8_compatible_left_right:
  assumes "length pre + 2 * length ws < 2^32"
  shows "Fiddle18to8_compatible (pre @ left_right ws @ pad) (of_nat (2 * length ws)) (of_nat (length pre)) out
         = Some (Inr (out @ concat (map (\<lambda>w. compatible_bytes (MK36 (LH36 w) (RH36 w))) ws)))"
  using assms
proof (induction ws arbitrary: pre out)
  case Nil
  show ?case by (subst Fiddle18to8_compatible.simps) (simp add: left_right_def)
next
  case (Cons w ws)
  have pos: "(0 :: u32) < of_nat (2 * length (w # ws))"
    using Cons(2) by (intro of_nat_pos_u32) simp_all
  have p: "halfword_pair (pre @ left_right (w # ws) @ pad) (of_nat (length pre)) = Some (MK36 (LH36 w) (RH36 w))"
    using Cons(2) halfword_pair_append[of pre "LH36 w" "RH36 w" "left_right ws @ pad"]
    by (simp add: left_right_def)
  have c: "(of_nat (2 * length (w # ws)) - 2 :: u32) = of_nat (2 * length ws)" by simp
  have n: "(of_nat (length pre) + 2 :: u32) = of_nat (length (pre @ [LH36 w, RH36 w]))" by simp
  have e: "pre @ left_right (w # ws) @ pad = (pre @ [LH36 w, RH36 w]) @ left_right ws @ pad"
    by (simp add: left_right_def)
  have ih: "Fiddle18to8_compatible ((pre @ [LH36 w, RH36 w]) @ left_right ws @ pad) (of_nat (2 * length ws))
              (of_nat (length (pre @ [LH36 w, RH36 w]))) (out @ compatible_bytes (MK36 (LH36 w) (RH36 w)))
            = Some (Inr ((out @ compatible_bytes (MK36 (LH36 w) (RH36 w)))
                 @ concat (map (\<lambda>w. compatible_bytes (MK36 (LH36 w) (RH36 w))) ws)))"
    using Cons(2) by (intro Cons(1)) simp
  show ?case
    apply (subst Fiddle18to8_compatible.simps)
    apply (simp only: pos p c n if_True option.case)
    using ih unfolding e by simp
qed

lemma Fiddle18to8_core_dump_left_right:
  assumes "length pre + 2 * length ws < 2^32"
  shows "Fiddle18to8_core_dump (pre @ left_right ws @ pad) (of_nat (2 * length ws)) (of_nat (length pre)) out
         = Some (Inr (out @ concat (map (\<lambda>w. core_dump_bytes (MK36 (LH36 w) (RH36 w))) ws)))"
  using assms
proof (induction ws arbitrary: pre out)
  case Nil
  show ?case by (subst Fiddle18to8_core_dump.simps) (simp add: left_right_def)
next
  case (Cons w ws)
  have pos: "(0 :: u32) < of_nat (2 * length (w # ws))"
    using Cons(2) by (intro of_nat_pos_u32) simp_all
  have p: "halfword_pair (pre @ left_right (w # ws) @ pad) (of_nat (length pre)) = Some (MK36 (LH36 w) (RH36 w))"
    using Cons(2) halfword_pair_append[of pre "LH36 w" "RH36 w" "left_right ws @ pad"]
    by (simp add: left_right_def)
  have c: "(of_nat (2 * length (w # ws)) - 2 :: u32) = of_nat (2 * length ws)" by simp
  have n: "(of_nat (length pre) + 2 :: u32) = of_nat (length (pre @ [LH36 w, RH36 w]))" by simp
  have e: "pre @ left_right (w # ws) @ pad = (pre @ [LH36 w, RH36 w]) @ left_right ws @ pad"
    by (simp add: left_right_def)
  have ih: "Fiddle18to8_core_dump ((pre @ [LH36 w, RH36 w]) @ left_right ws @ pad) (of_nat (2 * length ws))
              (of_nat (length (pre @ [LH36 w, RH36 w]))) (out @ core_dump_bytes (MK36 (LH36 w) (RH36 w)))
            = Some (Inr ((out @ core_dump_bytes (MK36 (LH36 w) (RH36 w)))
                 @ concat (map (\<lambda>w. core_dump_bytes (MK36 (LH36 w) (RH36 w))) ws)))"
    using Cons(2) by (intro Cons(1)) simp
  show ?case
    apply (subst Fiddle18to8_core_dump.simps)
    apply (simp only: pos p c n if_True option.case)
    using ih unfolding e by simp
qed

lemma m18: "(0x3FFFF :: 'a::len word) = mask 18" by (simp add: mask_eq_exp_minus_1)
lemma m18h: "(0xFFFFC0000 :: u64) = push_bit 18 (mask 18)" by (simp add: mask_eq_exp_minus_1)
lemma m8: "(0xFF :: 'a::len word) = mask 8" by (simp add: mask_eq_exp_minus_1)
lemma m4: "(0x0F :: 'a::len word) = mask 4" by (simp add: mask_eq_exp_minus_1)

lemma MK36_LH_RH: "MK36 (LH36 w) (RH36 w) = w AND mask 36"
  unfolding MK36_def LH36_def RH36_def m18 m18h
  by (rule bit_eqI) (auto simp: bit_simps)

lemma byte_of_w36:
  fixes a0 a1 a2 a3 a4 :: u8 and x :: u64
  assumes "x = push_bit 28 (ucast a0) OR push_bit 20 (ucast a1) OR push_bit 12 (ucast a2)
                  OR push_bit 4 (ucast a3) OR ucast (a4 AND 15)"
  shows "(ucast (drop_bit 28 (x AND mask 36) AND 0xFF) :: u8) = a0"
    "(ucast (drop_bit 20 (x AND mask 36) AND 0xFF) :: u8) = a1"
    "(ucast (drop_bit 12 (x AND mask 36) AND 0xFF) :: u8) = a2"
    "(ucast (drop_bit 4 (x AND mask 36) AND 0xFF) :: u8) = a3"
    "(ucast ((x AND mask 36) AND 0x0F) :: u8) = a4 AND 15"
  unfolding assms m8 m4
  by (rule bit_eqI; auto simp: bit_simps dest: bit_imp_le_length)+

lemma core_dump_bytes_w36:
  "core_dump_bytes (MK36 (LH36 (push_bit 28 (ucast a0) OR push_bit 20 (ucast a1)
        OR push_bit 12 (ucast a2) OR push_bit 4 (ucast a3) OR ucast (a4 AND 15)))
      (RH36 (push_bit 28 (ucast a0) OR push_bit 20 (ucast a1)
        OR push_bit 12 (ucast a2) OR push_bit 4 (ucast a3) OR ucast (a4 AND 15))))
   = [a0, a1, a2, a3, a4 AND (15 :: u8)]"
  unfolding core_dump_bytes_def MK36_LH_RH
  by (simp only: byte_of_w36[OF refl])

lemma compatible_bytes_w36:
  "compatible_bytes (MK36 (LH36 (push_bit 28 (ucast a0) OR push_bit 20 (ucast a1)
        OR push_bit 12 (ucast a2) OR push_bit 4 (ucast a3)))
      (RH36 (push_bit 28 (ucast a0) OR push_bit 20 (ucast a1)
        OR push_bit 12 (ucast a2) OR push_bit 4 (ucast (a3 :: u8)))))
   = [a0, a1, a2, a3]"
proof -
  have e: "push_bit 28 (ucast a0) OR push_bit 20 (ucast a1) OR push_bit 12 (ucast a2)
              OR push_bit 4 (ucast a3)
           = (push_bit 28 (ucast a0) OR push_bit 20 (ucast a1) OR push_bit 12 (ucast a2)
              OR push_bit 4 (ucast a3) OR ucast ((0 :: u8) AND 15) :: u64)" by simp
  show ?thesis
    unfolding compatible_bytes_def MK36_LH_RH
    by (subst (1 2 3 4) e) (simp only: byte_of_w36[OF refl])
qed

lemma bytes_words_compatible:
  "length B mod 4 = 0 \<Longrightarrow>
   concat (map (\<lambda>w. compatible_bytes (MK36 (LH36 w) (RH36 w))) (words_compatible B)) = B"
proof (induction B rule: words_compatible.induct)
  case (1 a0 a1 a2 a3 rest)
  have "length rest mod 4 = 0" using 1(2) by (simp only: len4)
  then show ?case using 1(1) by (simp add: compatible_bytes_w36)
qed simp_all

lemma bytes_words_core_dump:
  "length B mod 5 = 0 \<Longrightarrow>
   concat (map (\<lambda>w. core_dump_bytes (MK36 (LH36 w) (RH36 w))) (words_core_dump B)) = low_nibble_5th B"
proof (induction B rule: words_core_dump.induct)
  case (1 a0 a1 a2 a3 a4 rest)
  have "length rest mod 5 = 0" using 1(2) by (simp only: len5)
  then show ?case using 1(1) by (simp add: core_dump_bytes_w36)
qed simp_all

lemma length_words_compatible: "length B mod 4 = 0 \<Longrightarrow> 4 * length (words_compatible B) = length B"
proof (induction B rule: words_compatible.induct)
  case (1 a0 a1 a2 a3 rest)
  have "length rest mod 4 = 0" using 1(2) by (simp only: len4)
  then show ?case using 1(1) by simp
qed simp_all

lemma length_words_core_dump: "length B mod 5 = 0 \<Longrightarrow> 5 * length (words_core_dump B) = length B"
proof (induction B rule: words_core_dump.induct)
  case (1 a0 a1 a2 a3 a4 rest)
  have "length rest mod 5 = 0" using 1(2) by (simp only: len5)
  then show ?case using 1(1) by simp
qed simp_all

lemma length_left_right: "length (left_right ws) = 2 * length ws"
  by (induction ws) (simp_all add: left_right_def)

lemma round4:
  assumes "length B mod 4 = 0"
  shows "((of_nat (length B) :: u32) + 3) AND NOT 3 = of_nat (length B)"
proof -
  have "4 dvd length B" using assms by (simp only: mod_eq_0_iff_dvd)
  then obtain k where k: "length B = 4 * k" by (rule dvdE)
  have e: "(of_nat (length B) :: u32) = push_bit 2 (of_nat k)"
    unfolding k by (simp add: push_bit_eq_mult)
  have m: "(3 :: u32) = mask 2" by (simp add: mask_eq_exp_minus_1)
  have d: "(push_bit 2 (of_nat k) :: u32) + 3 = push_bit 2 (of_nat k) OR 3"
    unfolding m by (rule disjunctive_add) (auto simp: bit_simps)
  have "(push_bit 2 (of_nat k) OR 3 :: u32) AND NOT 3 = push_bit 2 (of_nat k)"
    unfolding m by (rule bit_eqI) (auto simp: bit_simps)
  then show ?thesis unfolding e d .
qed

lemma round4':
  assumes "length B mod 4 = 0"
  shows "((of_nat (length B) :: u32) + 3) AND - 4 = of_nat (length B)"
  using round4[OF assms] by simp

lemma even_and_1: "(of_nat (2 * k) :: u32) AND 1 = 0"
  by (simp add: and_one_eq mod_2_eq_odd)

lemma round5:
  assumes "5 * k + 4 < 2^32"
  shows "((of_nat k :: u32) * 5 + 4) div 5 = of_nat k"
proof -
  have a: "(of_nat k :: u32) * 5 + 4 = of_nat (5 * k + 4)" by simp
  have u: "unat (of_nat (5 * k + 4) :: u32) = 5 * k + 4"
    using assms by (rule unat_of_nat_u32)
  have u5: "unat (5 :: u32) = 5" by simp
  have "unat (of_nat (5 * k + 4) div 5 :: u32) = k"
    unfolding unat_div u u5 by simp
  moreover have "unat (of_nat k :: u32) = k" using assms by (intro unat_of_nat_u32) simp
  ultimately show ?thesis unfolding a by (simp only: word_unat_eq_iff)
qed

text \<open>
  Claim C2.  The fiddler round trip.  A record \<open>B\<close> whose length is a multiple of four,
  packed forward in industry compatible mode and unpacked again, comes back unchanged;
  a record whose length is a multiple of five, packed forward in core dump mode and
  unpacked again, comes back with the high nibble of every fifth byte cleared and every
  other bit unchanged.  The record may be followed by any slack (\<open>pad\<close>) in its buffer,
  and so may the half words.  The lengths are those a \<open>uint32_t\<close> count can carry
  through the source's own rounding: below \<open>2 ^ 32\<close> for industry compatible, and
  \<open>5 * length B + 4\<close> below \<open>2 ^ 32\<close> for core dump, whose rounding multiplies by five.
\<close>

theorem Fiddler_round_trip:
  "(length B mod 4 = 0 \<and> length B < 2^32 \<longrightarrow>
      Fiddle8to18 TMAM_10_COMPATIBLE (B @ pad) (of_nat (length B)) False
        = Some (Inr (left_right (words_compatible B)))
      \<and> Fiddle18to8 TMAM_10_COMPATIBLE (left_right (words_compatible B) @ pad')
          (of_nat (length (left_right (words_compatible B)))) = Some (Inr B))
   \<and> (length B mod 5 = 0 \<and> 5 * length B + 4 < 2^32 \<longrightarrow>
      Fiddle8to18 TMAM_10_CORE_DUMP (B @ pad) (of_nat (length B)) False
        = Some (Inr (left_right (words_core_dump B)))
      \<and> Fiddle18to8 TMAM_10_CORE_DUMP (left_right (words_core_dump B) @ pad')
          (of_nat (length (left_right (words_core_dump B)))) = Some (Inr (low_nibble_5th B)))"
proof (intro conjI impI; elim conjE)
  assume m: "length B mod 4 = 0" and l: "length B < 2^32"
  show "Fiddle8to18 TMAM_10_COMPATIBLE (B @ pad) (of_nat (length B)) False
        = Some (Inr (left_right (words_compatible B)))"
    using Fiddle8to18_compatible_forward[of B "[]" pad "[]"] m l
    by (simp add: Fiddle8to18_def TMAM_10_COMPATIBLE_def TMAM_10_CORE_DUMP_def round4' Let_def)
  have ev: "(of_nat (2 * length (words_compatible B)) :: u32) AND 1 = 0"
    by (rule even_and_1)
  have b: "0 + 2 * length (words_compatible B) < 2^32"
    using length_words_compatible[OF m] l by simp
  show "Fiddle18to8 TMAM_10_COMPATIBLE (left_right (words_compatible B) @ pad')
          (of_nat (length (left_right (words_compatible B)))) = Some (Inr B)"
    using Fiddle18to8_compatible_left_right[of "[]" "words_compatible B" pad' "[]"] b ev
    by (simp add: Fiddle18to8_def TMAM_10_COMPATIBLE_def TMAM_10_CORE_DUMP_def
        length_left_right bytes_words_compatible[OF m])
next
  assume m: "length B mod 5 = 0" and l: "5 * length B + 4 < 2^32"
  have l': "length B < 2^32" using l by simp
  show "Fiddle8to18 TMAM_10_CORE_DUMP (B @ pad) (of_nat (length B)) False
        = Some (Inr (left_right (words_core_dump B)))"
    using Fiddle8to18_core_dump_forward[of B "[]" pad "[]"] m l' round5[OF l]
    by (simp add: Fiddle8to18_def TMAM_10_CORE_DUMP_def Let_def)
  have ev: "(of_nat (2 * length (words_core_dump B)) :: u32) AND 1 = 0"
    by (rule even_and_1)
  have b: "0 + 2 * length (words_core_dump B) < 2^32"
    using length_words_core_dump[OF m] l by simp
  show "Fiddle18to8 TMAM_10_CORE_DUMP (left_right (words_core_dump B) @ pad')
          (of_nat (length (left_right (words_core_dump B)))) = Some (Inr (low_nibble_5th B))"
    using Fiddle18to8_core_dump_left_right[of "[]" "words_core_dump B" pad' "[]"] b ev
    by (simp add: Fiddle18to8_def TMAM_10_CORE_DUMP_def
        length_left_right bytes_words_core_dump[OF m])
qed

theorem Fiddler_round_trip_witness:
  "length [0x12, 0x34, 0x56, 0x78 :: u8] mod 4 = 0
   \<and> Fiddle8to18 TMAM_10_COMPATIBLE ([0x12, 0x34, 0x56, 0x78] @ []) 4 False = Some (Inr [0x048D1, 0x16780])
   \<and> Fiddle18to8 TMAM_10_COMPATIBLE ([0x048D1, 0x16780] @ []) 2 = Some (Inr [0x12, 0x34, 0x56, 0x78])
   \<and> length [0x12, 0x34, 0x56, 0x78, 0xAB :: u8] mod 5 = 0
   \<and> Fiddle8to18 TMAM_10_CORE_DUMP ([0x12, 0x34, 0x56, 0x78, 0xAB] @ []) 5 False = Some (Inr [0x048D1, 0x1678B])
   \<and> Fiddle18to8 TMAM_10_CORE_DUMP ([0x048D1, 0x1678B] @ []) 2 = Some (Inr [0x12, 0x34, 0x56, 0x78, 0x0B])"
  using Fiddler_round_trip[of "[0x12, 0x34, 0x56, 0x78]" "[]" "[]"]
    Fiddler_round_trip[of "[0x12, 0x34, 0x56, 0x78, 0xAB]" "[]" "[]"]
  by (simp add: left_right_def LH36_def RH36_def)

text \<open>
  Claim C1 says that the reverse walk sends the words of the forward walk in reverse
  order with the halves swapped, its first word assembled from the last group of the
  record.  The source starts the reverse walk at the rounded length itself, one group
  past the last group.  Evaluated on a record of two groups: with no slack after the
  record the first read is outside the array; with one group of slack (the bytes 9) the
  half words are those of the slack followed by those of the second group, and the
  group at index 0 is never sent.  The same holds in core dump mode.
\<close>

theorem Fiddle8to18_reverse_starts_past_record:
  "Fiddle8to18 TMAM_10_COMPATIBLE [1, 2, 3, 4, 5, 6, 7, 8] 8 False
     = Some (Inr (left_right (words_compatible [1, 2, 3, 4, 5, 6, 7, 8])))
   \<and> Fiddle8to18 TMAM_10_COMPATIBLE [1, 2, 3, 4, 5, 6, 7, 8] 8 True = Some (Inl OutOfBounds)
   \<and> Fiddle8to18 TMAM_10_COMPATIBLE ([1, 2, 3, 4, 5, 6, 7, 8] @ [9, 9, 9, 9]) 8 True
     = Some (Inr (right_left (rev (words_compatible [5, 6, 7, 8, 9, 9, 9, 9]))))
   \<and> right_left (rev (words_compatible [5, 6, 7, 8, 9, 9, 9, 9]))
     \<noteq> right_left (rev (words_compatible [1, 2, 3, 4, 5, 6, 7, 8]))
   \<and> Fiddle8to18 TMAM_10_CORE_DUMP [1, 2, 3, 4, 5] 5 True = Some (Inl OutOfBounds)
   \<and> Fiddle8to18 TMAM_10_CORE_DUMP ([1, 2, 3, 4, 5] @ [9, 9, 9, 9, 9]) 5 True
     = Some (Inr (right_left (rev (words_core_dump [9, 9, 9, 9, 9]))))
   \<and> right_left (rev (words_core_dump [9, 9, 9, 9, 9]))
     \<noteq> right_left (rev (words_core_dump [1, 2, 3, 4, 5]))"
  by code_simp

subsection \<open>Waiting for a command\<close>

lemma sentinels_not_valid:
  "\<not> IsCommandValid TIMEOUT" "\<not> IsCommandValid ERROR" "TIMEOUT \<noteq> ERROR"
  by (simp_all add: IsCommandValid_def ISSET_def TIMEOUT_def ERROR_def VALID_def)

text \<open>
  Claim C4.  On an open bridge \<open>WaitCommand\<close> returns, and what it returns is the
  \<open>TIMEOUT\<close> sentinel 0, the \<open>ERROR\<close> sentinel \<open>0x0FFFFFFF\<close> or a word with the validity
  bit set; the sentinels have the validity bit clear and differ.  Offline it sleeps for
  the timeout and returns \<open>TIMEOUT\<close> without reading the FIFO.  Otherwise a valid first
  read is returned as it is; after an invalid one, a wait that times out or is cancelled
  gives \<open>TIMEOUT\<close>, a successful wait gives the second read if that is valid and
  \<open>TIMEOUT\<close> if not (a spurious interrupt), and every other result of the wait, or a
  failure to enable the interrupt, gives \<open>ERROR\<close>.
\<close>

theorem WaitCommand_outcomes:
  "TIMEOUT = 0 \<and> ERROR = 0x0FFFFFFF
   \<and> \<not> IsCommandValid TIMEOUT \<and> \<not> IsCommandValid ERROR \<and>
   (is_open b \<longrightarrow>
     (\<exists>ret b'. WaitCommand lTimeout b = Inr (ret, b')
        \<and> (IsCommandValid ret \<or> ret = TIMEOUT \<or> ret = ERROR)
        \<and> (is_offline b \<longrightarrow>
              ret = TIMEOUT \<and> effects b' = effects b @ [SleepMs lTimeout]
              \<and> command_reads b' = command_reads b)
        \<and> (\<not> is_offline b \<and> IsCommandValid (command_fifo b (command_reads b)) \<longrightarrow>
              ret = command_fifo b (command_reads b) \<and> effects b' = effects b
              \<and> command_reads b' = command_reads b + 1)
        \<and> (\<not> is_offline b \<and> \<not> IsCommandValid (command_fifo b (command_reads b)) \<longrightarrow>
              (enable_result b \<noteq> ApiSuccess \<longrightarrow> ret = ERROR)
              \<and> (enable_result b = ApiSuccess \<longrightarrow>
                    (wait_result b = ApiWaitTimeout \<or> wait_result b = ApiWaitCanceled
                       \<longrightarrow> ret = TIMEOUT)
                    \<and> (wait_result b = ApiSuccess
                           \<and> IsCommandValid (command_fifo b (command_reads b + 1))
                       \<longrightarrow> ret = command_fifo b (command_reads b + 1)
                           \<and> command_reads b' = command_reads b + 2)
                    \<and> (wait_result b = ApiSuccess
                           \<and> \<not> IsCommandValid (command_fifo b (command_reads b + 1))
                       \<longrightarrow> ret = TIMEOUT)
                    \<and> (\<forall>k. wait_result b = ApiOther k \<longrightarrow> ret = ERROR)))))"
proof -
  have "TIMEOUT = 0" "ERROR = 0x0FFFFFFF" by (simp_all add: TIMEOUT_def ERROR_def)
  moreover note sentinels_not_valid(1,2)
  moreover have "is_open b \<longrightarrow>
     (\<exists>ret b'. WaitCommand lTimeout b = Inr (ret, b')
        \<and> (IsCommandValid ret \<or> ret = TIMEOUT \<or> ret = ERROR)
        \<and> (is_offline b \<longrightarrow>
              ret = TIMEOUT \<and> effects b' = effects b @ [SleepMs lTimeout]
              \<and> command_reads b' = command_reads b)
        \<and> (\<not> is_offline b \<and> IsCommandValid (command_fifo b (command_reads b)) \<longrightarrow>
              ret = command_fifo b (command_reads b) \<and> effects b' = effects b
              \<and> command_reads b' = command_reads b + 1)
        \<and> (\<not> is_offline b \<and> \<not> IsCommandValid (command_fifo b (command_reads b)) \<longrightarrow>
              (enable_result b \<noteq> ApiSuccess \<longrightarrow> ret = ERROR)
              \<and> (enable_result b = ApiSuccess \<longrightarrow>
                    (wait_result b = ApiWaitTimeout \<or> wait_result b = ApiWaitCanceled
                       \<longrightarrow> ret = TIMEOUT)
                    \<and> (wait_result b = ApiSuccess
                           \<and> IsCommandValid (command_fifo b (command_reads b + 1))
                       \<longrightarrow> ret = command_fifo b (command_reads b + 1)
                           \<and> command_reads b' = command_reads b + 2)
                    \<and> (wait_result b = ApiSuccess
                           \<and> \<not> IsCommandValid (command_fifo b (command_reads b + 1))
                       \<longrightarrow> ret = TIMEOUT)
                    \<and> (\<forall>k. wait_result b = ApiOther k \<longrightarrow> ret = ERROR))))"
    by (cases "wait_result b")
       (auto simp: WaitCommand_def Let_def read_command_fifo_def effect_def split: prod.splits)
  ultimately show ?thesis by (intro conjI)
qed

theorem WaitCommand_outcomes_witness:
  "is_open \<lparr>is_open = True, is_offline = False, alRegisters = (\<lambda>u r. 0), lVHDL = 0x10000,
      command_fifo = (\<lambda>k. if k = 1 then 0x80000071 else 0), command_reads = 0,
      data_fifo = (\<lambda>k. 0), data_reads = 0, fifo_status = (\<lambda>k. 0), status_reads = 0,
      enable_result = ApiSuccess, wait_result = ApiSuccess, effects = []\<rparr>
   \<and> (\<exists>b'. WaitCommand 1000 \<lparr>is_open = True, is_offline = False, alRegisters = (\<lambda>u r. 0),
      lVHDL = 0x10000,
      command_fifo = (\<lambda>k. if k = 1 then 0x80000071 else 0), command_reads = 0,
      data_fifo = (\<lambda>k. 0), data_reads = 0, fifo_status = (\<lambda>k. 0), status_reads = 0,
      enable_result = ApiSuccess, wait_result = ApiSuccess, effects = []\<rparr> = Inr (0x80000071, b')
      \<and> command_reads b' = 2)
   \<and> (\<exists>b'. WaitCommand 1000 \<lparr>is_open = True, is_offline = True, alRegisters = (\<lambda>u r. 0),
      lVHDL = 0x10000,
      command_fifo = (\<lambda>k. 0x80000071), command_reads = 0,
      data_fifo = (\<lambda>k. 0), data_reads = 0, fifo_status = (\<lambda>k. 0), status_reads = 0,
      enable_result = ApiSuccess, wait_result = ApiSuccess, effects = []\<rparr> = Inr (TIMEOUT, b')
      \<and> effects b' = [SleepMs 1000])"
  using WaitCommand_outcomes[of "\<lparr>is_open = True, is_offline = False, alRegisters = (\<lambda>u r. 0),
      lVHDL = 0x10000,
      command_fifo = (\<lambda>k. if k = 1 then 0x80000071 else 0), command_reads = 0,
      data_fifo = (\<lambda>k. 0), data_reads = 0, fifo_status = (\<lambda>k. 0), status_reads = 0,
      enable_result = ApiSuccess, wait_result = ApiSuccess, effects = []\<rparr>" 1000]
    WaitCommand_outcomes[of "\<lparr>is_open = True, is_offline = True, alRegisters = (\<lambda>u r. 0),
      lVHDL = 0x10000,
      command_fifo = (\<lambda>k. 0x80000071), command_reads = 0,
      data_fifo = (\<lambda>k. 0), data_reads = 0, fifo_status = (\<lambda>k. 0), status_reads = 0,
      enable_result = ApiSuccess, wait_result = ApiSuccess, effects = []\<rparr>" 1000]
  by (auto simp: IsCommandValid_def ISSET_def VALID_def TIMEOUT_def)

subsection \<open>Steps of the drive on an open bridge\<close>

lemma andthen_Inr [simp]: "andthen (Inr x) f = f x"
  by (simp add: andthen_def)

lemma andthen_Inl [simp]: "andthen (Inl e) f = Inl e"
  by (simp add: andthen_def)

lemma store_register_fields [simp]:
  "is_open (store_register u r v b) = is_open b"
  "is_offline (store_register u r v b) = is_offline b"
  "lVHDL (store_register u r v b) = lVHDL b"
  "data_fifo (store_register u r v b) = data_fifo b"
  "data_reads (store_register u r v b) = data_reads b"
  "fifo_status (store_register u r v b) = fifo_status b"
  "status_reads (store_register u r v b) = status_reads b"
  "effects (store_register u r v b) = effects b @ [RegisterStore u r v]"
  "alRegisters (store_register u r v b) u' r' =
     (if u' = u \<and> r' = r then v else alRegisters b u' r')"
  by (simp_all add: store_register_def)

lemma effect_fields [simp]:
  "is_open (effect e b) = is_open b"
  "is_offline (effect e b) = is_offline b"
  "lVHDL (effect e b) = lVHDL b"
  "data_fifo (effect e b) = data_fifo b"
  "data_reads (effect e b) = data_reads b"
  "fifo_status (effect e b) = fifo_status b"
  "status_reads (effect e b) = status_reads b"
  "effects (effect e b) = effects b @ [e]"
  "alRegisters (effect e b) = alRegisters b"
  by (simp_all add: effect_def)

lemma tape_registers_lt_32:
  "TMDCR < 32" "TMDIR < 32" "TMTCR < 32" "TMBCR < 32" "TMMIR < 32" "TMMCR0 + 0 < 32"
  "TMMCR0 < 32" "RPDS < 32" "RPDA < 32" "RPDC < 32"
  by (simp_all add: TMDCR_def TMDIR_def TMTCR_def TMBCR_def TMMIR_def TMMCR0_def
        RPDS_def RPDA_def RPDC_def)

lemma ReadMBR_open:
  "is_open b \<Longrightarrow> u < 8 \<Longrightarrow> r < 32 \<Longrightarrow> ReadMBR u r b = Inr (LOWORD (alRegisters b u r))"
  by (simp add: ReadMBR_def mbr_assert_def)

lemma WriteMBR_open:
  "is_open b \<Longrightarrow> u < 8 \<Longrightarrow> r < 32 \<Longrightarrow> WriteMBR u r v b = Inr (store_register u r (ucast v) b)"
  by (simp add: WriteMBR_def mbr_assert_def)

lemma ClearBitMBR_open:
  "is_open b \<Longrightarrow> u < 8 \<Longrightarrow> r < 32 \<Longrightarrow>
   ClearBitMBR u r m b =
     Inr (LOWORD (alRegisters b u r AND MKLONG 0 (NOT m)),
          store_register u r (alRegisters b u r AND MKLONG 0 (NOT m)) b)"
  by (simp add: ClearBitMBR_def mbr_assert_def Let_def)

lemma SetDataInt_open:
  "is_open (m_UPE d) \<Longrightarrow> m_nUnit d < 8 \<Longrightarrow>
   SetDataInt c 0 f d =
     Inr (d\<lparr>m_UPE := store_register (m_nUnit d) TMDIR (ucast (MK_TMDIR c f OR TMDIR_DPR)) (m_UPE d)\<rparr>)"
  by (simp add: SetDataInt_def upe_do_def WriteMBR_open tape_registers_lt_32)

lemma SetMotionInt_open:
  "is_open (m_UPE d) \<Longrightarrow> m_nUnit d < 8 \<Longrightarrow>
   SetMotionInt c s f d =
     Inr (d\<lparr>m_UPE := store_register (m_nUnit d) TMMIR (ucast (MK_TMMIR c s f)) (m_UPE d)\<rparr>)"
  by (simp add: SetMotionInt_def upe_do_def WriteMBR_open tape_registers_lt_32)

lemma ClearMotionGO_open:
  "is_open (m_UPE d) \<Longrightarrow> m_nUnit d < 8 \<Longrightarrow>
   ClearMotionGO 0 d =
     Inr (d\<lparr>m_UPE := store_register (m_nUnit d) TMMCR0
                        (alRegisters (m_UPE d) (m_nUnit d) TMMCR0 AND MKLONG 0 (NOT 1)) (m_UPE d)\<rparr>)"
  by (simp add: ClearMotionGO_def upe_drop_def ClearBitMBR_open tape_registers_lt_32)

lemma SetMotionCount_open:
  "is_open (m_UPE d) \<Longrightarrow> m_nUnit d < 8 \<Longrightarrow>
   SetMotionCount n 0 d =
     Inr (d\<lparr>m_UPE := store_register (m_nUnit d) TMMCR0
                        (ucast (MKWORD n (LOBYTE (LOWORD (alRegisters (m_UPE d) (m_nUnit d) TMMCR0)))))
                        (m_UPE d)\<rparr>)"
  by (simp add: SetMotionCount_def upe_do_def WriteMBR_open ReadMBR_open tape_registers_lt_32)

lemma EmptyTransfer_open:
  "is_open b \<Longrightarrow>
   EmptyTransfer True b = Inr (effect (DataFIFOStore 0) (effect (SendCountStore FORCE_EXCEPTION) b))"
  by (simp add: EmptyTransfer_def)

lemma empty_exception_open:
  "is_open (m_UPE d) \<Longrightarrow> m_nUnit d < 8 \<Longrightarrow>
   empty_exception c f d =
     Inr (d\<lparr>m_UPE := effect (DataFIFOStore 0) (effect (SendCountStore FORCE_EXCEPTION)
                 (store_register (m_nUnit d) TMDIR (ucast (MK_TMDIR c f OR TMDIR_DPR)) (m_UPE d)))\<rparr>)"
  by (simp add: empty_exception_def seq_def SetDataInt_open upe_do_def EmptyTransfer_open)

lemma motion_interrupt_open:
  "is_open (m_UPE d) \<Longrightarrow> m_nUnit d < 8 \<Longrightarrow>
   seq (ClearMotionGO 0) (SetMotionInt c 0 f) d =
     Inr (d\<lparr>m_UPE := store_register (m_nUnit d) TMMIR (ucast (MK_TMMIR c 0 f))
                 (store_register (m_nUnit d) TMMCR0
                    (alRegisters (m_UPE d) (m_nUnit d) TMMCR0 AND MKLONG 0 (NOT 1)) (m_UPE d))\<rparr>)"
  by (simp add: seq_def ClearMotionGO_open SetMotionInt_open)

lemma LOWORD_ucast_u16 [simp]: "LOWORD (ucast (w :: u16) :: u32) = w"
proof -
  have m: "(0xFFFF :: u32) = mask 16" by (simp add: mask_eq_exp_minus_1)
  show ?thesis unfolding LOWORD_def m by (rule bit_eqI) (auto simp: bit_simps)
qed

lemma MKLONG_0 [simp]: "MKLONG 0 w = ucast w"
  by (simp add: MKLONG_def)

lemma LOWORD_and_ucast: "LOWORD (x AND (ucast (m :: u16) :: u32)) = LOWORD x AND m"
proof -
  have m: "(0xFFFF :: u32) = mask 16" by (simp add: mask_eq_exp_minus_1)
  show ?thesis unfolding LOWORD_def m by (rule bit_eqI) (auto simp: bit_simps)
qed

subsection \<open>Transfer commands that are rejected\<close>

lemma unat_TCR_fields:
  "unat (TCR_slave n) = unat n mod 4"
  "unat (TCR_record_count n) = unat n div 4 mod 64"
  "unat (TCR_skip_count n) = unat n div 256 mod 16"
  "unat (TCR_format n) = unat n div 4096 mod 8"
proof -
  have a: "(0x7000 :: u16) = push_bit 12 (mask 3)" "(0x0F00 :: u16) = push_bit 8 (mask 4)"
    "(0x00FC :: u16) = push_bit 2 (mask 6)" "(0x0003 :: u16) = mask 2"
    by (simp_all add: mask_eq_exp_minus_1)
  have f: "drop_bit 12 (n AND push_bit 12 (mask 3)) = take_bit 3 (drop_bit 12 n)"
    by (rule bit_eqI) (auto simp: bit_simps)
  have s: "drop_bit 8 (n AND push_bit 8 (mask 4)) = take_bit 4 (drop_bit 8 n)"
    by (rule bit_eqI) (auto simp: bit_simps)
  have r: "drop_bit 2 (n AND push_bit 2 (mask 6)) = take_bit 6 (drop_bit 2 n)"
    by (rule bit_eqI) (auto simp: bit_simps)
  have c: "n AND mask 2 = take_bit 2 n"
    by (rule bit_eqI) (auto simp: bit_simps)
  have u: "\<And>k (w :: u16). k \<le> 8 \<Longrightarrow> unat (ucast (take_bit k w) :: u8) = unat (take_bit k w)"
  proof -
    fix k :: nat and w :: u16 assume k: "k \<le> 8"
    have "unat (take_bit k w) < 2 ^ k" by (simp add: unsigned_take_bit_eq)
    also have "(2::nat) ^ k \<le> 2 ^ 8" using k by (intro power_increasing) simp_all
    finally show "unat (ucast (take_bit k w) :: u8) = unat (take_bit k w)"
      by (simp add: unsigned_ucast_eq take_bit_nat_eq_self)
  qed
  have lt: "unat n < 65536" using unsigned_less[of n, where 'a=nat] by simp
  have v: "\<And>k j. unat (take_bit k (drop_bit j n)) = unat n div 2 ^ j mod 2 ^ k"
    using lt by (simp add: unsigned_take_bit_eq unsigned_drop_bit_eq take_bit_eq_mod[where 'a=nat]
          drop_bit_eq_div[where 'a=nat])
  have "unat (TCR_slave n) = unat (take_bit 2 (drop_bit 0 n))"
    unfolding TCR_slave_def TMTCR_V_CMD_ADDR_def TMTCR_M_CMD_ADDR_def a drop_bit_0 id_apply c
    by (rule u) simp
  then show "unat (TCR_slave n) = unat n mod 4"
    by (simp only: v) simp
  have "unat (TCR_record_count n) = unat (take_bit 6 (drop_bit 2 n))"
    unfolding TCR_record_count_def TMTCR_V_REC_COUNT_def TMTCR_M_REC_COUNT_def a r
    by (rule u) simp
  then show "unat (TCR_record_count n) = unat n div 4 mod 64"
    by (simp only: v) simp
  have "unat (TCR_skip_count n) = unat (take_bit 4 (drop_bit 8 n))"
    unfolding TCR_skip_count_def TMTCR_V_SKIP_COUNT_def TMTCR_M_SKIP_COUNT_def a s
    by (rule u) simp
  then show "unat (TCR_skip_count n) = unat n div 256 mod 16"
    by (simp only: v) simp
  have "unat (TCR_format n) = unat (take_bit 3 (drop_bit 12 n))"
    unfolding TCR_format_def TMTCR_V_FORMAT_def TMTCR_M_FORMAT_def a f
    by (rule u) simp
  then show "unat (TCR_format n) = unat n div 4096 mod 8"
    by (simp only: v) simp
qed

lemma ucast_u16_u32_eq_0 [simp]: "((ucast (w :: u16) :: u32) = 0) = (w = 0)"
proof
  assume "(ucast w :: u32) = 0"
  then have "LOWORD (ucast w :: u32) = LOWORD (0 :: u32)" by simp
  then have "w = LOWORD (0 :: u32)" by (simp only: LOWORD_ucast_u16)
  then show "w = 0" by (simp add: LOWORD_def)
qed simp

lemma unat_byte_count: "unat (byte_count bcr) = (if bcr = 0 then 65536 else unat bcr)"
proof (cases "bcr = 0")
  case True then show ?thesis by (simp add: byte_count_def)
next
  case False
  then have "(ucast bcr :: u32) \<noteq> 0" by simp
  moreover have "unat (ucast bcr :: u32) = unat bcr"
    by (simp add: unsigned_ucast_eq take_bit_nat_eq_self unsigned_less[where 'a=nat, THEN less_trans])
  ultimately show ?thesis using False by (simp add: byte_count_def Let_def)
qed

lemma fault_a_value:
  "MK_TMDIR TMIC_TM_FAULT_A TMFC_NONE OR TMDIR_DPR = 0x118"
  "interrupt_code 0x118 = TMIC_TM_FAULT_A"
  by (simp_all add: MK_TMDIR_def TMIC_TM_FAULT_A_def TMFC_NONE_def interrupt_code_def
        TMDIR_DPR_def TMDIR_V_FC_def TMDIR_M_FC_def TMDIR_V_IC_def TMDIR_M_IC_def)

lemma errret_open:
  "is_open (m_UPE d) \<Longrightarrow> m_nUnit d < 8 \<Longrightarrow>
   errret d = Inr (d\<lparr>m_UPE := effect (DataFIFOStore 0) (effect (SendCountStore FORCE_EXCEPTION)
                 (store_register (m_nUnit d) TMDIR 0x118 (m_UPE d)))\<rparr>)"
  by (simp add: errret_def empty_exception_open fault_a_value)

text \<open>
  Claim C8.  \<open>DoTransferCommand\<close> on an open bridge (the assertion of the register
  methods): the fields of \<open>TMTCR\<close> are the slave (bits 0 to 1), the record count (bits 2
  to 7), the skip count (bits 8 to 11) and the format (bits 12 to 14).  If the slave is
  not 0, or the format is neither 10-compatible (2) nor 10-core-dump (3), or the skip
  count is not 0, or the record count is above 1, the command does exactly three things:
  it stores \<open>TM_FAULT_A\<close> (with \<open>DPR\<close>) in \<open>TMDIR\<close>, it stores the send count with the
  exception bit, and it stores one zero word in the data FIFO; the image, the byte buffer
  and the data FIFO read position stay as they are.  Otherwise the function is dispatched
  with the byte count of \<open>TMBCR\<close>, where 0 stands for 65536; a function that is not a
  transfer function is rejected in the same way.
\<close>

theorem DoTransferCommand_rejects:
  assumes "is_open (m_UPE d)" and "m_nUnit d < 8"
  shows
    "(TCR_slave (reg d TMTCR) \<noteq> 0
        \<or> (TCR_format (reg d TMTCR) \<noteq> TMAM_10_COMPATIBLE
             \<and> TCR_format (reg d TMTCR) \<noteq> TMAM_10_CORE_DUMP)
        \<or> TCR_skip_count (reg d TMTCR) \<noteq> 0
        \<or> 1 < TCR_record_count (reg d TMTCR)
      \<longrightarrow> DoTransferCommand ops bFunction d =
            Inr (d\<lparr>m_UPE := (m_UPE d)
                   \<lparr>alRegisters := (alRegisters (m_UPE d))
                       (m_nUnit d := (alRegisters (m_UPE d) (m_nUnit d))(TMDIR := 0x118)),
                    effects := effects (m_UPE d) @
                       [RegisterStore (m_nUnit d) TMDIR 0x118,
                        SendCountStore FORCE_EXCEPTION, DataFIFOStore 0]\<rparr>\<rparr>))
     \<and> (TCR_slave (reg d TMTCR) = 0
        \<and> (TCR_format (reg d TMTCR) = TMAM_10_COMPATIBLE
             \<or> TCR_format (reg d TMTCR) = TMAM_10_CORE_DUMP)
        \<and> TCR_skip_count (reg d TMTCR) = 0
        \<and> TCR_record_count (reg d TMTCR) \<le> 1
      \<longrightarrow> DoTransferCommand ops bFunction d =
            (let bFormat = TCR_format (reg d TMTCR);
                 lByteCount = (if reg d TMBCR = 0 then 65536 else ucast (reg d TMBCR))
             in if bFunction = TMCMD_RD_FWD then DoRead ops False bFormat lByteCount d
                else if bFunction = TMCMD_RD_REV then DoRead ops True bFormat lByteCount d
                else if bFunction = TMCMD_WRT_PE \<or> bFunction = TMCMD_WRT_GCR
                  then DoWrite ops bFormat lByteCount d
                else if bFunction = TMCMD_RD_EXSNS then DoReadExtendedSense d
                else errret d))
     \<and> interrupt_code 0x118 = TMIC_TM_FAULT_A
     \<and> unat (TCR_slave (reg d TMTCR)) = unat (reg d TMTCR) mod 4
     \<and> unat (TCR_record_count (reg d TMTCR)) = unat (reg d TMTCR) div 4 mod 64
     \<and> unat (TCR_skip_count (reg d TMTCR)) = unat (reg d TMTCR) div 256 mod 16
     \<and> unat (TCR_format (reg d TMTCR)) = unat (reg d TMTCR) div 4096 mod 8
     \<and> TMAM_10_COMPATIBLE = 2 \<and> TMAM_10_CORE_DUMP = 3"
proof -
  have rd: "ReadMBR (m_nUnit d) TMTCR (m_UPE d) = Inr (reg d TMTCR)"
    "ReadMBR (m_nUnit d) TMBCR (m_UPE d) = Inr (reg d TMBCR)"
    using assms by (simp_all add: ReadMBR_open tape_registers_lt_32 reg_def)
  have e: "errret d =
            Inr (d\<lparr>m_UPE := (m_UPE d)
                   \<lparr>alRegisters := (alRegisters (m_UPE d))
                       (m_nUnit d := (alRegisters (m_UPE d) (m_nUnit d))(TMDIR := 0x118)),
                    effects := effects (m_UPE d) @
                       [RegisterStore (m_nUnit d) TMDIR 0x118,
                        SendCountStore FORCE_EXCEPTION, DataFIFOStore 0]\<rparr>\<rparr>)"
    using assms by (simp add: errret_open store_register_def effect_def)
  have bc: "byte_count (reg d TMBCR) = (if reg d TMBCR = 0 then 65536 else ucast (reg d TMBCR))"
    by (simp add: byte_count_def Let_def)
  have 1: "TCR_slave (reg d TMTCR) \<noteq> 0
        \<or> (TCR_format (reg d TMTCR) \<noteq> TMAM_10_COMPATIBLE
             \<and> TCR_format (reg d TMTCR) \<noteq> TMAM_10_CORE_DUMP)
        \<or> TCR_skip_count (reg d TMTCR) \<noteq> 0
        \<or> 1 < TCR_record_count (reg d TMTCR)
      \<longrightarrow> DoTransferCommand ops bFunction d = errret d"
    by (auto simp: DoTransferCommand_def rd Let_def)
  have 2: "TCR_slave (reg d TMTCR) = 0
        \<and> (TCR_format (reg d TMTCR) = TMAM_10_COMPATIBLE
             \<or> TCR_format (reg d TMTCR) = TMAM_10_CORE_DUMP)
        \<and> TCR_skip_count (reg d TMTCR) = 0
        \<and> TCR_record_count (reg d TMTCR) \<le> 1
      \<longrightarrow> DoTransferCommand ops bFunction d =
            (let bFormat = TCR_format (reg d TMTCR);
                 lByteCount = (if reg d TMBCR = 0 then 65536 else ucast (reg d TMBCR))
             in if bFunction = TMCMD_RD_FWD then DoRead ops False bFormat lByteCount d
                else if bFunction = TMCMD_RD_REV then DoRead ops True bFormat lByteCount d
                else if bFunction = TMCMD_WRT_PE \<or> bFunction = TMCMD_WRT_GCR
                  then DoWrite ops bFormat lByteCount d
                else if bFunction = TMCMD_RD_EXSNS then DoReadExtendedSense d
                else errret d)"
    unfolding DoTransferCommand_def rd andthen_Inr Let_def bc
    by (auto simp: not_less)
  have 3: "TMAM_10_COMPATIBLE = 2" "TMAM_10_CORE_DUMP = 3"
    by (simp_all add: TMAM_10_COMPATIBLE_def TMAM_10_CORE_DUMP_def)
  show ?thesis
    using 1 2 unat_TCR_fields[of "reg d TMTCR"] fault_a_value(2) 3
    unfolding e by (intro conjI)
qed

theorem DoTransferCommand_rejects_witness:
  "is_open (m_UPE (with_register TMTCR 0x2001 (test_tape [Record [1, 2, 3, 4]] True False)))
   \<and> m_nUnit (with_register TMTCR 0x2001 (test_tape [Record [1, 2, 3, 4]] True False)) < 8
   \<and> TCR_slave 0x2001 = 1 \<and> TCR_format 0x2001 = TMAM_10_COMPATIBLE
   \<and> (\<exists>d'. DoTransferCommand simple_tape TMCMD_RD_FWD
              (with_register TMTCR 0x2001 (test_tape [Record [1, 2, 3, 4]] True False)) = Inr d'
       \<and> reg d' TMDIR = 0x118
       \<and> effects (m_UPE d') = [RegisterStore 0 TMDIR 0x118, SendCountStore 0x1000000, DataFIFOStore 0]
       \<and> pos (m_pImage d') = 0)"
proof -
  have s: "TCR_slave 0x2001 = 1" "TCR_format 0x2001 = TMAM_10_COMPATIBLE"
    by (simp_all add: TCR_slave_def TCR_format_def TMTCR_V_CMD_ADDR_def TMTCR_M_CMD_ADDR_def
          TMTCR_V_FORMAT_def TMTCR_M_FORMAT_def TMAM_10_COMPATIBLE_def)
  have o: "is_open (m_UPE (with_register TMTCR 0x2001 (test_tape [Record [1, 2, 3, 4]] True False)))"
    "m_nUnit (with_register TMTCR 0x2001 (test_tape [Record [1, 2, 3, 4]] True False)) < 8"
    by (simp_all add: with_register_def test_tape_def test_upe_def)
  have r: "reg (with_register TMTCR 0x2001 (test_tape [Record [1, 2, 3, 4]] True False)) TMTCR = 0x2001"
    by (simp add: reg_def with_register_def test_tape_def test_upe_def LOWORD_def)
  have "DoTransferCommand simple_tape TMCMD_RD_FWD
          (with_register TMTCR 0x2001 (test_tape [Record [1, 2, 3, 4]] True False))
        = Inr ((with_register TMTCR 0x2001 (test_tape [Record [1, 2, 3, 4]] True False))
            \<lparr>m_UPE := (m_UPE (with_register TMTCR 0x2001 (test_tape [Record [1, 2, 3, 4]] True False)))
                   \<lparr>alRegisters := (alRegisters (m_UPE (with_register TMTCR 0x2001 (test_tape [Record [1, 2, 3, 4]] True False))))
                       (m_nUnit (with_register TMTCR 0x2001 (test_tape [Record [1, 2, 3, 4]] True False)) :=
                          (alRegisters (m_UPE (with_register TMTCR 0x2001 (test_tape [Record [1, 2, 3, 4]] True False)))
                             (m_nUnit (with_register TMTCR 0x2001 (test_tape [Record [1, 2, 3, 4]] True False))))(TMDIR := 0x118)),
                    effects := effects (m_UPE (with_register TMTCR 0x2001 (test_tape [Record [1, 2, 3, 4]] True False))) @
                       [RegisterStore (m_nUnit (with_register TMTCR 0x2001 (test_tape [Record [1, 2, 3, 4]] True False))) TMDIR 0x118,
                        SendCountStore FORCE_EXCEPTION, DataFIFOStore 0]\<rparr>\<rparr>)"
    using DoTransferCommand_rejects[OF o, of simple_tape TMCMD_RD_FWD, unfolded r s, THEN conjunct1]
    by (rule mp) simp
  then show ?thesis
    using o s
    by (simp add: with_register_def test_tape_def test_upe_def reg_def FORCE_EXCEPTION_def LOWORD_def)
qed

subsection \<open>The half word count of a write\<close>

lemma ReadData_one:
  assumes "is_open b" and "\<not> is_offline b" and "IsDataValid (data_fifo b (data_reads b))"
  shows "ReadData 1 b =
           Inr (True, [MASK18 (data_fifo b (data_reads b))],
                (if upe_IsTape b then effect (SendCountStore 1) b else b)
                  \<lparr>data_reads := Suc (data_reads b)\<rparr>)"
  using assms
  by (simp add: ReadData_def ReadData_loop.simps[of 1] poll_data.simps[of 0] read_data_fifo_def
        effect_def Let_def)

lemma unat_DoWrite_clRecord:
  assumes "unat N < 2 ^ 31"
  shows "unat (DoWrite_clRecord TMAM_10_COMPATIBLE N) = unat N div 2"
    and "unat (DoWrite_clRecord TMAM_10_CORE_DUMP N) = 2 * unat N div 5"
proof -
  have "unat (N * 2) = unat N * 2"
    using assms by (simp add: unat_word_ariths)
  then show "unat (DoWrite_clRecord TMAM_10_COMPATIBLE N) = unat N div 2"
    and "unat (DoWrite_clRecord TMAM_10_CORE_DUMP N) = 2 * unat N div 5"
    by (simp_all add: DoWrite_clRecord_def TMAM_10_COMPATIBLE_def TMAM_10_CORE_DUMP_def unat_div
          mult.commute)
qed

lemma DoWrite_reaches_ReadData:
  assumes "is_open (m_UPE d)" and "m_nUnit d < 8" and "IsOnline ops d" and "\<not> IsReadOnly d"
  shows "DoWrite ops bFormat lByteCount d =
           andthen (ReadData (DoWrite_clRecord bFormat lByteCount)
                      (store_register (m_nUnit d) TMDIR (ucast (MK_TMDIR TMIC_DONE TMFC_NONE OR TMDIR_DPR))
                         (store_register (m_nUnit d) TMTCR
                            (alRegisters (m_UPE d) (m_nUnit d) TMTCR AND MKLONG 0 (NOT TMTCR_M_REC_COUNT))
                            (m_UPE d))))
             (\<lambda>(ok, alBuffer, b).
                if ok then
                  andthen (returning (Fiddle18to8 bFormat alBuffer (DoWrite_clRecord bFormat lByteCount)))
                    (\<lambda>abOut. Inr (d\<lparr>m_UPE := b,
                                     m_abBuffer := abOut @ drop (length abOut) (m_abBuffer d),
                                     m_pImage := img_WriteRecord ops
                                        (abOut @ drop (length abOut) (m_abBuffer d))
                                        (of_nat (length abOut)) (m_pImage d)\<rparr>))
                else Inr (d\<lparr>m_UPE := b\<rparr>))"
  using assms
  by (simp add: DoWrite_def CheckWritable_def CheckOnline_def Let_def seq_def upe_drop_def
        ClearBitMBR_open SetDataInt_open tape_registers_lt_32 split_def
      cong: if_cong)

text \<open>
  Claim C5.  The half word count \<open>DoWrite\<close> computes is the byte count halved
  (10-compatible) or two fifths of it (10-core-dump), rounded down; it is not always
  even.  When the drive is online and writable and the next word of the data FIFO is
  valid, a write of 2 bytes in 10-compatible mode and a write of 3 bytes in 10-core-dump
  mode read one half word, call \<open>Fiddle18to8\<close> with the count 1 and fail its assertion
  \<open>(clIn & 1) == 0\<close>; a write of 1 byte asks \<open>ReadData\<close> for 0 words and fails its
  assertion \<open>clData > 0\<close>.
\<close>

theorem DoWrite_odd_halfword_count:
  assumes "is_open (m_UPE d)" and "m_nUnit d < 8" and "\<not> is_offline (m_UPE d)"
    and "IsOnline ops d" and "\<not> IsReadOnly d"
    and "IsDataValid (data_fifo (m_UPE d) (data_reads (m_UPE d)))"
  shows "DoWrite_clRecord TMAM_10_COMPATIBLE 2 = 1
     \<and> DoWrite_clRecord TMAM_10_CORE_DUMP 3 = 1
     \<and> DoWrite_clRecord TMAM_10_COMPATIBLE 1 = 0
     \<and> DoWrite ops TMAM_10_COMPATIBLE 2 d = Inl AssertionFailed
     \<and> DoWrite ops TMAM_10_CORE_DUMP 3 d = Inl AssertionFailed
     \<and> DoWrite ops TMAM_10_COMPATIBLE 1 d = Inl AssertionFailed
     \<and> (unat N < 2 ^ 31 \<longrightarrow>
           unat (DoWrite_clRecord TMAM_10_COMPATIBLE N) = unat N div 2
           \<and> unat (DoWrite_clRecord TMAM_10_CORE_DUMP N) = 2 * unat N div 5)"
proof -
  have c: "DoWrite_clRecord TMAM_10_COMPATIBLE 2 = 1" "DoWrite_clRecord TMAM_10_CORE_DUMP 3 = 1"
    "DoWrite_clRecord TMAM_10_COMPATIBLE 1 = 0"
    by (simp_all add: DoWrite_clRecord_def TMAM_10_COMPATIBLE_def TMAM_10_CORE_DUMP_def)
  have f: "\<And>bFormat ws. Fiddle18to8 bFormat ws 1 = Some (Inl AssertionFailed)"
    by (simp add: Fiddle18to8_def)
  have "DoWrite ops TMAM_10_COMPATIBLE 2 d = Inl AssertionFailed"
    "DoWrite ops TMAM_10_CORE_DUMP 3 d = Inl AssertionFailed"
    using assms
    by (simp_all add: DoWrite_reaches_ReadData c ReadData_one f returning_def)
  moreover have "DoWrite ops TMAM_10_COMPATIBLE 1 d = Inl AssertionFailed"
    using assms by (simp add: DoWrite_reaches_ReadData c ReadData_def)
  ultimately show ?thesis
    using c unat_DoWrite_clRecord[of N] by simp
qed

theorem DoWrite_odd_halfword_count_witness:
  "is_open (m_UPE (test_tape [] True False)) \<and> m_nUnit (test_tape [] True False) < 8
   \<and> \<not> is_offline (m_UPE (test_tape [] True False))
   \<and> IsOnline simple_tape (test_tape [] True False) \<and> \<not> IsReadOnly (test_tape [] True False)
   \<and> IsDataValid (data_fifo (m_UPE (test_tape [] True False))
                     (data_reads (m_UPE (test_tape [] True False))))
   \<and> DoWrite simple_tape TMAM_10_COMPATIBLE 2 (test_tape [] True False) = Inl AssertionFailed
   \<and> DoWrite simple_tape TMAM_10_CORE_DUMP 3 (test_tape [] True False) = Inl AssertionFailed
   \<and> unat (DoWrite_clRecord TMAM_10_COMPATIBLE 65534) = 32767"
proof -
  have h: "is_open (m_UPE (test_tape [] True False))" "m_nUnit (test_tape [] True False) < 8"
    "\<not> is_offline (m_UPE (test_tape [] True False))"
    "IsOnline simple_tape (test_tape [] True False)" "\<not> IsReadOnly (test_tape [] True False)"
    "IsDataValid (data_fifo (m_UPE (test_tape [] True False))
                     (data_reads (m_UPE (test_tape [] True False))))"
    by (simp_all add: test_tape_def test_upe_def IsOnline_def IsAttached_def IsReadOnly_def
          simple_tape_def IsDataValid_def ISSET_def VALID_def)
  show ?thesis
    using DoWrite_odd_halfword_count[OF h, of 65534] h by simp
qed

subsection \<open>The read only flag\<close>














subsection \<open>Spacing over records and files\<close>

declare DoSpace_loop.simps [simp del]

lemma image_after_Suc:
  "image_after space (Suc i) img = image_after space i (snd (space img))"
  using funpow_swap1[of "\<lambda>x. snd (space x)" i img] by (simp add: image_after_def)

lemma image_after_0 [simp]: "image_after space 0 img = img"
  by (simp add: image_after_def)

lemma unat_u8_pred: "0 < (n :: u8) \<Longrightarrow> unat (n - 1) = unat n - 1"
  by (simp add: unat_minus_one word_neq_0_conv[symmetric])

lemma DoSpace_loop_stop:
  "space img = (nRet, img1) \<Longrightarrow> \<not> 0 < nRet \<Longrightarrow> DoSpace_loop space n img = (nRet, n, img1)"
  by (subst DoSpace_loop.simps) simp

lemma DoSpace_loop_last:
  "space img = (nRet, img1) \<Longrightarrow> 0 < nRet \<Longrightarrow> 0 < n \<Longrightarrow> n - 1 = 0 \<Longrightarrow>
   DoSpace_loop space n img = (nRet, 0, img1)"
  by (subst DoSpace_loop.simps) simp

lemma DoSpace_loop_step:
  "space img = (nRet, img1) \<Longrightarrow> 0 < nRet \<Longrightarrow> 0 < n \<Longrightarrow> 0 < n - 1 \<Longrightarrow>
   DoSpace_loop space n img = DoSpace_loop space (n - 1) img1"
  by (subst DoSpace_loop.simps) simp

lemma DoSpace_loop_counts:
  "0 < n \<Longrightarrow> DoSpace_loop space n img = (nRet, c, img') \<Longrightarrow>
   \<exists>j \<le> unat n. (\<forall>i<j. 0 < fst (space (image_after space i img)))
     \<and> unat c = unat n - j
     \<and> (j = unat n \<longrightarrow> 0 < nRet \<and> img' = image_after space j img)
     \<and> (j < unat n \<longrightarrow> nRet \<le> 0 \<and> nRet = fst (space (image_after space j img))
                          \<and> img' = image_after space (Suc j) img)"
proof (induction "unat n" arbitrary: n img)
  case 0
  then have "n = 0" by (simp add: unsigned_eq_0_iff)
  with 0 show ?case by simp
next
  case (Suc k)
  obtain r img1 where sp: "space img = (r, img1)" by (cases "space img")
  have npos: "0 < unat n" using Suc.hyps(2) by simp
  have i1: "\<And>i. image_after space (Suc i) img = image_after space i img1"
    by (simp add: image_after_Suc sp)
  show ?case
  proof (cases "0 < r")
    case False
    have "DoSpace_loop space n img = (r, n, img1)"
      using sp False by (rule DoSpace_loop_stop[of space img r img1 n])
    with Suc.prems(2) have e: "nRet = r" "c = n" "img' = img1" by simp_all
    show ?thesis
    proof (intro exI[of _ 0] conjI impI)
      show "0 \<le> unat n" by simp
      show "\<forall>i<0. 0 < fst (space (image_after space i img))" by simp
      show "unat c = unat n - 0" using e by simp
      show "nRet \<le> 0" using e False by simp
      show "nRet = fst (space (image_after space 0 img))" using e sp by simp
      show "img' = image_after space (Suc 0) img" using e i1 by simp
      show "0 < nRet" if "0 = unat n" using that npos by simp
      show "img' = image_after space 0 img" if "0 = unat n" using that npos by simp
    qed
  next
    case True
    show ?thesis
    proof (cases "n - 1 = 0")
      case z: True
      have n1: "unat n = 1" using z unat_u8_pred[OF Suc.prems(1)] npos by simp
      have "DoSpace_loop space n img = (r, 0, img1)"
        using sp True Suc.prems(1) z by (rule DoSpace_loop_last[of space img r img1 n])
      with Suc.prems(2) have e: "nRet = r" "c = 0" "img' = img1" by simp_all
      show ?thesis
      proof (intro exI[of _ 1] conjI impI)
        show "1 \<le> unat n" using n1 by simp
        show "\<forall>i<1. 0 < fst (space (image_after space i img))" using True sp by simp
        show "unat c = unat n - 1" using e n1 by simp
        show "0 < nRet" using e True by simp
        show "img' = image_after space 1 img" using e i1[of 0] by simp
        show "nRet \<le> 0" if "1 < unat n" using that n1 by simp
        show "nRet = fst (space (image_after space 1 img))" if "1 < unat n" using that n1 by simp
        show "img' = image_after space (Suc 1) img" if "1 < unat n" using that n1 by simp
      qed
    next
      case nz: False
      then have p: "0 < n - 1" unfolding word_neq_0_conv .
      have k: "k = unat (n - 1)" using Suc.hyps(2) unat_u8_pred[OF Suc.prems(1)] by simp
      have "DoSpace_loop space n img = DoSpace_loop space (n - 1) img1"
        using sp True Suc.prems(1) p by (rule DoSpace_loop_step[of space img r img1 n])
      with Suc.prems(2) have res: "DoSpace_loop space (n - 1) img1 = (nRet, c, img')" by simp
      from Suc.hyps(1)[OF k p res] obtain j where
        j: "j \<le> unat (n - 1)" "\<forall>i<j. 0 < fst (space (image_after space i img1))"
        and r1: "unat c = unat (n - 1) - j"
        and r2: "j = unat (n - 1) \<longrightarrow> 0 < nRet \<and> img' = image_after space j img1"
        and r3: "j < unat (n - 1) \<longrightarrow> nRet \<le> 0 \<and> nRet = fst (space (image_after space j img1))
                                \<and> img' = image_after space (Suc j) img1"
        by (elim exE conjE) 
      have u: "unat n = Suc (unat (n - 1))" using k Suc.hyps(2) by simp
      have a: "\<forall>i<Suc j. 0 < fst (space (image_after space i img))"
      proof (intro allI impI)
        fix i assume "i < Suc j"
        then show "0 < fst (space (image_after space i img))"
          using j(2) True sp by (cases i) (simp_all add: i1)
      qed
      show ?thesis
      proof (intro exI[of _ "Suc j"] conjI)
        show "Suc j \<le> unat n" using j(1) u by simp
        show "\<forall>i<Suc j. 0 < fst (space (image_after space i img))" by (rule a)
        show "unat c = unat n - Suc j" using r1 u by simp
        show "Suc j = unat n \<longrightarrow> 0 < nRet \<and> img' = image_after space (Suc j) img"
          using r2 u i1 by auto
        show "Suc j < unat n \<longrightarrow> nRet \<le> 0 \<and> nRet = fst (space (image_after space (Suc j) img))
                                \<and> img' = image_after space (Suc (Suc j)) img"
          using r3 u i1 by auto
      qed
    qed
  qed
qed

lemma count_byte:
  "HIBYTE (LOWORD ((ucast (MKWORD c l) :: u32) AND 65534)) = c"
  "LOBYTE (LOWORD ((ucast (MKWORD c l) :: u32) AND 65534)) = l AND - 2"
proof -
  have m: "(0xFF :: 'a::len word) = mask 8" "(0xFFFF :: 'a::len word) = mask 16"
    "(65534 :: u32) = - 2 AND mask 16"
    by (simp_all add: mask_eq_exp_minus_1)
  show "HIBYTE (LOWORD ((ucast (MKWORD c l) :: u32) AND 65534)) = c"
    unfolding HIBYTE_def LOWORD_def MKWORD_def m
    by (rule bit_eqI) (auto simp: bit_simps bit_minus_2_iff dest: bit_imp_le_length)
  show "LOBYTE (LOWORD ((ucast (MKWORD c l) :: u32) AND 65534)) = l AND - 2"
    unfolding LOBYTE_def LOWORD_def MKWORD_def m
    by (rule bit_eqI) (auto simp: bit_simps bit_minus_2_iff dest: bit_imp_le_length)
qed

lemma motion_codes:
  "interrupt_code (MK_TMMIR TMIC_DONE 0 TMFC_NONE) = TMIC_DONE"
  "interrupt_code (MK_TMMIR TMIC_TAPE_MARK 0 TMFC_NONE) = TMIC_TAPE_MARK"
  "interrupt_code (MK_TMMIR TMIC_BOT 0 TMFC_NONE) = TMIC_BOT"
  "interrupt_code (MK_TMMIR TMIC_EOT 0 TMFC_NONE) = TMIC_EOT"
  "interrupt_code (MK_TMMIR TMIC_BAD_TAPE 0 TMFC_NONE) = TMIC_BAD_TAPE"
  "interrupt_code (MK_TMMIR TMIC_FILE_PROTECT 0 TMFC_NONE) = TMIC_FILE_PROTECT"
  "interrupt_code (MK_TMMIR TMIC_OFFLINE 0 TMFC_NONE) = TMIC_OFFLINE"
  by (simp_all add: interrupt_code_def MK_TMMIR_def TMFC_NONE_def TMMIR_V_FC_def TMMIR_M_FC_def
        TMMIR_V_IC_def TMMIR_M_IC_def TMMIR_V_UNIT_def TMMIR_M_UNIT_def TMIC_DONE_def
        TMIC_TAPE_MARK_def TMIC_BOT_def TMIC_EOT_def TMIC_BAD_TAPE_def TMIC_FILE_PROTECT_def
        TMIC_OFFLINE_def)

lemma DoSpace_open:
  assumes "is_open (m_UPE d)" and "m_nUnit d < 8" and "IsOnline ops d"
    and "DoSpace_loop (if fFiles then (if fReverse then img_SpaceReverseFile ops
                                       else img_SpaceForwardFile ops)
                       else (if fReverse then img_SpaceReverseRecord ops
                             else img_SpaceForwardRecord ops)) n (m_pImage d) = (nRet, c, img')"
  shows "\<exists>d'. DoSpace ops n fReverse fFiles d = Inr d'
           \<and> m_pImage d' = img'
           \<and> HIBYTE (reg d' TMMCR0) = c
           \<and> LOBYTE (reg d' TMMCR0) = LOBYTE (reg d TMMCR0) AND NOT 1
           \<and> length (effects (m_UPE d')) = length (effects (m_UPE d)) + 3
           \<and> interrupt_code (reg d' TMMIR) =
               (if nRet = BADTAPE ops then TMIC_BAD_TAPE
                else if nRet = TAPEMARK ops then TMIC_TAPE_MARK
                else if nRet = EOTBOT ops then (if fReverse then TMIC_BOT else TMIC_EOT)
                else TMIC_DONE)"
  using assms(1-3)
  by (simp add: DoSpace_def CheckOnline_def assms(4) Let_def seq_def SetMotionCount_open
        ClearMotionGO_open SetMotionInt_open reg_def count_byte
        motion_codes[unfolded reg_def] TMMIR_def TMMCR0_def)

text \<open>
  Claim C7.  A space command (records or files, forward or reverse) on slave 0 of an
  online drive, with the count byte \<open>bCount\<close>; \<open>n\<close> is the count, 1 when the byte is 0, and
  \<open>space\<close> the image method of the command.  The command returns.  There is a number
  \<open>j \<le> n\<close> of skips that were completed: the first \<open>j\<close> calls of \<open>space\<close> returned a
  positive length.  If \<open>j = n\<close> the count is exhausted, the image is the one after \<open>n\<close>
  calls and the interrupt is \<open>DONE\<close>.  If \<open>j < n\<close>, call \<open>j + 1\<close> returned \<open>nRet \<le> 0\<close>, the
  image is the one after \<open>j + 1\<close> calls, and the interrupt is \<open>BAD_TAPE\<close>, \<open>TAPE_MARK\<close>,
  \<open>BOT\<close> (reverse) or \<open>EOT\<close> (forward) when \<open>nRet\<close> is \<open>BADTAPE\<close>, \<open>TAPEMARK\<close> or
  \<open>EOTBOT\<close>, and \<open>DONE\<close> for any other code.  The count byte of \<open>TMMCR0\<close> becomes \<open>n - j\<close>,
  the low byte keeps its bits but \<open>GO\<close>.  The three codes of the image are taken to be
  distinct and not positive.
\<close>

theorem DoMotionCommand_space:
  assumes "is_open (m_UPE d)" and "m_nUnit d < 8" and "IsOnline ops d"
    and "TAPEMARK ops \<le> 0" and "EOTBOT ops \<le> 0" and "BADTAPE ops \<le> 0"
    and "TAPEMARK ops \<noteq> EOTBOT ops" and "TAPEMARK ops \<noteq> BADTAPE ops"
    and "EOTBOT ops \<noteq> BADTAPE ops"
    and "(bFunction = TMCMD_SP_FWD_REC \<and> \<not> fReverse \<and> space = img_SpaceForwardRecord ops)
       \<or> (bFunction = TMCMD_SP_REV_REC \<and> fReverse \<and> space = img_SpaceReverseRecord ops)
       \<or> (bFunction = TMCMD_SP_FWD_FILE \<and> \<not> fReverse \<and> space = img_SpaceForwardFile ops)
       \<or> (bFunction = TMCMD_SP_REV_FILE \<and> fReverse \<and> space = img_SpaceReverseFile ops)"
    and "n = (if bCount = 0 then 1 else unat bCount)"
  shows "\<exists>d' j nRet. DoMotionCommand ops 0 bFunction bCount d = Inr d'
      \<and> j \<le> n
      \<and> (\<forall>i<j. 0 < fst (space (image_after space i (m_pImage d))))
      \<and> (j = n \<longrightarrow> m_pImage d' = image_after space n (m_pImage d)
                    \<and> interrupt_code (reg d' TMMIR) = TMIC_DONE)
      \<and> (j < n \<longrightarrow> nRet = fst (space (image_after space j (m_pImage d))) \<and> nRet \<le> 0
                    \<and> m_pImage d' = image_after space (Suc j) (m_pImage d)
                    \<and> interrupt_code (reg d' TMMIR) =
                        (if nRet = BADTAPE ops then TMIC_BAD_TAPE
                         else if nRet = TAPEMARK ops then TMIC_TAPE_MARK
                         else if nRet = EOTBOT ops then (if fReverse then TMIC_BOT else TMIC_EOT)
                         else TMIC_DONE))
      \<and> unat (HIBYTE (reg d' TMMCR0)) = n - j
      \<and> LOBYTE (reg d' TMMCR0) = LOBYTE (reg d TMMCR0) AND NOT 1
      \<and> length (effects (m_UPE d')) = length (effects (m_UPE d)) + 3"
proof -
  define c0 where "c0 = (if bCount = 0 then 1 else bCount)"
  have c0: "0 < c0" "unat c0 = n"
    using assms(11) by (auto simp: c0_def word_neq_0_conv)
  define fFiles where "fFiles = (bFunction = TMCMD_SP_FWD_FILE \<or> bFunction = TMCMD_SP_REV_FILE)"
  have sp: "space = (if fFiles then (if fReverse then img_SpaceReverseFile ops
                                       else img_SpaceForwardFile ops)
                       else (if fReverse then img_SpaceReverseRecord ops
                             else img_SpaceForwardRecord ops))"
    using assms(10)
    by (elim disjE conjE)
       (simp_all add: fFiles_def TMCMD_SP_FWD_REC_def TMCMD_SP_REV_REC_def TMCMD_SP_FWD_FILE_def
          TMCMD_SP_REV_FILE_def)
  have m: "DoMotionCommand ops 0 bFunction bCount d = DoSpace ops c0 fReverse fFiles d"
    using assms(10)
    by (elim disjE conjE)
       (simp_all add: DoMotionCommand_def c0_def fFiles_def Let_def TMCMD_SP_FWD_REC_def
          TMCMD_SP_REV_REC_def TMCMD_SP_FWD_FILE_def TMCMD_SP_REV_FILE_def TMCMD_SENSE_def
          TMCMD_WTM_PE_def TMCMD_WTM_GCR_def)
  obtain nRet c img' where l: "DoSpace_loop space c0 (m_pImage d) = (nRet, c, img')"
    by (cases "DoSpace_loop space c0 (m_pImage d)")
  from DoSpace_open[OF assms(1-3) l[unfolded sp]]
  obtain d' where d': "DoSpace ops c0 fReverse fFiles d = Inr d'"
    "m_pImage d' = img'" "HIBYTE (reg d' TMMCR0) = c"
    "LOBYTE (reg d' TMMCR0) = LOBYTE (reg d TMMCR0) AND NOT 1"
    "length (effects (m_UPE d')) = length (effects (m_UPE d)) + 3"
    "interrupt_code (reg d' TMMIR) =
               (if nRet = BADTAPE ops then TMIC_BAD_TAPE
                else if nRet = TAPEMARK ops then TMIC_TAPE_MARK
                else if nRet = EOTBOT ops then (if fReverse then TMIC_BOT else TMIC_EOT)
                else TMIC_DONE)"
    by blast
  from DoSpace_loop_counts[OF c0(1) l] obtain j where
    j: "j \<le> n" "\<forall>i<j. 0 < fst (space (image_after space i (m_pImage d)))"
    "unat c = n - j"
    "j = n \<longrightarrow> 0 < nRet \<and> img' = image_after space j (m_pImage d)"
    "j < n \<longrightarrow> nRet \<le> 0 \<and> nRet = fst (space (image_after space j (m_pImage d)))
                          \<and> img' = image_after space (Suc j) (m_pImage d)"
    unfolding c0(2) by (elim exE conjE)
  have dn: "interrupt_code (reg d' TMMIR) = TMIC_DONE" if "j = n"
    using that j(4) d'(6) assms(4-6) by auto
  show ?thesis
  proof (intro exI[of _ d'] exI[of _ j] exI[of _ nRet] conjI)
    show "DoMotionCommand ops 0 bFunction bCount d = Inr d'" unfolding m by (rule d'(1))
    show "j \<le> n" by (rule j(1))
    show "\<forall>i<j. 0 < fst (space (image_after space i (m_pImage d)))" by (rule j(2))
    show "j = n \<longrightarrow> m_pImage d' = image_after space n (m_pImage d)
                    \<and> interrupt_code (reg d' TMMIR) = TMIC_DONE"
      using j(4) d'(2) dn by simp
    show "j < n \<longrightarrow> nRet = fst (space (image_after space j (m_pImage d))) \<and> nRet \<le> 0
                    \<and> m_pImage d' = image_after space (Suc j) (m_pImage d)
                    \<and> interrupt_code (reg d' TMMIR) =
                        (if nRet = BADTAPE ops then TMIC_BAD_TAPE
                         else if nRet = TAPEMARK ops then TMIC_TAPE_MARK
                         else if nRet = EOTBOT ops then (if fReverse then TMIC_BOT else TMIC_EOT)
                         else TMIC_DONE)"
      using j(5) d'(2) d'(6) by blast
    show "unat (HIBYTE (reg d' TMMCR0)) = n - j" using j(3) d'(3) by simp
    show "LOBYTE (reg d' TMMCR0) = LOBYTE (reg d TMMCR0) AND NOT 1" by (rule d'(4))
    show "length (effects (m_UPE d')) = length (effects (m_UPE d)) + 3" by (rule d'(5))
  qed
qed

theorem DoMotionCommand_space_witness:
  "is_open (m_UPE (test_tape [Record [1, 2, 3], Record [4], TapeMark, Record [5, 6]] True False))
   \<and> m_nUnit (test_tape [Record [1, 2, 3], Record [4], TapeMark, Record [5, 6]] True False) < 8
   \<and> IsOnline simple_tape (test_tape [Record [1, 2, 3], Record [4], TapeMark, Record [5, 6]] True False)
   \<and> TAPEMARK simple_tape \<le> 0 \<and> EOTBOT simple_tape \<le> 0 \<and> BADTAPE simple_tape \<le> 0
   \<and> TAPEMARK simple_tape \<noteq> EOTBOT simple_tape \<and> TAPEMARK simple_tape \<noteq> BADTAPE simple_tape
   \<and> EOTBOT simple_tape \<noteq> BADTAPE simple_tape
   \<and> (\<exists>d'. DoMotionCommand simple_tape 0 TMCMD_SP_FWD_REC 4
              (test_tape [Record [1, 2, 3], Record [4], TapeMark, Record [5, 6]] True False) = Inr d'
         \<and> HIBYTE (reg d' TMMCR0) = 2
         \<and> interrupt_code (reg d' TMMIR) = TMIC_TAPE_MARK
         \<and> pos (m_pImage d') = 3)"
proof -
  define t where "t = \<lparr>items = [Record [1, 2, 3], Record [4], TapeMark, Record [5, 6]], pos = 0,
                        opened = True, read_only = False\<rparr>"
  have h: "is_open (m_UPE (test_tape [Record [1, 2, 3], Record [4], TapeMark, Record [5, 6]] True False))"
    "m_nUnit (test_tape [Record [1, 2, 3], Record [4], TapeMark, Record [5, 6]] True False) < 8"
    "IsOnline simple_tape (test_tape [Record [1, 2, 3], Record [4], TapeMark, Record [5, 6]] True False)"
    "TAPEMARK simple_tape \<le> 0" "EOTBOT simple_tape \<le> 0" "BADTAPE simple_tape \<le> 0"
    "TAPEMARK simple_tape \<noteq> EOTBOT simple_tape" "TAPEMARK simple_tape \<noteq> BADTAPE simple_tape"
    "EOTBOT simple_tape \<noteq> BADTAPE simple_tape"
    by (simp_all add: test_tape_def test_upe_def simple_tape_def IsOnline_def IsAttached_def)
  have f: "(TMCMD_SP_FWD_REC = TMCMD_SP_FWD_REC \<and> \<not> False \<and> tape_space_forward = img_SpaceForwardRecord simple_tape)
       \<or> (TMCMD_SP_FWD_REC = TMCMD_SP_REV_REC \<and> False \<and> tape_space_forward = img_SpaceReverseRecord simple_tape)
       \<or> (TMCMD_SP_FWD_REC = TMCMD_SP_FWD_FILE \<and> \<not> False \<and> tape_space_forward = img_SpaceForwardFile simple_tape)
       \<or> (TMCMD_SP_FWD_REC = TMCMD_SP_REV_FILE \<and> False \<and> tape_space_forward = img_SpaceReverseFile simple_tape)"
    by (simp add: simple_tape_def)
  have n: "(4 :: nat) = (if (4 :: u8) = 0 then 1 else unat (4 :: u8))" by simp
  have img: "m_pImage (test_tape [Record [1, 2, 3], Record [4], TapeMark, Record [5, 6]] True False) = t"
    by (simp add: test_tape_def t_def)
  have a: "image_after tape_space_forward 0 t = t"
    "image_after tape_space_forward 1 t = t\<lparr>pos := 1\<rparr>"
    "image_after tape_space_forward 2 t = t\<lparr>pos := 2\<rparr>"
    "image_after tape_space_forward 3 t = t\<lparr>pos := 3\<rparr>"
    by (simp_all add: image_after_def eval_nat_numeral tape_space_forward_def t_def)
  have s: "fst (tape_space_forward t) = 3" "fst (tape_space_forward (t\<lparr>pos := 1\<rparr>)) = 1"
    "fst (tape_space_forward (t\<lparr>pos := 2\<rparr>)) = 0"
    by (simp_all add: tape_space_forward_def t_def)
  from DoMotionCommand_space[OF h f n, unfolded img]
  obtain d' j nRet where
    d: "DoMotionCommand simple_tape 0 TMCMD_SP_FWD_REC 4
          (test_tape [Record [1, 2, 3], Record [4], TapeMark, Record [5, 6]] True False) = Inr d'"
    and j: "j \<le> 4" "\<forall>i<j. 0 < fst (tape_space_forward (image_after tape_space_forward i t))"
    and stop: "j < 4 \<longrightarrow> nRet = fst (tape_space_forward (image_after tape_space_forward j t))
                  \<and> nRet \<le> 0
                  \<and> m_pImage d' = image_after tape_space_forward (Suc j) t
                  \<and> interrupt_code (reg d' TMMIR) =
                        (if nRet = BADTAPE simple_tape then TMIC_BAD_TAPE
                         else if nRet = TAPEMARK simple_tape then TMIC_TAPE_MARK
                         else if nRet = EOTBOT simple_tape then (if False then TMIC_BOT else TMIC_EOT)
                         else TMIC_DONE)"
    and c: "unat (HIBYTE (reg d' TMMCR0)) = 4 - j"
    by blast
  have "\<not> 2 < j" using j(2) a(3) s(3) by auto
  then have "j = 0 \<or> j = 1 \<or> j = 2" by arith
  then have j2: "j = 2" using stop a s by (auto simp: eval_nat_numeral)
  have "HIBYTE (reg d' TMMCR0) = 2"
    using c j2 by (simp add: word_unat_eq_iff)
  moreover have "j < 4" using j2 by simp
  with stop have st: "nRet = fst (tape_space_forward (image_after tape_space_forward j t))"
    "m_pImage d' = image_after tape_space_forward (Suc j) t"
    "interrupt_code (reg d' TMMIR) =
       (if nRet = BADTAPE simple_tape then TMIC_BAD_TAPE
        else if nRet = TAPEMARK simple_tape then TMIC_TAPE_MARK
        else if nRet = EOTBOT simple_tape then (if False then TMIC_BOT else TMIC_EOT)
        else TMIC_DONE)"
    by blast+
  have sj: "Suc j = 3" using j2 by simp
  have n0: "nRet = 0" using st(1) unfolding j2 a(3) s(3) .
  have "pos (m_pImage d') = 3" unfolding st(2) sj a(4) by (simp add: t_def)
  moreover have "interrupt_code (reg d' TMMIR) = TMIC_TAPE_MARK"
    unfolding st(3) n0 by (simp add: simple_tape_def)
  ultimately show ?thesis using h d by simp
qed

subsection \<open>Writing to a read only drive\<close>

declare poll_data.simps [simp del]
declare ReadData_loop.simps [simp del]
declare poll_almost_empty.simps [simp del]
declare WriteData_tape_loop.simps [simp del]
declare WriteData_disk_loop.simps [simp del]

lemma poll_data_frame:
  "poll_data tmo b = (r, b') \<Longrightarrow>
   is_open b' = is_open b \<and> alRegisters b' = alRegisters b \<and> effects b' = effects b"
proof (induction tmo b rule: poll_data.induct)
  case (1 tmo b)
  show ?case
  proof (cases "IsDataValid (data_fifo b (data_reads b)) \<or> tmo \<ge> DATA_TIMEOUT")
    case True
    then show ?thesis
      using "1.prems" by (subst (asm) poll_data.simps) (auto simp: read_data_fifo_def split: if_splits)
  next
    case False
    then have "poll_data tmo b = poll_data (Suc tmo) (b\<lparr>data_reads := Suc (data_reads b)\<rparr>)"
      by (subst poll_data.simps) (simp add: read_data_fifo_def)
    with "1.prems" have n: "poll_data (Suc tmo) (b\<lparr>data_reads := Suc (data_reads b)\<rparr>) = (r, b')"
      by simp
    have rf: "(data_fifo b (data_reads b), b\<lparr>data_reads := Suc (data_reads b)\<rparr>) = read_data_fifo b"
      by (simp add: read_data_fifo_def)
    from False have nv: "\<not> IsDataValid (data_fifo b (data_reads b))" and nt: "\<not> DATA_TIMEOUT \<le> tmo"
      by auto
    from "1.IH"[OF refl rf nv nt n] show ?thesis by simp
  qed
qed

lemma ReadData_loop_frame:
  "ReadData_loop clData i plData b = (ok, ws, b') \<Longrightarrow>
   is_open b' = is_open b \<and> alRegisters b' = alRegisters b \<and> effects b' = effects b"
proof (induction clData i plData b rule: ReadData_loop.induct)
  case (1 clData i plData b)
  obtain r b1 where p: "poll_data 0 b = (r, b1)" by (cases "poll_data 0 b")
  note f = poll_data_frame[OF p]
  show ?case
  proof (cases "i < unat clData")
    case False
    then show ?thesis using "1.prems" by (subst (asm) ReadData_loop.simps) simp
  next
    case True
    show ?thesis
    proof (cases r)
      case None
      then show ?thesis
        using "1.prems" True p f by (subst (asm) ReadData_loop.simps) auto
    next
      case (Some data)
      then have "ReadData_loop clData (Suc i) (plData @ [MASK18 data]) b1 = (ok, ws, b')"
        using "1.prems" True p by (subst (asm) ReadData_loop.simps) simp
      from "1.IH"[OF True p[symmetric] _ this] Some f show ?thesis by simp
    qed
  qed
qed

lemma ReadData_frame:
  assumes "is_open b" and "0 < clData"
  shows "\<exists>ok ws b'. ReadData clData b = Inr (ok, ws, b')
           \<and> is_open b' = is_open b \<and> alRegisters b' = alRegisters b"
proof (cases "is_offline b")
  case True
  then have "ReadData clData b = Inr (False, [], b)" by (simp add: ReadData_def)
  then show ?thesis by blast
next
  case False
  obtain ok ws b' where
    l: "ReadData_loop clData 0 [] (if upe_IsTape b then effect (SendCountStore clData) b else b)
          = (ok, ws, b')"
    by (cases "ReadData_loop clData 0 [] (if upe_IsTape b then effect (SendCountStore clData) b else b)")
  from ReadData_loop_frame[OF l] have "is_open b' = is_open b \<and> alRegisters b' = alRegisters b"
    by (simp split: if_splits)
  then show ?thesis
    using assms False l by (simp add: ReadData_def Let_def)
qed

lemma and_not_and: "(x AND NOT m) AND m = (0 :: u16)"
  by (simp add: and.assoc)

lemma SpinDown_online:
  assumes "is_open (m_UPE x)" and "m_nUnit x < 8" and "IsOnline ops x"
  shows "\<exists>x'. SpinDown ops x = Inr x' \<and> m_pImage x' = m_pImage x \<and> \<not> IsOnline ops x'
              \<and> reg x' RPDS AND (RPDS_MOL OR RPDS_VV) = 0"
proof -
  define M where "M = (RPDS_MOL OR RPDS_VV)"
  define x' where "x' = x\<lparr>m_UPE := store_register (m_nUnit x) RPDS
                     (alRegisters (m_UPE x) (m_nUnit x) RPDS AND MKLONG 0 (NOT M)) (m_UPE x),
                  m_fOnline := False\<rparr>"
  have e: "SpinDown ops x = Inr x'"
    using assms
    by (simp add: SpinDown_def IsOnline_def upe_drop_def ClearBitMBR_open tape_registers_lt_32
          CBaseDrive_GoOffline_def x'_def M_def)
  have "reg x' RPDS = LOWORD (alRegisters (m_UPE x) (m_nUnit x) RPDS) AND NOT M"
    by (simp add: reg_def x'_def LOWORD_and_ucast)
  then have "reg x' RPDS AND M = 0" by (simp only: and_not_and)
  moreover have "m_pImage x' = m_pImage x" "\<not> IsOnline ops x'"
    by (simp_all add: x'_def IsOnline_def)
  ultimately show ?thesis using e unfolding M_def by blast
qed

lemma disk_DoWrite_read_only:
  assumes "is_open (m_UPE dd)" and "m_nUnit dd < 8" and "IsOnline dops dd" and "IsReadOnly dd"
  shows "\<exists>dd'. CDiskDrive_DoWrite dops wCommand dd = Inr dd'
           \<and> m_pImage dd' = m_pImage dd \<and> \<not> IsOnline dops dd'
           \<and> reg dd' RPDS AND (RPDS_MOL OR RPDS_VV) = 0"
proof -
  obtain lLBA where g: "GetDesiredLBA dd = Inr lLBA"
    using assms(1,2) by (simp add: GetDesiredLBA_def ReadMBR_open tape_registers_lt_32)
  show ?thesis
  proof (cases "lLBA = INVALID_SECTOR")
    case True
    then have "CDiskDrive_DoWrite dops wCommand dd = SpinDown dops dd"
      using assms(3) by (simp add: CDiskDrive_DoWrite_def g)
    then show ?thesis
      using SpinDown_online[OF assms(1-3)] by simp
  next
    case False
    have "(0 :: u32) < of_nat SECTOR_SIZE" by (simp add: SECTOR_SIZE_def)
    from ReadData_frame[OF assms(1) this] obtain ok ws b' where
      r: "ReadData (of_nat SECTOR_SIZE) (m_UPE dd) = Inr (ok, ws, b')" and o: "is_open b'"
      using assms(1) by auto
    have on: "IsOnline dops (dd\<lparr>m_UPE := b'\<rparr>)"
      using assms(3) by (simp add: IsOnline_def IsAttached_def)
    have "CDiskDrive_DoWrite dops wCommand dd = SpinDown dops (dd\<lparr>m_UPE := b'\<rparr>)"
      using assms(3,4) False by (simp add: CDiskDrive_DoWrite_def g r Let_def IsReadOnly_def)
    then show ?thesis
      using SpinDown_online[of "dd\<lparr>m_UPE := b'\<rparr>" dops] o on assms(2) by simp
  qed
qed

lemma CheckWritable_read_only:
  assumes "is_open (m_UPE d)" and "m_nUnit d < 8" and "IsReadOnly d"
  shows "CheckWritable ops True d =
           Inr (False, d\<lparr>m_UPE := store_register (m_nUnit d) TMMIR
                  (ucast (MK_TMMIR (if IsOnline ops d then TMIC_FILE_PROTECT else TMIC_OFFLINE) 0 TMFC_NONE))
                  (store_register (m_nUnit d) TMMCR0
                     (alRegisters (m_UPE d) (m_nUnit d) TMMCR0 AND MKLONG 0 (NOT 1)) (m_UPE d))\<rparr>)"
    and "CheckWritable ops False d =
           Inr (False, d\<lparr>m_UPE := effect (DataFIFOStore 0) (effect (SendCountStore FORCE_EXCEPTION)
                  (store_register (m_nUnit d) TMDIR
                     (ucast (MK_TMDIR (if IsOnline ops d then TMIC_FILE_PROTECT else TMIC_OFFLINE) TMFC_NONE
                               OR TMDIR_DPR)) (m_UPE d)))\<rparr>)"
  using assms
  by (simp_all add: CheckWritable_def CheckOnline_def motion_interrupt_open
        empty_exception_open[unfolded empty_exception_def])

lemma data_codes:
  "interrupt_code (MK_TMDIR TMIC_FILE_PROTECT TMFC_NONE OR TMDIR_DPR) = TMIC_FILE_PROTECT"
  "interrupt_code (MK_TMDIR TMIC_OFFLINE TMFC_NONE OR TMDIR_DPR) = TMIC_OFFLINE"
  "interrupt_code (MK_TMDIR TMIC_DONE TMFC_NONE OR TMDIR_DPR) = TMIC_DONE"
  "interrupt_code (MK_TMDIR TMIC_SHORT_RECORD TMFC_NONE OR TMDIR_DPR) = TMIC_SHORT_RECORD"
  "interrupt_code (MK_TMDIR TMIC_LONG_RECORD TMFC_NONE OR TMDIR_DPR) = TMIC_LONG_RECORD"
  "interrupt_code (MK_TMDIR TMIC_TAPE_MARK TMFC_NONE OR TMDIR_DPR) = TMIC_TAPE_MARK"
  "interrupt_code (MK_TMDIR TMIC_EOT TMFC_NONE OR TMDIR_DPR) = TMIC_EOT"
  "interrupt_code (MK_TMDIR TMIC_BOT TMFC_NONE OR TMDIR_DPR) = TMIC_BOT"
  "interrupt_code (MK_TMDIR TMIC_UNREADABLE 1 OR TMDIR_DPR) = TMIC_UNREADABLE"
  by (simp_all add: interrupt_code_def MK_TMDIR_def TMFC_NONE_def TMDIR_V_FC_def TMDIR_M_FC_def
        TMDIR_V_IC_def TMDIR_M_IC_def TMDIR_DPR_def TMIC_DONE_def TMIC_SHORT_RECORD_def
        TMIC_LONG_RECORD_def TMIC_TAPE_MARK_def TMIC_EOT_def TMIC_BOT_def TMIC_UNREADABLE_def
        TMIC_FILE_PROTECT_def TMIC_OFFLINE_def)

text \<open>
  Claim C9, with the drive's online state made explicit.  On a read only drive every
  write command returns and leaves the image as it is.  A tape write command (write
  mark, erase gap, data security erase, write) fails its preflight \<open>CheckWritable\<close>, which
  first asks whether the drive is online: on an online drive the interrupt is
  \<open>FILE_PROTECT\<close>, on a drive that is not online it is \<open>OFFLINE\<close>; for a motion command
  the interrupt goes to \<open>TMMIR\<close> after \<open>GO\<close> is cleared, for a write to \<open>TMDIR\<close> followed by
  the empty transfer with the exception bit, and the bridge sees nothing else.  A disk
  write, which is called on an online drive (its assertion), ends with the drive offline
  and \<open>MOL\<close> and \<open>VV\<close> cleared in \<open>RPDS\<close>, without a call of \<open>WriteSector\<close>.
\<close>

theorem read_only_drive_keeps_image:
  assumes "is_open (m_UPE d)" and "m_nUnit d < 8" and "IsReadOnly d"
    and "is_open (m_UPE dd)" and "m_nUnit dd < 8" and "IsReadOnly dd" and "IsOnline dops dd"
    and "ic = (if IsOnline ops d then TMIC_FILE_PROTECT else TMIC_OFFLINE)"
  shows "(\<exists>d'. DoWriteMark ops nCount d = Inr d' \<and> m_pImage d' = m_pImage d
             \<and> interrupt_code (reg d' TMMIR) = ic
             \<and> length (effects (m_UPE d')) = length (effects (m_UPE d)) + 2)
      \<and> (\<exists>d'. DoWriteGap ops nCount d = Inr d' \<and> m_pImage d' = m_pImage d
             \<and> interrupt_code (reg d' TMMIR) = ic
             \<and> length (effects (m_UPE d')) = length (effects (m_UPE d)) + 2)
      \<and> (\<exists>d'. DoEraseTape ops d = Inr d' \<and> m_pImage d' = m_pImage d
             \<and> interrupt_code (reg d' TMMIR) = ic
             \<and> length (effects (m_UPE d')) = length (effects (m_UPE d)) + 2)
      \<and> (\<exists>d' v. DoWrite ops bFormat lByteCount d = Inr d' \<and> m_pImage d' = m_pImage d
             \<and> m_abBuffer d' = m_abBuffer d
             \<and> interrupt_code (reg d' TMDIR) = ic
             \<and> data_reads (m_UPE d') = data_reads (m_UPE d)
             \<and> effects (m_UPE d') = effects (m_UPE d) @
                  [RegisterStore (m_nUnit d) TMDIR v, SendCountStore FORCE_EXCEPTION, DataFIFOStore 0])
      \<and> (\<exists>dd'. CDiskDrive_DoWrite dops wCommand dd = Inr dd'
             \<and> m_pImage dd' = m_pImage dd \<and> \<not> IsOnline dops dd'
             \<and> reg dd' RPDS AND (RPDS_MOL OR RPDS_VV) = 0)"
proof -
  note c = CheckWritable_read_only[OF assms(1-3), of ops]
  have r: "TMMIR \<noteq> TMMCR0" by (simp add: TMMIR_def TMMCR0_def)
  have 1: "\<exists>d'. DoWriteMark ops nCount d = Inr d' \<and> m_pImage d' = m_pImage d
             \<and> interrupt_code (reg d' TMMIR) = ic
             \<and> length (effects (m_UPE d')) = length (effects (m_UPE d)) + 2"
    using assms(8) by (simp add: DoWriteMark_def c(1) reg_def motion_codes)
  have 2: "\<exists>d'. DoWriteGap ops nCount d = Inr d' \<and> m_pImage d' = m_pImage d
             \<and> interrupt_code (reg d' TMMIR) = ic
             \<and> length (effects (m_UPE d')) = length (effects (m_UPE d)) + 2" for nCount
    using assms(8) by (simp add: DoWriteGap_def c(1) reg_def motion_codes)
  have 3: "\<exists>d' v. DoWrite ops bFormat lByteCount d = Inr d' \<and> m_pImage d' = m_pImage d
             \<and> m_abBuffer d' = m_abBuffer d
             \<and> interrupt_code (reg d' TMDIR) = ic
             \<and> data_reads (m_UPE d') = data_reads (m_UPE d)
             \<and> effects (m_UPE d') = effects (m_UPE d) @
                  [RegisterStore (m_nUnit d) TMDIR v, SendCountStore FORCE_EXCEPTION, DataFIFOStore 0]"
    using assms(8) by (simp add: DoWrite_def c(2) reg_def data_codes)
  show ?thesis
    using 1 2[of nCount] 2[of 1, folded DoEraseTape_def]
      3 disk_DoWrite_read_only[OF assms(4,5,7,6), of wCommand]
    by (intro conjI)
qed

theorem read_only_drive_keeps_image_witness:
  "is_open (m_UPE (test_tape [Record [1]] True True)) \<and> m_nUnit (test_tape [Record [1]] True True) < 8
   \<and> IsReadOnly (test_tape [Record [1]] True True)
   \<and> IsOnline simple_tape (test_tape [Record [1]] True True)
   \<and> is_open (m_UPE (test_disk True True)) \<and> m_nUnit (test_disk True True) < 8
   \<and> IsReadOnly (test_disk True True) \<and> IsOnline simple_disk (test_disk True True)
   \<and> (\<exists>d'. DoWriteMark simple_tape 1 (test_tape [Record [1]] True True) = Inr d'
          \<and> m_pImage d' = m_pImage (test_tape [Record [1]] True True)
          \<and> interrupt_code (reg d' TMMIR) = TMIC_FILE_PROTECT)
   \<and> (\<exists>d'. DoWrite simple_tape TMAM_10_COMPATIBLE 4 (test_tape [Record [1]] True True) = Inr d'
          \<and> m_pImage d' = m_pImage (test_tape [Record [1]] True True)
          \<and> interrupt_code (reg d' TMDIR) = TMIC_FILE_PROTECT
          \<and> data_reads (m_UPE d') = 0)
   \<and> (\<exists>dd'. CDiskDrive_DoWrite simple_disk 0x31 (test_disk True True) = Inr dd'
          \<and> m_pImage dd' = m_pImage (test_disk True True) \<and> \<not> IsOnline simple_disk dd')"
proof -
  have h: "is_open (m_UPE (test_tape [Record [1]] True True))"
    "m_nUnit (test_tape [Record [1]] True True) < 8"
    "IsReadOnly (test_tape [Record [1]] True True)"
    "is_open (m_UPE (test_disk True True))" "m_nUnit (test_disk True True) < 8"
    "IsReadOnly (test_disk True True)" "IsOnline simple_disk (test_disk True True)"
    by (simp_all add: test_tape_def test_disk_def test_upe_def IsReadOnly_def IsOnline_def
          IsAttached_def simple_disk_def)
  have o: "IsOnline simple_tape (test_tape [Record [1]] True True)"
    by (simp add: test_tape_def IsOnline_def IsAttached_def simple_tape_def)
  then have i: "TMIC_FILE_PROTECT =
      (if IsOnline simple_tape (test_tape [Record [1]] True True) then TMIC_FILE_PROTECT
       else TMIC_OFFLINE)"
    by simp
  have z: "data_reads (m_UPE (test_tape [Record [1]] True True)) = 0"
    by (simp add: test_tape_def test_upe_def)
  show ?thesis
    using read_only_drive_keeps_image[OF h i, where nCount = 1 and bFormat = TMAM_10_COMPATIBLE
            and lByteCount = 4 and wCommand = "0x31"] h o
    unfolding z by blast
qed

text \<open>
  A read only tape drive that is attached but not online, which is the state \<open>Attach\<close>
  leaves it in: write mark and write end with the interrupt \<open>OFFLINE\<close>, not
  \<open>FILE_PROTECT\<close>.
\<close>

theorem read_only_offline_tape_counterexample:
  "IsReadOnly (test_tape [Record [1]] False True)
   \<and> IsAttached simple_tape (test_tape [Record [1]] False True)
   \<and> TMIC_OFFLINE \<noteq> TMIC_FILE_PROTECT
   \<and> (\<exists>d'. DoWriteMark simple_tape 1 (test_tape [Record [1]] False True) = Inr d'
          \<and> interrupt_code (reg d' TMMIR) = TMIC_OFFLINE)
   \<and> (\<exists>d'. DoWrite simple_tape TMAM_10_COMPATIBLE 4 (test_tape [Record [1]] False True) = Inr d'
          \<and> interrupt_code (reg d' TMDIR) = TMIC_OFFLINE)"
proof -
  have h: "is_open (m_UPE (test_tape [Record [1]] False True))"
    "m_nUnit (test_tape [Record [1]] False True) < 8"
    "IsReadOnly (test_tape [Record [1]] False True)"
    by (simp_all add: test_tape_def test_upe_def IsReadOnly_def)
  have o: "\<not> IsOnline simple_tape (test_tape [Record [1]] False True)"
    "IsAttached simple_tape (test_tape [Record [1]] False True)"
    by (simp_all add: test_tape_def IsOnline_def IsAttached_def simple_tape_def)
  note c = CheckWritable_read_only[OF h, of simple_tape]
  have "\<exists>d'. DoWriteMark simple_tape 1 (test_tape [Record [1]] False True) = Inr d'
          \<and> interrupt_code (reg d' TMMIR) = TMIC_OFFLINE"
    using o h(2) by (simp add: DoWriteMark_def c(1) reg_def motion_codes)
  moreover have "\<exists>d'. DoWrite simple_tape TMAM_10_COMPATIBLE 4 (test_tape [Record [1]] False True) = Inr d'
          \<and> interrupt_code (reg d' TMDIR) = TMIC_OFFLINE"
    using o h(2) by (simp add: DoWrite_def c(2) reg_def data_codes)
  moreover have "TMIC_OFFLINE \<noteq> TMIC_FILE_PROTECT"
    by (simp add: TMIC_OFFLINE_def TMIC_FILE_PROTECT_def)
  ultimately show ?thesis using h(3) o(2) by blast
qed

subsection \<open>Reading a record\<close>










lemma record_count_cleared:
  "TCR_record_count (LOWORD (v AND MKLONG 0 (NOT TMTCR_M_REC_COUNT))) = 0"
  "LOWORD (v AND MKLONG 0 (NOT TMTCR_M_REC_COUNT)) = LOWORD v AND NOT TMTCR_M_REC_COUNT"
proof -
  show e: "LOWORD (v AND MKLONG 0 (NOT TMTCR_M_REC_COUNT)) = LOWORD v AND NOT TMTCR_M_REC_COUNT"
    unfolding MKLONG_0 by (rule LOWORD_and_ucast)
  show "TCR_record_count (LOWORD (v AND MKLONG 0 (NOT TMTCR_M_REC_COUNT))) = 0"
    unfolding e TCR_record_count_def and_not_and by simp
qed





end
